(* ===== verification/Prelude.thy ===== *)
theory Prelude
  imports Main
begin

text \<open>
  Shared vocabulary of the development. A JavaScript value that may be
  \<open>undefined\<close> is an \<open>option\<close> (\<open>None\<close> is \<open>undefined\<close>); array elements,
  array reads out of range and the items handed between lists all have this type.
  A JavaScript exception is a \<open>js_error\<close>; since JavaScript objects are shared by
  reference, an exception does not undo the mutations made before it was thrown, so
  a computation returns its state in both outcomes (\<open>Ok\<close> and \<open>Exn\<close>), and
  \<open>res_bind\<close> stops at the first exception while keeping that state.
\<close>

named_theorems js_simps "characteristic equations of the JavaScript layer"

type_synonym 'a jsval = "'a option"
type_synonym addr = nat
type_synonym node = nat
type_synonym dir_id = nat

datatype js_error =
    NotAFunction          \<comment> \<open>TypeError: calling null or a non-function value\<close>
  | UndefinedControl      \<comment> \<open>TypeError inside FormArray on an undefined control\<close>
  | NoSortableInstance    \<comment> \<open>TypeError: reading a property of the undefined instance\<close>
  | DomNotFound           \<comment> \<open>NotFoundError of the DOM: the child is not a child of the parent\<close>
  | NotAnElement          \<comment> \<open>Sortable's error: the container is not an HTMLElement\<close>
  | NotAnObject           \<comment> \<open>TypeError: reading a property of, or the keys of, undefined\<close>

datatype ('v, 's) res = Ok 'v 's | Exn js_error 's

primrec res_state :: "('v, 's) res \<Rightarrow> 's" where
  "res_state (Ok v s) = s"
| "res_state (Exn e s) = s"

primrec res_bind :: "('v, 's) res \<Rightarrow> ('v \<Rightarrow> 's \<Rightarrow> ('w, 's) res) \<Rightarrow> ('w, 's) res" where
  "res_bind (Ok v s) f = f v s"
| "res_bind (Exn e s) f = Exn e s"

primrec res_map_state :: "('s \<Rightarrow> 't) \<Rightarrow> ('v, 's) res \<Rightarrow> ('v, 't) res" where
  "res_map_state g (Ok v s) = Ok v (g s)"
| "res_map_state g (Exn e s) = Exn e (g s)"

definition is_ok :: "('v, 's) res \<Rightarrow> bool" where
  "is_ok r = (case r of Ok _ _ \<Rightarrow> True | Exn _ _ \<Rightarrow> False)"

lemma is_ok_simps [simp]:
  "is_ok (Ok v s)" "\<not> is_ok (Exn e s)"
  by (simp_all add: is_ok_def)

lemma res_bind_Ok_iff:
  "res_bind r f = Ok w t \<longleftrightarrow> (\<exists>v s. r = Ok v s \<and> f v s = Ok w t)"
  by (cases r) auto

lemma res_map_state_Ok_iff:
  "res_map_state g r = Ok v t \<longleftrightarrow> (\<exists>s. r = Ok v s \<and> t = g s)"
  by (cases r) auto

lemma res_state_map [simp]: "res_state (res_map_state g r) = g (res_state r)"
  by (cases r) simp_all

subsection \<open>Lists: insertion and removal at a position\<close>

text \<open>
  The abstract effect of a drag inside one list: the element at position \<open>i\<close> is taken
  out and put back so that it ends at position \<open>j\<close>.
\<close>

definition move_item :: "nat \<Rightarrow> nat \<Rightarrow> 'a list \<Rightarrow> 'a list" where
  "move_item i j xs = (let ys = take i xs @ drop (Suc i) xs in take j ys @ xs ! i # drop j ys)"

text \<open>
  The list algebra behind every binding operation: inserting at position \<open>n\<close> and
  removing at position \<open>n\<close> are inverse, and the element at \<open>n\<close> after an insertion
  is the inserted one.
\<close>

lemma remove_after_insert [simp]:
  "n \<le> length xs \<Longrightarrow>
   take n (take n xs @ x # drop n xs) @ drop (Suc n) (take n xs @ x # drop n xs) = xs"
  by (simp add: min_def)

lemma nth_insert_at [simp]:
  "n \<le> length xs \<Longrightarrow> (take n xs @ x # drop n xs) ! n = x"
  by (simp add: nth_append min_def)

lemma insert_after_remove [simp]:
  "n < length xs \<Longrightarrow>
   take n (take n xs @ drop (Suc n) xs) @ xs ! n # drop n (take n xs @ drop (Suc n) xs) = xs"
  by (simp add: min_def id_take_nth_drop [symmetric])

lemma map_of_zip_notin [simp]: "b \<notin> set bs \<Longrightarrow> map_of (zip bs ys) b = None"
  by (auto simp: map_of_eq_None_iff dest: set_zip_leftD)

lemma length_insert_at [simp]:
  "length (take n xs @ x # drop n xs) = Suc (length xs)"
  by simp

lemma replace_before_remove:
  assumes "distinct cs" "c \<in> set cs" "n \<notin> set cs"
  shows "removeAll c (takeWhile (\<lambda>x. x \<noteq> c) cs @ n # dropWhile (\<lambda>x. x \<noteq> c) cs) =
         map (\<lambda>x. if x = c then n else x) cs"
proof -
  obtain xs ys where cs: "cs = xs @ c # ys" and "c \<notin> set xs"
    using split_list_first [OF assms(2)] by blast
  moreover have "c \<notin> set ys" using assms(1) cs by simp
  moreover have "n \<noteq> c" using assms(2,3) by blast
  moreover have "takeWhile (\<lambda>x. x \<noteq> c) (xs @ c # ys) = xs"
    using \<open>c \<notin> set xs\<close> by (induction xs) auto
  moreover have "dropWhile (\<lambda>x. x \<noteq> c) (xs @ c # ys) = c # ys"
    using \<open>c \<notin> set xs\<close> by (induction xs) auto
  moreover have "map (\<lambda>x. if x = c then n else x) zs = zs" if "c \<notin> set zs" for zs
    using that by (induction zs) auto
  ultimately show ?thesis by simp
qed

subsection \<open>Moves and filtering\<close>

lemma length_move_item [simp]: "i < length xs \<Longrightarrow> length (move_item i j xs) = length xs"
  by (simp add: move_item_def Let_def min_def)

lemma list_all2_insert_at:
  "list_all2 R as bs \<Longrightarrow> R a b \<Longrightarrow>
   list_all2 R (take j as @ a # drop j as) (take j bs @ b # drop j bs)"
  by (simp add: list_all2_appendI list_all2_takeI list_all2_dropI)

lemma list_all2_move_item:
  assumes "list_all2 R xs ys" "i < length xs"
  shows "list_all2 R (move_item i j xs) (move_item i j ys)"
proof -
  have rest: "list_all2 R (take i xs @ drop (Suc i) xs) (take i ys @ drop (Suc i) ys)"
    using assms(1) by (intro list_all2_appendI list_all2_takeI list_all2_dropI)
  moreover have "R (xs ! i) (ys ! i)"
    using assms by (simp add: list_all2_nthD)
  ultimately show ?thesis
    unfolding move_item_def Let_def by (rule list_all2_insert_at)
qed

text \<open>
  Taking out the non-draggable elements commutes with a move of a draggable element: the
  move of position \<open>i\<close> to \<open>j\<close> among all elements is the move of the draggable
  positions, which count the draggable elements before \<open>i\<close> and before \<open>j\<close>.
\<close>

lemma filter_move_item:
  assumes "i < length cs" "j < length cs" "P (cs ! i)"
  shows "filter P (move_item i j cs) =
         move_item (length (filter P (take i cs))) (length (filter P (take j (move_item i j cs))))
           (filter P cs)"
proof -
  define ys where "ys = take i cs @ drop (Suc i) cs"
  define x where "x = cs ! i"
  have mv: "move_item i j cs = take j ys @ x # drop j ys"
    by (simp add: move_item_def ys_def x_def Let_def)
  have lys: "j \<le> length ys" using assms(1,2) by (simp add: ys_def)
  have tj: "take j (move_item i j cs) = take j ys"
    using lys by (simp add: mv)
  have fcs: "filter P cs = filter P (take i cs) @ x # filter P (drop (Suc i) cs)"
    using assms(1,3) id_take_nth_drop [OF assms(1)] by (metis filter.simps(2) filter_append x_def)
  define i' where "i' = length (filter P (take i cs))"
  define j' where "j' = length (filter P (take j ys))"
  have rm: "take i' (filter P cs) @ drop (Suc i') (filter P cs) = filter P ys"
    and nth: "filter P cs ! i' = x"
    by (simp_all add: fcs ys_def nth_append i'_def)
  have fys: "filter P ys = filter P (take j ys) @ filter P (drop j ys)"
    by (metis append_take_drop_id filter_append)
  have rhs: "move_item i' j' (filter P cs) = take j' (filter P ys) @ x # drop j' (filter P ys)"
    unfolding move_item_def Let_def rm nth ..
  have tk: "take j' (filter P ys) = filter P (take j ys)"
    by (subst fys) (simp add: j'_def)
  have dr: "drop j' (filter P ys) = filter P (drop j ys)"
    by (subst fys) (simp add: j'_def)
  have lhs: "filter P (move_item i j cs) = filter P (take j ys) @ x # filter P (drop j ys)"
    using assms(3) by (simp add: mv x_def)
  show ?thesis
    using lhs rhs tk dr by (simp add: tj i'_def j'_def)
qed

lemma length_filter_take_move:
  assumes "i < length cs" "j < length cs" "P (cs ! i)"
  shows "length (filter P (take j (move_item i j cs))) < length (filter P cs)"
proof -
  define ys where "ys = take i cs @ drop (Suc i) cs"
  have "filter P ys = filter P (take j ys) @ filter P (drop j ys)"
    by (metis append_take_drop_id filter_append)
  then have a: "length (filter P (take j ys)) \<le> length (filter P ys)"
    by (metis le_add1 length_append)
  have "filter P cs = filter P (take i cs) @ cs ! i # filter P (drop (Suc i) cs)"
    using assms(1,3) id_take_nth_drop [OF assms(1)] by (metis filter.simps(2) filter_append)
  then have b: "length (filter P cs) = Suc (length (filter P ys))"
    by (simp add: ys_def)
  have mv: "move_item i j cs = take j ys @ cs ! i # drop j ys"
    by (simp add: move_item_def ys_def Let_def)
  have "j \<le> length ys" using assms(1,2) by (simp add: ys_def)
  then have c: "take j (move_item i j cs) = take j ys"
    by (simp add: mv)
  from a b c show ?thesis by simp
qed

end
