(* ===== verification/JsArray.thy ===== *)
theory JsArray
  imports Prelude
begin

text \<open>
  The ECMAScript array primitives the bindings call: \<open>Array.prototype.splice\<close>
  (ECMA-262, 23.1.3.31) and integer-keyed property reads \<open>a[i]\<close>. They are not code
  of this repository; they are modelled from the language standard. Indices are
  JavaScript numbers, here \<open>int\<close>: splice counts a negative start from the end and
  clamps both start and delete count into the array, while \<open>a[i]\<close> with \<open>i\<close>
  negative or past the end reads \<open>undefined\<close>.
\<close>

definition js_rel_start :: "nat \<Rightarrow> int \<Rightarrow> nat" where
  "js_rel_start len i = nat (if i < 0 then max (int len + i) 0 else min i (int len))"

text \<open>\<open>js_splice xs start dc items\<close> is \<open>(removed, array after the call)\<close>.\<close>

definition js_splice :: "'a list \<Rightarrow> int \<Rightarrow> int \<Rightarrow> 'a list \<Rightarrow> 'a list \<times> 'a list" where
  "js_splice xs start dc items =
     (let s = js_rel_start (length xs) start;
          d = nat (min (max dc 0) (int (length xs) - int s))
      in (take d (drop s xs), take s xs @ items @ drop (s + d) xs))"

definition js_index :: "'a jsval list \<Rightarrow> int \<Rightarrow> 'a jsval" where
  "js_index xs i = (if 0 \<le> i \<and> i < int (length xs) then xs ! nat i else None)"

subsection \<open>Characteristic equations\<close>

lemma js_rel_start_le [simp]: "js_rel_start len i \<le> len"
  by (auto simp: js_rel_start_def nat_le_iff)

lemma js_rel_start_nonneg [js_simps]:
  "0 \<le> i \<Longrightarrow> js_rel_start len i = min (nat i) len"
  by (auto simp: js_rel_start_def min_def nat_le_iff)

lemma js_rel_start_neg [js_simps]:
  "i < 0 \<Longrightarrow> js_rel_start len i = nat (max (int len + i) 0)"
  by (simp add: js_rel_start_def)

lemma js_splice_insert [js_simps]:
  "js_splice xs i 0 [x] =
     ([], take (js_rel_start (length xs) i) xs @ x # drop (js_rel_start (length xs) i) xs)"
  by (simp add: js_splice_def Let_def)

lemma js_splice_delete1 [js_simps]:
  "js_splice xs i 1 [] =
     (let s = js_rel_start (length xs) i
      in if s < length xs then ([xs ! s], take s xs @ drop (Suc s) xs) else ([], xs))"
  by (auto simp: js_splice_def Let_def take_Suc_conv_app_nth)

lemma js_index_in_range [js_simps]:
  "0 \<le> i \<Longrightarrow> nat i < length xs \<Longrightarrow> js_index xs i = xs ! nat i"
  by (auto simp: js_index_def nat_less_iff)

lemma js_index_out_of_range [js_simps]:
  "i < 0 \<or> int (length xs) \<le> i \<Longrightarrow> js_index xs i = None"
  by (auto simp: js_index_def)

lemma js_index_nat [simp]: "js_index xs (int n) = (if n < length xs then xs ! n else None)"
  by (simp add: js_index_def)

lemma js_index_singleton [simp]: "js_index [x] 0 = x"
  by (simp add: js_index_def)

lemma js_index_Nil [simp]: "js_index [] i = None"
  by (auto simp: js_index_def)

lemma length_js_splice_insert [simp]:
  "length (snd (js_splice xs i 0 [x])) = Suc (length xs)"
  by (simp add: js_splice_insert)

end
