(* ===== verification/Binding.thy ===== *)
theory Binding
  imports JsArray
begin

text \<open>
  \<open>SortablejsBinding\<close> (src/bundles/ngx-sortablejs.umd.js, lines 312-349) wraps one
  bound collection: a plain array or an Angular \<open>FormArray\<close>. The source tells them
  apart by probing for the methods \<open>at\<close>, \<open>insert\<close> and \<open>reset\<close>
  (\<open>isFormArray\<close>); here the outcome of that probe is the constructor of
  \<open>target\<close>. A FormArray's controls are a JavaScript array as well.

  The FormArray methods the binding calls (\<open>at\<close>, \<open>insert\<close>, \<open>removeAt\<close>)
  belong to \<open>@angular/forms\<close>, not to this repository; they are modelled from
  Angular's implementation of the release this bundle was built against: \<open>insert\<close>
  splices the control in and then registers it (\<open>control.setParent\<close>, a TypeError
  for \<open>undefined\<close>), and both mutators end with \<open>updateValueAndValidity\<close>,
  which reads \<open>enabled\<close> of every control (a TypeError when one is \<open>undefined\<close>).
\<close>

datatype 'a target = JsArray "'a jsval list" | FormArray "'a jsval list"

primrec target_items :: "'a target \<Rightarrow> 'a jsval list" where
  "target_items (JsArray xs) = xs"
| "target_items (FormArray cs) = cs"

primrec is_form_array :: "'a target \<Rightarrow> bool" where
  "is_form_array (JsArray xs) = False"
| "is_form_array (FormArray cs) = True"

subsection \<open>The FormArray methods (modelled from @angular/forms)\<close>

definition fa_update_validity :: "'a jsval list \<Rightarrow> (unit, 'a jsval list) res" where
  "fa_update_validity cs = (if None \<in> set cs then Exn UndefinedControl cs else Ok () cs)"

definition fa_at :: "'a jsval list \<Rightarrow> int \<Rightarrow> 'a jsval" where
  "fa_at cs i = js_index cs i"

definition fa_insert :: "int \<Rightarrow> 'a jsval \<Rightarrow> 'a jsval list \<Rightarrow> (unit, 'a jsval list) res" where
  "fa_insert i c cs =
     (let cs' = snd (js_splice cs i 0 [c])
      in if c = None then Exn UndefinedControl cs' else fa_update_validity cs')"

definition fa_remove_at :: "int \<Rightarrow> 'a jsval list \<Rightarrow> (unit, 'a jsval list) res" where
  "fa_remove_at i cs = fa_update_validity (snd (js_splice cs i 1 []))"

subsection \<open>The binding's operations\<close>

text \<open>\<open>insert(index, item)\<close>, lines 316-323.\<close>

definition binding_insert :: "int \<Rightarrow> 'a jsval \<Rightarrow> 'a target \<Rightarrow> (unit, 'a target) res" where
  "binding_insert i x t =
     (case t of
        FormArray cs \<Rightarrow> res_map_state FormArray (fa_insert i x cs)
      | JsArray xs \<Rightarrow> Ok () (JsArray (snd (js_splice xs i 0 [x]))))"

text \<open>\<open>get(index)\<close>, lines 324-326.\<close>

definition binding_get :: "int \<Rightarrow> 'a target \<Rightarrow> 'a jsval" where
  "binding_get i t = (case t of FormArray cs \<Rightarrow> fa_at cs i | JsArray xs \<Rightarrow> js_index xs i)"

text \<open>
  \<open>remove(index)\<close>, lines 327-337: a FormArray is read with \<open>at\<close> and then
  shrunk with \<open>removeAt\<close>; a plain array returns \<open>splice(index, 1)[0]\<close>.
\<close>

definition binding_remove :: "int \<Rightarrow> 'a target \<Rightarrow> ('a jsval, 'a target) res" where
  "binding_remove i t =
     (case t of
        FormArray cs \<Rightarrow>
          (let item = fa_at cs i
           in res_map_state FormArray (res_bind (fa_remove_at i cs) (\<lambda>_ cs'. Ok item cs')))
      | JsArray xs \<Rightarrow>
          (let (removed, xs') = js_splice xs i 1 [] in Ok (js_index removed 0) (JsArray xs')))"

subsection \<open>Well-formedness\<close>

text \<open>
  A target is well formed when it can be operated on without an exception: a plain
  array always, a FormArray when none of its controls is \<open>undefined\<close>.
\<close>

primrec wf_target :: "'a target \<Rightarrow> bool" where
  "wf_target (JsArray xs) = True"
| "wf_target (FormArray cs) = (None \<notin> set cs)"

definition target_len :: "'a target \<Rightarrow> nat" where
  "target_len t = length (target_items t)"

text \<open>The target with its items replaced, keeping its kind.\<close>

primrec with_items :: "'a target \<Rightarrow> 'a jsval list \<Rightarrow> 'a target" where
  "with_items (JsArray xs) ys = JsArray ys"
| "with_items (FormArray cs) ys = FormArray ys"

lemma target_items_with_items [simp]: "target_items (with_items t ys) = ys"
  by (cases t) simp_all

lemma is_form_array_with_items [simp]: "is_form_array (with_items t ys) = is_form_array t"
  by (cases t) simp_all

lemma with_items_with_items [simp]: "with_items (with_items t ys) zs = with_items t zs"
  by (cases t) simp_all

lemma with_items_target_items [simp]: "with_items t (target_items t) = t"
  by (cases t) simp_all

lemma wf_target_iff: "wf_target t \<longleftrightarrow> (is_form_array t \<longrightarrow> None \<notin> set (target_items t))"
  by (cases t) simp_all

subsection \<open>Behaviour on every branch\<close>

text \<open>
  Both kinds insert at the clamped splice position; only a FormArray can throw, and it
  throws after the splice, so the inserted element stays in its controls.
\<close>

lemma binding_insert_eq:
  "binding_insert i x t =
     (let xs = target_items t; s = js_rel_start (length xs) i;
          ys = take s xs @ x # drop s xs
      in if is_form_array t \<and> None \<in> set ys then Exn UndefinedControl (with_items t ys)
         else Ok () (with_items t ys))"
  by (cases t)
     (auto simp: binding_insert_def fa_insert_def fa_update_validity_def js_splice_insert Let_def)

text \<open>
  A plain array returns the element at the clamped splice position; a FormArray reads
  \<open>at(index)\<close>, which is \<open>undefined\<close> for a negative index, before
  \<open>removeAt\<close> splices at the position counted from the end.
\<close>

lemma binding_remove_eq:
  "binding_remove i t =
     (let xs = target_items t; s = js_rel_start (length xs) i;
          ys = (if s < length xs then take s xs @ drop (Suc s) xs else xs);
          item = (if is_form_array t then js_index xs i
                  else if s < length xs then xs ! s else None)
      in if is_form_array t \<and> None \<in> set ys then Exn UndefinedControl (with_items t ys)
         else Ok item (with_items t ys))"
  by (cases t)
     (auto simp: binding_remove_def fa_remove_at_def fa_update_validity_def fa_at_def
        js_splice_delete1 Let_def)

lemma binding_get_eq: "binding_get i t = js_index (target_items t) i"
  by (cases t) (simp_all add: binding_get_def fa_at_def)

lemmas binding_simps = binding_insert_eq binding_remove_eq binding_get_eq

lemma set_take_drop_subset:
  "set (take s xs @ drop (Suc s) xs) \<subseteq> set xs"
  by (metis set_take_subset set_drop_subset_set_drop le_SucI order.refl Un_least
      set_append set_drop_subset subset_trans)

lemma binding_insert_in_range [simp]:
  "wf_target t \<Longrightarrow> 0 \<le> i \<Longrightarrow> nat i \<le> target_len t \<Longrightarrow>
   x \<noteq> None \<or> \<not> is_form_array t \<Longrightarrow>
   binding_insert i x t =
     Ok () (with_items t (take (nat i) (target_items t) @ x # drop (nat i) (target_items t)))"
  by (cases t)
     (auto simp: binding_insert_def fa_insert_def fa_update_validity_def js_splice_insert
        js_rel_start_nonneg target_len_def min_def Let_def dest: in_set_takeD in_set_dropD)

lemma binding_remove_in_range [simp]:
  "wf_target t \<Longrightarrow> 0 \<le> i \<Longrightarrow> nat i < target_len t \<Longrightarrow>
   binding_remove i t =
     Ok (target_items t ! nat i)
        (with_items t (take (nat i) (target_items t) @ drop (Suc (nat i)) (target_items t)))"
  by (cases t)
     (auto simp: binding_remove_def fa_remove_at_def fa_update_validity_def fa_at_def
        js_splice_delete1 js_rel_start_nonneg target_len_def js_index_in_range Let_def
        dest: in_set_takeD in_set_dropD)

subsection \<open>Properties of one binding\<close>

text \<open>
  C1: on a well-formed collection, inserting an item at an index within the collection
  succeeds, \<open>get\<close> at that index then reads the item, and \<open>remove\<close> at that index
  returns the item and gives back the original collection (for a FormArray the item
  must be a control, not \<open>undefined\<close>).
\<close>

theorem binding_insert_remove_roundtrip:
  assumes "wf_target t" "0 \<le> i" "nat i \<le> target_len t" "x \<noteq> None \<or> \<not> is_form_array t"
  shows "\<exists>t'. binding_insert i x t = Ok () t' \<and> binding_get i t' = x \<and>
              binding_remove i t' = Ok x t"
proof -
  let ?ys = "take (nat i) (target_items t) @ x # drop (nat i) (target_items t)"
  have ins: "binding_insert i x t = Ok () (with_items t ?ys)"
    using assms by simp
  have wf: "wf_target (with_items t ?ys)"
    using assms(1,4) by (cases t) (auto dest: in_set_takeD in_set_dropD)
  have len: "nat i < target_len (with_items t ?ys)"
    using assms(3) by (simp add: target_len_def)
  have get: "binding_get i (with_items t ?ys) = x"
    using assms(2,3) len by (simp add: binding_get_eq js_index_in_range target_len_def)
  have "binding_remove i (with_items t ?ys) = Ok x t"
    using binding_remove_in_range [OF wf assms(2) len] assms(3) by (simp add: target_len_def)
  with ins get show ?thesis by blast
qed

theorem binding_insert_remove_roundtrip_witness:
  "\<exists>t'. binding_insert 1 (Some (9::nat)) (FormArray [Some 1, Some 2]) = Ok () t' \<and>
        binding_get 1 t' = Some 9 \<and>
        binding_remove 1 t' = Ok (Some 9) (FormArray [Some 1, Some 2])"
  by (rule binding_insert_remove_roundtrip) (simp_all add: target_len_def)

text \<open>
  C2: the two kinds of collection disagree on a negative index. On a plain array
  \<open>remove(-1)\<close> is \<open>splice(-1, 1)[0]\<close> and returns the last element; on a
  FormArray it reads \<open>at(-1)\<close>, which is \<open>undefined\<close>, while \<open>removeAt(-1)\<close>
  still deletes the last control, so the removed control is lost.
\<close>

theorem binding_remove_negative_index:
  fixes xs cs :: "'a jsval list"
  assumes "xs \<noteq> []" "cs \<noteq> []" "None \<notin> set cs"
  shows "binding_remove (-1) (JsArray xs) = Ok (last xs) (JsArray (butlast xs)) \<and>
         binding_remove (-1) (FormArray cs) = Ok None (FormArray (butlast cs))"
proof -
  have js: "js_rel_start (length ys) (-1) = length ys - 1" if "ys \<noteq> []" for ys :: "'a jsval list"
    using that by (simp add: js_rel_start_neg)
  have bl: "take (length ys - 1) ys @ drop (Suc (length ys - 1)) ys = butlast ys"
    for ys :: "'a jsval list"
    by (simp add: butlast_conv_take)
  have nl: "ys \<noteq> [] \<Longrightarrow> ys ! (length ys - 1) = last ys" for ys :: "'a jsval list"
    by (simp add: last_conv_nth)
  have "None \<notin> set (butlast cs)"
    using assms(3) in_set_butlastD by metis
  then show ?thesis
    using assms js [of xs] js [of cs] bl nl
    by (simp add: binding_remove_eq js_index_out_of_range Let_def)
qed

theorem binding_remove_negative_index_witness:
  "binding_remove (-1) (JsArray [Some (1::nat), Some 2]) = Ok (Some 2) (JsArray [Some 1]) \<and>
   binding_remove (-1) (FormArray [Some (1::nat), Some 2]) = Ok None (FormArray [Some 1])"
  using binding_remove_negative_index [of "[Some (1::nat), Some 2]" "[Some (1::nat), Some 2]"]
  by simp

end
