(* ===== verification/Bindings.thy ===== *)
theory Bindings
  imports Binding
begin

text \<open>
  \<open>SortablejsBindings\<close> (src/bundles/ngx-sortablejs.umd.js, lines 351-372) holds one
  \<open>SortablejsBinding\<close> per bound collection. The collections are JavaScript objects
  shared with the application (and possibly with other directives), so they live in an
  explicit heap \<open>addr \<Rightarrow> 'a target\<close> and a group is the list of the addresses
  of its targets, in the order the source's \<open>bindings\<close> array has them. Two entries
  of a group may alias the same collection; nothing in the source prevents it.
  \<open>forEach\<close> and \<open>map\<close> run their callbacks in order and an exception stops them,
  leaving the collections already visited mutated.
\<close>

type_synonym 'a heap = "addr \<Rightarrow> 'a target"

text \<open>One call of a binding's method on the collection at address \<open>a\<close>.\<close>

definition at_addr :: "addr \<Rightarrow> 'a heap \<Rightarrow> ('v, 'a target) res \<Rightarrow> ('v, 'a heap) res" where
  "at_addr a h r = res_map_state (\<lambda>t. h(a := t)) r"

text \<open>
  \<open>injectIntoEvery(index, items)\<close>, lines 355-357:
  \<open>this.bindings.forEach((b, i) => b.insert(index, items[i]))\<close>; \<open>k\<close> is the
  callback's index \<open>i\<close> and \<open>items[i]\<close> is \<open>undefined\<close> past the end of \<open>items\<close>.
\<close>

fun inject_loop :: "int \<Rightarrow> 'a jsval list \<Rightarrow> nat \<Rightarrow> addr list \<Rightarrow> 'a heap \<Rightarrow> (unit, 'a heap) res" where
  "inject_loop index items k [] h = Ok () h"
| "inject_loop index items k (a # as) h =
     res_bind (at_addr a h (binding_insert index (js_index items (int k)) (h a)))
       (\<lambda>_ h'. inject_loop index items (Suc k) as h')"

definition inject_into_every :: "addr list \<Rightarrow> int \<Rightarrow> 'a jsval list \<Rightarrow> 'a heap \<Rightarrow> (unit, 'a heap) res" where
  "inject_into_every bs index items h = inject_loop index items 0 bs h"

text \<open>\<open>getFromEvery(index)\<close>, lines 358-360: reads only.\<close>

definition get_from_every :: "addr list \<Rightarrow> int \<Rightarrow> 'a heap \<Rightarrow> 'a jsval list" where
  "get_from_every bs index h = map (\<lambda>a. binding_get index (h a)) bs"

text \<open>\<open>extractFromEvery(index)\<close>, lines 361-363: \<open>this.bindings.map(b => b.remove(index))\<close>.\<close>

fun extract_from_every :: "addr list \<Rightarrow> int \<Rightarrow> 'a heap \<Rightarrow> ('a jsval list, 'a heap) res" where
  "extract_from_every [] index h = Ok [] h"
| "extract_from_every (a # as) index h =
     res_bind (at_addr a h (binding_remove index (h a)))
       (\<lambda>x h'. res_bind (extract_from_every as index h') (\<lambda>xs h''. Ok (x # xs) h''))"

text \<open>\<open>provided\<close>, lines 364-370: \<open>!!this.bindings.length\<close>.\<close>

definition provided :: "addr list \<Rightarrow> bool" where
  "provided bs = (length bs \<noteq> 0)"

subsection \<open>Closed forms\<close>

text \<open>
  The heap after the group operations, one update per distinct address: inserting
  \<open>x\<close> at position \<open>n\<close>, and deleting at position \<open>n\<close>.
\<close>

definition ins_target :: "nat \<Rightarrow> 'a jsval \<Rightarrow> 'a target \<Rightarrow> 'a target" where
  "ins_target n x t = with_items t (take n (target_items t) @ x # drop n (target_items t))"

definition del_target :: "nat \<Rightarrow> 'a target \<Rightarrow> 'a target" where
  "del_target n t = with_items t (take n (target_items t) @ drop (Suc n) (target_items t))"

lemma del_ins_target [simp]: "n \<le> target_len t \<Longrightarrow> del_target n (ins_target n x t) = t"
  by (simp add: del_target_def ins_target_def target_len_def)

lemma target_len_ins [simp]: "target_len (ins_target n x t) = Suc (target_len t)"
  by (simp add: ins_target_def target_len_def)

lemma ins_target_nth [simp]: "n \<le> target_len t \<Longrightarrow> target_items (ins_target n x t) ! n = x"
  by (simp add: ins_target_def target_len_def)

lemma wf_ins_target [simp]: "wf_target t \<Longrightarrow> x \<noteq> None \<Longrightarrow> wf_target (ins_target n x t)"
  by (cases t) (auto simp: ins_target_def dest: in_set_takeD in_set_dropD)

lemma at_addr_Ok [simp]: "at_addr a h (Ok v t) = Ok v (h(a := t))"
  by (simp add: at_addr_def)

text \<open>Lookup of a group's items by address (the items paired with the group).\<close>

lemma map_of_zip_distinct_map:
  "distinct bs \<Longrightarrow> length xs = length bs \<Longrightarrow> map (\<lambda>a. the (map_of (zip bs xs) a)) bs = xs"
proof (induction bs arbitrary: xs)
  case Nil
  then show ?case by simp
next
  case (Cons b bs)
  then obtain x xs' where xs: "xs = x # xs'" and len: "length xs' = length bs"
    by (cases xs) auto
  have "b \<notin> set bs" using Cons.prems(1) by simp
  then have "map (\<lambda>a. the (map_of (zip (b # bs) xs) a)) bs = map (\<lambda>a. the (map_of (zip bs xs') a)) bs"
    using xs by (intro map_cong) auto
  with Cons.IH Cons.prems(1) len xs show ?case by simp
qed

lemma inject_loop_ok:
  assumes "distinct bs" "0 \<le> i" "None \<notin> set items" "k + length bs \<le> length items"
    and "\<forall>a \<in> set bs. wf_target (h a) \<and> nat i \<le> target_len (h a)"
  shows "inject_loop i items k bs h =
           Ok () (\<lambda>a. case map_of (zip bs (drop k items)) a of
                         None \<Rightarrow> h a | Some x \<Rightarrow> ins_target (nat i) x (h a))"
  using assms
proof (induction bs arbitrary: k h)
  case Nil
  then show ?case by simp
next
  case (Cons b bs)
  have k: "k < length items" using Cons.prems(4) by simp
  then have x: "items ! k \<noteq> None" using Cons.prems(3) nth_mem by metis
  have drop: "drop k items = items ! k # drop (Suc k) items"
    using k by (simp add: Cons_nth_drop_Suc)
  let ?h1 = "h(b := ins_target (nat i) (items ! k) (h b))"
  have step: "binding_insert i (js_index items (int k)) (h b) = Ok () (ins_target (nat i) (items ! k) (h b))"
    using Cons.prems(2,5) k x by (simp add: ins_target_def)
  have "inject_loop i items (Suc k) bs ?h1 =
          Ok () (\<lambda>a. case map_of (zip bs (drop (Suc k) items)) a of
                        None \<Rightarrow> ?h1 a | Some x \<Rightarrow> ins_target (nat i) x (?h1 a))"
    using Cons.prems by (intro Cons.IH) auto
  moreover have "b \<notin> set bs" using Cons.prems(1) by simp
  ultimately show ?case
    using step drop
    by (auto intro!: ext split: option.splits dest: map_of_SomeD set_zip_leftD)
qed

lemma extract_from_every_ok:
  assumes "distinct bs" "0 \<le> i"
    and "\<forall>a \<in> set bs. wf_target (h a) \<and> nat i < target_len (h a)"
  shows "extract_from_every bs i h =
           Ok (map (\<lambda>a. target_items (h a) ! nat i) bs)
              (\<lambda>a. if a \<in> set bs then del_target (nat i) (h a) else h a)"
  using assms
proof (induction bs arbitrary: h)
  case Nil
  then show ?case by simp
next
  case (Cons b bs)
  let ?h1 = "h(b := del_target (nat i) (h b))"
  have step: "binding_remove i (h b) = Ok (target_items (h b) ! nat i) (del_target (nat i) (h b))"
    using Cons.prems by (simp add: del_target_def)
  have "extract_from_every bs i ?h1 =
          Ok (map (\<lambda>a. target_items (?h1 a) ! nat i) bs)
             (\<lambda>a. if a \<in> set bs then del_target (nat i) (?h1 a) else ?h1 a)"
    using Cons.prems by (intro Cons.IH) auto
  moreover have "b \<notin> set bs" using Cons.prems(1) by simp
  ultimately show ?case
    using step by (auto intro!: ext cong: map_cong)
qed

lemma map_of_zip_in_set:
  "a \<in> set bs \<Longrightarrow> length xs = length bs \<Longrightarrow> \<exists>x. map_of (zip bs xs) a = Some x \<and> x \<in> set xs"
  by (metis map_of_SomeD map_of_zip_is_Some set_zip_rightD)

lemma inject_into_every_ok:
  assumes "distinct bs" "0 \<le> i" "None \<notin> set items" "length items = length bs"
    and "\<forall>a \<in> set bs. wf_target (h a) \<and> nat i \<le> target_len (h a)"
  shows "inject_into_every bs i items h =
           Ok () (\<lambda>a. case map_of (zip bs items) a of
                         None \<Rightarrow> h a | Some x \<Rightarrow> ins_target (nat i) x (h a))"
  using inject_loop_ok [of bs i items 0 h] assms by (simp add: inject_into_every_def)

subsection \<open>Group properties\<close>

text \<open>
  C3: injecting one item into every collection of a group of distinct, well-formed
  collections at a position within all of them succeeds; afterwards
  \<open>getFromEvery\<close> at that position reads the items back, and
  \<open>extractFromEvery\<close> returns exactly the injected items, in group order, and restores
  every collection.
\<close>

theorem inject_extract_roundtrip:
  assumes "distinct bs" "0 \<le> i" "None \<notin> set items" "length items = length bs"
    and "\<forall>a \<in> set bs. wf_target (h a) \<and> nat i \<le> target_len (h a)"
  shows "\<exists>h'. inject_into_every bs i items h = Ok () h' \<and>
              get_from_every bs i h' = items \<and>
              extract_from_every bs i h' = Ok items h"
proof -
  define h' where "h' = (\<lambda>a. case map_of (zip bs items) a of
                                None \<Rightarrow> h a | Some x \<Rightarrow> ins_target (nat i) x (h a))"
  have inj: "inject_into_every bs i items h = Ok () h'"
    using inject_into_every_ok [OF assms] by (simp add: h'_def)
  have at: "\<And>a. a \<in> set bs \<Longrightarrow>
      h' a = ins_target (nat i) (the (map_of (zip bs items) a)) (h a) \<and>
      the (map_of (zip bs items) a) \<in> set items"
    using map_of_zip_in_set assms(4) by (fastforce simp: h'_def)
  have nth: "\<And>a. a \<in> set bs \<Longrightarrow> target_items (h' a) ! nat i = the (map_of (zip bs items) a)"
    using at assms(5) by simp
  have wf': "\<forall>a \<in> set bs. wf_target (h' a) \<and> nat i < target_len (h' a)"
    using at assms(3,5) by (metis wf_ins_target target_len_ins less_Suc_eq_le)
  have items: "map (\<lambda>a. target_items (h' a) ! nat i) bs = items"
    using nth map_of_zip_distinct_map [OF assms(1,4)] by (simp cong: map_cong)
  have get: "get_from_every bs i h' = items"
    using items wf' assms(2)
    by (simp add: get_from_every_def binding_get_eq js_index_in_range target_len_def cong: map_cong)
  have heap: "(\<lambda>a. if a \<in> set bs then del_target (nat i) (h' a) else h' a) = h"
    using at assms(5) by (auto intro!: ext simp: h'_def split: option.splits)
  show ?thesis
    using inj get extract_from_every_ok [OF assms(1,2) wf'] items heap by simp
qed

theorem inject_extract_roundtrip_witness:
  "\<exists>h'. inject_into_every [0, 1] 1 [Some (5::nat), Some 6]
            ((\<lambda>_. JsArray [Some 1])(1 := FormArray [Some 2, Some 3])) = Ok () h' \<and>
        get_from_every [0, 1] 1 h' = [Some 5, Some 6] \<and>
        extract_from_every [0, 1] 1 h' =
          Ok [Some 5, Some 6] ((\<lambda>_. JsArray [Some 1])(1 := FormArray [Some 2, Some 3]))"
  by (rule inject_extract_roundtrip) (auto simp: target_len_def)

lemma ins_remove_target:
  assumes "wf_target t" "0 \<le> i" "nat i \<le> target_len t" "x \<noteq> None"
  shows "binding_insert i x t = Ok () (ins_target (nat i) x t)"
    and "binding_remove i (ins_target (nat i) x t) = Ok x t"
proof -
  show "binding_insert i x t = Ok () (ins_target (nat i) x t)"
    using assms by (simp add: ins_target_def)
  have "binding_remove i (ins_target (nat i) x t) =
          Ok (target_items (ins_target (nat i) x t) ! nat i) (del_target (nat i) (ins_target (nat i) x t))"
    using assms by (simp add: del_target_def)
  then show "binding_remove i (ins_target (nat i) x t) = Ok x t"
    using assms(3) by simp
qed

text \<open>
  C4: the round trip needs the group's collections to be distinct. When one collection
  is bound twice, \<open>injectIntoEvery(i, [x, y])\<close> inserts both items into it, \<open>y\<close>
  in front of \<open>x\<close>, and \<open>extractFromEvery(i)\<close> hands them back as \<open>[y, x]\<close>,
  restoring the heap: the items come back reversed.
\<close>

theorem aliased_group_reverses_items:
  assumes "0 \<le> i" "wf_target (h a)" "nat i \<le> target_len (h a)" "x \<noteq> None" "y \<noteq> None"
  shows "res_bind (inject_into_every [a, a] i [x, y] h) (\<lambda>_ h'. extract_from_every [a, a] i h') =
         Ok [y, x] h"
proof -
  let ?t1 = "ins_target (nat i) x (h a)"
  have wf1: "wf_target ?t1" "nat i \<le> target_len ?t1" using assms by simp_all
  note one = ins_remove_target [OF assms(2,1,3,4)]
  note two = ins_remove_target [OF wf1(1) assms(1) wf1(2) assms(5)]
  show ?thesis
    by (simp add: inject_into_every_def js_index_def one two fun_upd_idem)
qed

theorem aliased_group_reverses_items_witness:
  "res_bind (inject_into_every [0, 0] 1 [Some (5::nat), Some 6] (\<lambda>_. FormArray [Some 1]))
            (\<lambda>_ h'. extract_from_every [0, 0] 1 h') =
   Ok [Some 6, Some 5] (\<lambda>_. FormArray [Some 1])"
  by (rule aliased_group_reverses_items) (simp_all add: wf_target_iff target_len_def)

text \<open>
  C5: \<open>injectIntoEvery\<close> does not check that it got one item per collection. With
  fewer items than plain arrays, the arrays past the end of \<open>items\<close> receive
  \<open>undefined\<close> silently; with a FormArray there, Angular throws after splicing
  \<open>undefined\<close> into its controls.
\<close>

theorem inject_short_items:
  assumes "a \<noteq> b" "0 \<le> i" "h a = JsArray xs" "nat i \<le> length xs" "nat i \<le> target_len (h b)"
    and "wf_target (h b)"
  shows "inject_into_every [a, b] i [x] h =
           (if is_form_array (h b) then Exn UndefinedControl (h(a := JsArray (take (nat i) xs @ x # drop (nat i) xs),
                                                              b := ins_target (nat i) None (h b)))
            else Ok () (h(a := JsArray (take (nat i) xs @ x # drop (nat i) xs),
                          b := ins_target (nat i) None (h b))))"
  using assms
  by (auto simp: inject_into_every_def binding_insert_eq js_rel_start_nonneg target_len_def
      min_def ins_target_def at_addr_def Let_def js_index_def)

theorem inject_short_items_witness:
  "inject_into_every [0, 1] 0 [Some (7::nat)] ((\<lambda>_. JsArray [])(1 := JsArray [Some 1])) =
     Ok () ((\<lambda>_. JsArray [])(0 := JsArray [Some 7], 1 := JsArray [None, Some 1])) \<and>
   inject_into_every [0, 1] 0 [Some (7::nat)] ((\<lambda>_. JsArray [])(1 := FormArray [Some 1])) =
     Exn UndefinedControl ((\<lambda>_. JsArray [])(0 := JsArray [Some 7], 1 := FormArray [None, Some 1]))"
proof -
  have "inject_into_every [0, 1] 0 [Some (7::nat)] ((\<lambda>_. JsArray [])(1 := JsArray [Some 1])) =
     (if is_form_array (JsArray [Some (1::nat)]) then Exn UndefinedControl
        (((\<lambda>_. JsArray [])(1 := JsArray [Some 1]))(0 := JsArray [Some 7], 1 := ins_target 0 None (JsArray [Some 1])))
      else Ok () (((\<lambda>_. JsArray [])(1 := JsArray [Some 1]))(0 := JsArray [Some 7], 1 := ins_target 0 None (JsArray [Some 1]))))"
    using inject_short_items [of 0 1 0 "(\<lambda>_. JsArray [])(1 := JsArray [Some (1::nat)])" "[]" "Some 7"]
    by (simp add: target_len_def)
  moreover have "inject_into_every [0, 1] 0 [Some (7::nat)] ((\<lambda>_. JsArray [])(1 := FormArray [Some 1])) =
     (if is_form_array (FormArray [Some (1::nat)]) then Exn UndefinedControl
        (((\<lambda>_. JsArray [])(1 := FormArray [Some 1]))(0 := JsArray [Some 7], 1 := ins_target 0 None (FormArray [Some 1])))
      else Ok () (((\<lambda>_. JsArray [])(1 := FormArray [Some 1]))(0 := JsArray [Some 7], 1 := ins_target 0 None (FormArray [Some 1]))))"
    using inject_short_items [of 0 1 0 "(\<lambda>_. JsArray [])(1 := FormArray [Some (1::nat)])" "[]" "Some 7"]
    by (simp add: target_len_def)
  ultimately show ?thesis by (simp add: ins_target_def fun_upd_twist)
qed

end
