(* ===== verification/Dom.thy ===== *)
theory Dom
  imports Prelude
begin

text \<open>
  The part of the DOM and of Angular's \<open>Renderer2\<close> that the directive touches when it
  repairs the DOM after a clone drag (src/esm2015/lib/sortablejs.directive.js, lines
  121-123). Neither is code of this repository: \<open>Node.removeChild\<close> and
  \<open>Node.insertBefore\<close> follow the DOM standard, and \<open>DefaultDomRenderer2\<close> forwards to
  them only when the parent it is given is not null. A DOM is the children list of every
  node together with the parent of every node.
\<close>

record dom =
  dom_children :: "node \<Rightarrow> node list"
  dom_parent :: "node \<rightharpoonup> node"

text \<open>\<open>parent.removeChild(child)\<close>: a NotFoundError unless \<open>child\<close> is a child of \<open>parent\<close>.\<close>

definition dom_remove_child :: "node \<Rightarrow> node \<Rightarrow> dom \<Rightarrow> (unit, dom) res" where
  "dom_remove_child p c d =
     (if dom_parent d c = Some p
      then Ok () (d\<lparr>dom_children := (dom_children d)(p := removeAll c (dom_children d p)),
                    dom_parent := (dom_parent d)(c := None)\<rparr>)
      else Exn DomNotFound d)"

text \<open>
  \<open>parent.insertBefore(node, ref)\<close>: a NotFoundError unless \<open>ref\<close> is a child of
  \<open>parent\<close>; otherwise \<open>node\<close> is first taken out of its current parent and then put
  right before \<open>ref\<close>.
\<close>

definition dom_insert_before :: "node \<Rightarrow> node \<Rightarrow> node \<Rightarrow> dom \<Rightarrow> (unit, dom) res" where
  "dom_insert_before p n r d =
     (if dom_parent d r \<noteq> Some p then Exn DomNotFound d
      else
        (let ch = (case dom_parent d n of
                     None \<Rightarrow> dom_children d
                   | Some q \<Rightarrow> (dom_children d)(q := removeAll n (dom_children d q)));
             cs = ch p
         in Ok () (d\<lparr>dom_children := ch(p := takeWhile (\<lambda>x. x \<noteq> r) cs @ n # dropWhile (\<lambda>x. x \<noteq> r) cs),
                     dom_parent := (dom_parent d)(n \<mapsto> p)\<rparr>)))"

text \<open>\<open>Renderer2.removeChild(parent, child)\<close> and \<open>insertBefore(parent, node, ref)\<close>.\<close>

definition renderer_remove_child :: "node option \<Rightarrow> node \<Rightarrow> dom \<Rightarrow> (unit, dom) res" where
  "renderer_remove_child p c d = (case p of None \<Rightarrow> Ok () d | Some q \<Rightarrow> dom_remove_child q c d)"

definition renderer_insert_before :: "node option \<Rightarrow> node \<Rightarrow> node \<Rightarrow> dom \<Rightarrow> (unit, dom) res" where
  "renderer_insert_before p n r d = (case p of None \<Rightarrow> Ok () d | Some q \<Rightarrow> dom_insert_before q n r d)"

subsection \<open>Well-formed DOM\<close>

text \<open>Parent links and children lists agree, and no node is listed twice.\<close>

definition wf_dom :: "dom \<Rightarrow> bool" where
  "wf_dom d \<longleftrightarrow>
     (\<forall>n p. dom_parent d n = Some p \<longleftrightarrow> n \<in> set (dom_children d p)) \<and>
     (\<forall>p. distinct (dom_children d p))"

end
