(* ===== verification/Events.thy ===== *)
theory Events
  imports Prelude
begin

text \<open>
  The Sortable event the handlers receive (the \<open>SortableEvent\<close> interface of
  src/esm2015/lib/sortablejs.directive.js) and the index translation
  \<open>getIndexesFromEvent\<close> (lines 6-19). \<open>oldIndex\<close>/\<open>newIndex\<close> count every
  element child of the container; \<open>oldDraggableIndex\<close>/\<open>newDraggableIndex\<close>, which an
  event may lack (\<open>None\<close>: no own property of that name), count the draggable ones.
  \<open>item\<close> is the dragged node and \<open>clone\<close> the clone Sortable leaves in the source.
\<close>

record sortable_event =
  ev_oldIndex :: int
  ev_newIndex :: int
  ev_oldDraggableIndex :: "int option"
  ev_newDraggableIndex :: "int option"
  ev_item :: node
  ev_clone :: node

record index_pair =
  ix_new :: int
  ix_old :: int

definition get_indexes_from_event :: "sortable_event \<Rightarrow> index_pair" where
  "get_indexes_from_event e =
     (case (ev_newDraggableIndex e, ev_oldDraggableIndex e) of
        (Some nd, Some od) \<Rightarrow> \<lparr>ix_new = nd, ix_old = od\<rparr>
      | _ \<Rightarrow> \<lparr>ix_new = ev_newIndex e, ix_old = ev_oldIndex e\<rparr>)"

end
