(* ===== verification/Directive.thy ===== *)
theory Directive
  imports Bindings Dom Events
begin

text \<open>
  \<open>SortablejsDirective\<close> (src/esm2015/lib/sortablejs.directive.js) and the shared
  \<open>SortablejsService\<close>. Several directive instances share one service, whose only
  field \<open>transfer\<close> is a function slot: \<open>onAdd\<close> of the list an item is dropped into
  stores a closure over that directive and the event, and \<open>onRemove\<close> of the list
  the item left calls it with the item's data. The closure is defunctionalised as
  \<open>Pending d ev\<close>; \<open>None\<close> is \<open>null\<close>/\<open>undefined\<close>.

  The system state holds the heap of bound collections, the DOM, every directive
  instance (by id), the transfer slot and the list of application callbacks invoked so
  far (\<open>proxyEvent\<close>), in order. Application callbacks are opaque: the model records
  each call and assumes it does not touch the state.
\<close>

subsection \<open>Inputs, options and the Sortable instance\<close>

text \<open>
  The \<open>sortablejs\<close> input: nothing (a falsy value), a \<open>SortablejsBindings\<close>
  instance holding a group of collections, or a single collection.
\<close>

datatype binding_input = NoBinding | GroupInput "addr list" | SingleTarget addr

text \<open>
  An option value: a function or an object (both compared by identity), or a primitive
  (compared by value). \<open>js_truthy\<close> is ECMAScript's ToBoolean on these values.
\<close>

datatype optval = JsFun nat | JsObj nat | JsNull | JsBool bool | JsNum int | JsStr string

primrec js_truthy :: "optval \<Rightarrow> bool" where
  "js_truthy (JsFun f) = True"
| "js_truthy (JsObj r) = True"
| "js_truthy JsNull = False"
| "js_truthy (JsBool b) = b"
| "js_truthy (JsNum n) = (n \<noteq> 0)"
| "js_truthy (JsStr str) = (str \<noteq> [])"

type_synonym options = "string \<rightharpoonup> optval"

text \<open>What \<open>group.checkPull(instance, instance)\<close> of the Sortable instance returns.\<close>

datatype pull_result = PullTrue | PullFalse | PullClone

text \<open>
  A value in the options of a Sortable instance: an application value, or one of the
  directive's intercepting handlers \<open>onAdd\<close>, \<open>onRemove\<close>, \<open>onUpdate\<close>
  (\<open>overridenOptions\<close>).
\<close>

datatype sortable_opt = UserOpt optval | Intercept string

record sortable_instance =
  si_check_pull :: pull_result
  si_options :: "string \<rightharpoonup> sortable_opt"
  si_alive :: bool

record 'a directive =
  d_sortablejs :: binding_input
  d_options :: "options option"
  d_global :: "options option"
  d_clone_fn :: "('a jsval \<Rightarrow> 'a jsval) option"
  d_instance :: "sortable_instance option"

datatype pending = Pending dir_id sortable_event

record 'a sys =
  s_heap :: "'a heap"
  s_dom :: dom
  s_dirs :: "dir_id \<Rightarrow> 'a directive"
  s_transfer :: "pending option"
  s_calls :: "(dir_id \<times> string \<times> sortable_event) list"

subsection \<open>Helpers of the directive\<close>

text \<open>\<open>getBindings()\<close>, lines 66-76: the addresses of the bound collections.\<close>

definition get_bindings :: "'a directive \<Rightarrow> addr list" where
  "get_bindings d =
     (case d_sortablejs d of
        NoBinding \<Rightarrow> []
      | GroupInput bs \<Rightarrow> bs
      | SingleTarget a \<Rightarrow> [a])"

text \<open>\<open>optionsWithoutEvents\<close>, lines 80-82: global options overridden by the instance's.\<close>

definition options_without_events :: "'a directive \<Rightarrow> options" where
  "options_without_events d =
     (case d_global d of None \<Rightarrow> Map.empty | Some g \<Rightarrow> g) ++
     (case d_options d of None \<Rightarrow> Map.empty | Some u \<Rightarrow> u)"

text \<open>
  \<open>proxyEvent(eventName, event)\<close>, lines 83-89: the application's handler of that name
  is called when the option is truthy; a truthy non-function throws.
\<close>

definition proxy_event :: "dir_id \<Rightarrow> string \<Rightarrow> sortable_event \<Rightarrow> 'a sys \<Rightarrow> (unit, 'a sys) res" where
  "proxy_event d name ev s =
     (case options_without_events (s_dirs s d) name of
        Some (JsFun f) \<Rightarrow> Ok () (s\<lparr>s_calls := s_calls s @ [(d, name, ev)]\<rparr>)
      | Some v \<Rightarrow> if js_truthy v then Exn NotAFunction s else Ok () s
      | None \<Rightarrow> Ok () s)"

text \<open>\<open>isCloning\<close>, lines 90-92; reading \<open>options\<close> of an absent instance throws.\<close>

definition is_cloning :: "'a directive \<Rightarrow> 'a sys \<Rightarrow> (bool, 'a sys) res" where
  "is_cloning d s =
     (case d_instance d of
        None \<Rightarrow> Exn NoSortableInstance s
      | Some i \<Rightarrow> Ok (si_check_pull i = PullClone) s)"

text \<open>\<open>clone(item)\<close>, lines 93-96: the application's clone function, or the identity.\<close>

definition clone_item :: "'a directive \<Rightarrow> 'a jsval \<Rightarrow> 'a jsval" where
  "clone_item d x = (case d_clone_fn d of None \<Rightarrow> x | Some f \<Rightarrow> f x)"

text \<open>Running a heap computation on the system state.\<close>

definition on_heap :: "'a sys \<Rightarrow> ('v, 'a heap) res \<Rightarrow> ('v, 'a sys) res" where
  "on_heap s r = res_map_state (\<lambda>h. s\<lparr>s_heap := h\<rparr>) r"

definition on_dom :: "'a sys \<Rightarrow> ('v, dom) res \<Rightarrow> ('v, 'a sys) res" where
  "on_dom s r = res_map_state (\<lambda>d. s\<lparr>s_dom := d\<rparr>) r"

subsection \<open>The event handlers (\<open>overridenOptions\<close>, lines 97-139)\<close>

text \<open>
  Calling the value read from \<open>service.transfer\<close> with \<open>items\<close>: the closure stored by
  \<open>onAdd\<close> (lines 102-105) injects the items into its own directive's collections at the
  event's \<open>newIndex\<close> (its bindings are looked up at call time) and then proxies
  \<open>onAdd\<close>; calling \<open>null\<close> is a TypeError.
\<close>

definition call_transfer :: "pending option \<Rightarrow> 'a jsval list \<Rightarrow> 'a sys \<Rightarrow> (unit, 'a sys) res" where
  "call_transfer v items s =
     (case v of
        None \<Rightarrow> Exn NotAFunction s
      | Some (Pending d ev) \<Rightarrow>
          res_bind (on_heap s (inject_into_every (get_bindings (s_dirs s d)) (ev_newIndex ev) items (s_heap s)))
            (\<lambda>_ s'. proxy_event d ''onAdd'' ev s'))"

text \<open>\<open>onAdd\<close>, lines 101-107.\<close>

definition on_add :: "dir_id \<Rightarrow> sortable_event \<Rightarrow> 'a sys \<Rightarrow> (unit, 'a sys) res" where
  "on_add d ev s = proxy_event d ''onAddOriginal'' ev (s\<lparr>s_transfer := Some (Pending d ev)\<rparr>)"

text \<open>
  The DOM repair of a clone drag, lines 121-123: the original node is taken out of the
  target list, put in place of the clone in the source list, and the clone is removed.
\<close>

definition restore_clone_dom :: "sortable_event \<Rightarrow> dom \<Rightarrow> (unit, dom) res" where
  "restore_clone_dom ev d =
     res_bind (renderer_remove_child (dom_parent d (ev_item ev)) (ev_item ev) d)
       (\<lambda>_ d1. res_bind (renderer_insert_before (dom_parent d1 (ev_clone ev)) (ev_item ev) (ev_clone ev) d1)
          (\<lambda>_ d2. renderer_remove_child (dom_parent d2 (ev_clone ev)) (ev_clone ev) d2))"

text \<open>
  \<open>onRemove\<close>, lines 108-131. The callee \<open>service.transfer\<close> is read before the
  argument is evaluated (ECMAScript evaluates a call's callee first), so in the moving
  branch the items are extracted even when the slot is empty and the call then throws.
  The slot is cleared only when the transfer returned normally.
\<close>

definition on_remove :: "dir_id \<Rightarrow> sortable_event \<Rightarrow> 'a sys \<Rightarrow> (unit, 'a sys) res" where
  "on_remove d ev s =
     (let bs = get_bindings (s_dirs s d)
      in res_bind
           (if provided bs then
              res_bind (is_cloning (s_dirs s d) s)
                (\<lambda>cloning s1.
                   if cloning then
                     (let v = s_transfer s1;
                          items = map (clone_item (s_dirs s1 d)) (get_from_every bs (ev_oldIndex ev) (s_heap s1))
                      in res_bind (call_transfer v items s1)
                           (\<lambda>_ s2. res_bind (on_dom s2 (restore_clone_dom ev (s_dom s2)))
                              (\<lambda>_ s3. Ok () (s3\<lparr>s_transfer := None\<rparr>))))
                   else
                     (let v = s_transfer s1
                      in res_bind (on_heap s1 (extract_from_every bs (ev_oldIndex ev) (s_heap s1)))
                           (\<lambda>items s2. res_bind (call_transfer v items s2)
                              (\<lambda>_ s3. Ok () (s3\<lparr>s_transfer := None\<rparr>)))))
            else Ok () s)
           (\<lambda>_ s'. proxy_event d ''onRemove'' ev s'))"

text \<open>\<open>onUpdate\<close>, lines 132-137: a move inside one list, at the translated indices.\<close>

definition on_update :: "dir_id \<Rightarrow> sortable_event \<Rightarrow> 'a sys \<Rightarrow> (unit, 'a sys) res" where
  "on_update d ev s =
     (let bs = get_bindings (s_dirs s d); ix = get_indexes_from_event ev
      in res_bind (on_heap s (extract_from_every bs (ix_old ix) (s_heap s)))
           (\<lambda>items s1. res_bind (on_heap s1 (inject_into_every bs (ix_new ix) items (s_heap s1)))
              (\<lambda>_ s2. proxy_event d ''onUpdate'' ev s2)))"

subsection \<open>Frame lemmas\<close>

text \<open>
  \<open>proxyEvent\<close> throws only for a truthy non-function option; otherwise it changes
  nothing but the record of application callbacks.
\<close>

definition proxy_ok :: "'a sys \<Rightarrow> dir_id \<Rightarrow> string \<Rightarrow> bool" where
  "proxy_ok s d name \<longleftrightarrow>
     (case options_without_events (s_dirs s d) name of Some (JsFun f) \<Rightarrow> True | Some v \<Rightarrow> \<not> js_truthy v | None \<Rightarrow> True)"

definition called :: "'a sys \<Rightarrow> dir_id \<Rightarrow> string \<Rightarrow> sortable_event \<Rightarrow> (dir_id \<times> string \<times> sortable_event) list" where
  "called s d name ev =
     (case options_without_events (s_dirs s d) name of Some (JsFun f) \<Rightarrow> [(d, name, ev)] | _ \<Rightarrow> [])"

lemma proxy_event_ok [simp]:
  "proxy_ok s d name \<Longrightarrow> proxy_event d name ev s = Ok () (s\<lparr>s_calls := s_calls s @ called s d name ev\<rparr>)"
  by (auto simp: proxy_event_def proxy_ok_def called_def split: option.splits optval.splits)

lemma proxy_event_eq:
  "proxy_event d name ev s =
     (if proxy_ok s d name then Ok () (s\<lparr>s_calls := s_calls s @ called s d name ev\<rparr>) else Exn NotAFunction s)"
  by (auto simp: proxy_event_def proxy_ok_def called_def split: option.splits optval.splits)

lemma proxy_ok_cong [simp]:
  "proxy_ok (s\<lparr>s_heap := h\<rparr>) = proxy_ok s" "proxy_ok (s\<lparr>s_transfer := v\<rparr>) = proxy_ok s"
  "proxy_ok (s\<lparr>s_dom := dm\<rparr>) = proxy_ok s" "proxy_ok (s\<lparr>s_calls := c\<rparr>) = proxy_ok s"
  by (simp_all add: proxy_ok_def fun_eq_iff)

lemma called_cong [simp]:
  "called (s\<lparr>s_heap := h\<rparr>) = called s" "called (s\<lparr>s_transfer := v\<rparr>) = called s"
  "called (s\<lparr>s_dom := dm\<rparr>) = called s" "called (s\<lparr>s_calls := c\<rparr>) = called s"
  by (simp_all add: called_def fun_eq_iff)

lemma on_heap_Ok [simp]: "on_heap s (Ok v h) = Ok v (s\<lparr>s_heap := h\<rparr>)"
  by (simp add: on_heap_def)

lemma on_heap_Exn [simp]: "on_heap s (Exn e h) = Exn e (s\<lparr>s_heap := h\<rparr>)"
  by (simp add: on_heap_def)

lemma on_dom_Ok [simp]: "on_dom s (Ok v d) = Ok v (s\<lparr>s_dom := d\<rparr>)"
  by (simp add: on_dom_def)

text \<open>A collection with no \<open>undefined\<close> entry, at least \<open>n\<close> long.\<close>

definition defined_target :: "'a target \<Rightarrow> nat \<Rightarrow> bool" where
  "defined_target t n \<longleftrightarrow> None \<notin> set (target_items t) \<and> n < target_len t"

lemma defined_target_wf: "defined_target t n \<Longrightarrow> wf_target t"
  by (cases t) (simp_all add: defined_target_def)

lemma del_target_len [simp]: "n < target_len t \<Longrightarrow> target_len (del_target n t) = target_len t - 1"
  by (simp add: del_target_def target_len_def)

lemma del_target_defined:
  "defined_target t n \<Longrightarrow> None \<notin> set (target_items (del_target n t)) \<and> wf_target (del_target n t)"
  using set_take_drop_subset [of n "target_items t"]
  by (cases t) (auto simp: defined_target_def del_target_def)

lemma ins_del_move:
  "n < target_len t \<Longrightarrow>
   ins_target m (target_items t ! n) (del_target n t) = with_items t (move_item n m (target_items t))"
  by (simp add: ins_target_def del_target_def move_item_def Let_def)

lemma map_of_zip_map_in: "a \<in> set bs \<Longrightarrow> map_of (zip bs (map f bs)) a = Some (f a)"
  by (simp add: map_of_zip_map)

subsection \<open>Reordering inside one list\<close>

lemma on_update_closed:
  assumes bs: "bs = get_bindings (s_dirs s d)" and "distinct bs"
    and ix: "get_indexes_from_event ev = ix" and "0 \<le> ix_old ix" "0 \<le> ix_new ix"
    and defd: "\<forall>a \<in> set bs. defined_target (s_heap s a) (nat (ix_old ix)) \<and>
                             nat (ix_new ix) < target_len (s_heap s a)"
    and "proxy_ok s d ''onUpdate''"
  shows "on_update d ev s =
           Ok () (s\<lparr>s_heap := \<lambda>a. if a \<in> set bs
                                    then with_items (s_heap s a)
                                           (move_item (nat (ix_old ix)) (nat (ix_new ix)) (target_items (s_heap s a)))
                                    else s_heap s a,
                    s_calls := s_calls s @ called s d ''onUpdate'' ev\<rparr>)"
proof -
  let ?o = "nat (ix_old ix)" and ?n = "nat (ix_new ix)" and ?h = "s_heap s"
  let ?items = "map (\<lambda>a. target_items (?h a) ! ?o) bs"
  let ?h1 = "\<lambda>a. if a \<in> set bs then del_target ?o (?h a) else ?h a"
  have wf: "\<forall>a \<in> set bs. wf_target (?h a) \<and> ?o < target_len (?h a)"
    using defd defined_target_wf by (fastforce simp: defined_target_def)
  have ext: "extract_from_every bs (ix_old ix) ?h = Ok ?items ?h1"
    using extract_from_every_ok [OF assms(2,4) wf] .
  have items: "None \<notin> set ?items"
    using defd by (auto simp: defined_target_def target_len_def) (metis nth_mem)
  have wf1: "\<forall>a \<in> set bs. wf_target (?h1 a) \<and> ?n \<le> target_len (?h1 a)"
    using defd del_target_defined by (fastforce simp: defined_target_def)
  have inj: "inject_into_every bs (ix_new ix) ?items ?h1 =
               Ok () (\<lambda>a. case map_of (zip bs ?items) a of
                         None \<Rightarrow> ?h1 a | Some x \<Rightarrow> ins_target ?n x (?h1 a))"
    using inject_into_every_ok [OF assms(2,5) items _ wf1] by simp
  have heap: "(\<lambda>a. case map_of (zip bs ?items) a of None \<Rightarrow> ?h1 a | Some x \<Rightarrow> ins_target ?n x (?h1 a)) =
              (\<lambda>a. if a \<in> set bs then with_items (?h a) (move_item ?o ?n (target_items (?h a))) else ?h a)"
    using defd by (auto intro!: ext simp: map_of_zip_map_in ins_del_move defined_target_def)
  show ?thesis
    using ext inj heap assms(7) by (simp add: on_update_def bs [symmetric] ix Let_def)
qed

text \<open>
  C6: \<open>onUpdate\<close> reorders every bound collection exactly as the drag reordered the
  list: when the group's collections are distinct and have no \<open>undefined\<close> entry and
  the translated indices lie within them, the element at the old index of each collection
  moves to the new index, nothing else changes, and the application's \<open>onUpdate\<close>
  callback is called once.
\<close>

theorem on_update_moves:
  assumes bs: "bs = get_bindings (s_dirs s d)" and "distinct bs"
    and ix: "get_indexes_from_event ev = ix" and "0 \<le> ix_old ix" "0 \<le> ix_new ix"
    and defd: "\<forall>a \<in> set bs. defined_target (s_heap s a) (nat (ix_old ix)) \<and>
                             nat (ix_new ix) < target_len (s_heap s a)"
    and "proxy_ok s d ''onUpdate''"
  shows "on_update d ev s =
           Ok () (s\<lparr>s_heap := \<lambda>a. if a \<in> set bs
                                    then with_items (s_heap s a)
                                           (move_item (nat (ix_old ix)) (nat (ix_new ix)) (target_items (s_heap s a)))
                                    else s_heap s a,
                    s_calls := s_calls s @ called s d ''onUpdate'' ev\<rparr>)"
  using assms by (rule on_update_closed)

theorem on_update_moves_witness:
  "on_update 0 \<lparr>ev_oldIndex = 0, ev_newIndex = 2, ev_oldDraggableIndex = None,
                 ev_newDraggableIndex = None, ev_item = 5, ev_clone = 6\<rparr>
     \<lparr>s_heap = (\<lambda>_. JsArray [])(1 := JsArray [Some CHR ''a'', Some CHR ''b'', Some CHR ''c'']),
      s_dom = \<lparr>dom_children = (\<lambda>_. []), dom_parent = Map.empty\<rparr>,
      s_dirs = (\<lambda>_. \<lparr>d_sortablejs = SingleTarget 1, d_options = None, d_global = None,
                      d_clone_fn = None, d_instance = None\<rparr>),
      s_transfer = None, s_calls = []\<rparr> =
   Ok () \<lparr>s_heap = (\<lambda>_. JsArray [])(1 := JsArray [Some CHR ''b'', Some CHR ''c'', Some CHR ''a'']),
      s_dom = \<lparr>dom_children = (\<lambda>_. []), dom_parent = Map.empty\<rparr>,
      s_dirs = (\<lambda>_. \<lparr>d_sortablejs = SingleTarget 1, d_options = None, d_global = None,
                      d_clone_fn = None, d_instance = None\<rparr>),
      s_transfer = None, s_calls = []\<rparr>"
  by (subst on_update_moves [where bs = "[1]" and ix = "\<lparr>ix_new = 2, ix_old = 0\<rparr>"])
     (auto simp: get_bindings_def get_indexes_from_event_def defined_target_def target_len_def
        proxy_ok_def options_without_events_def called_def move_item_def intro!: ext)

subsection \<open>Moving an item between two lists\<close>

lemma extract_single:
  "wf_target (h t) \<Longrightarrow> 0 \<le> i \<Longrightarrow> nat i < target_len (h t) \<Longrightarrow>
   extract_from_every [t] i h = Ok [target_items (h t) ! nat i] (h(t := del_target (nat i) (h t)))"
  by (simp add: del_target_def)

lemma inject_single:
  "wf_target (h t) \<Longrightarrow> 0 \<le> i \<Longrightarrow> nat i \<le> target_len (h t) \<Longrightarrow> x \<noteq> None \<Longrightarrow>
   inject_into_every [t] i [x] h = Ok () (h(t := ins_target (nat i) x (h t)))"
  by (simp add: inject_into_every_def ins_target_def)

lemma defined_target_nth: "defined_target t n \<Longrightarrow> target_items t ! n \<noteq> None"
  unfolding defined_target_def target_len_def by (metis nth_mem)

lemma add_then_remove_closed:
  assumes "get_bindings (s_dirs s a) = [ta]" "get_bindings (s_dirs s b) = [tb]" "ta \<noteq> tb"
    and "d_instance (s_dirs s a) = Some i" "si_check_pull i \<noteq> PullClone"
    and "0 \<le> ev_oldIndex ev" "0 \<le> ev_newIndex ev"
    and "defined_target (s_heap s ta) (nat (ev_oldIndex ev))"
    and "wf_target (s_heap s tb)" "nat (ev_newIndex ev) \<le> target_len (s_heap s tb)"
    and "proxy_ok s b ''onAddOriginal''" "proxy_ok s b ''onAdd''" "proxy_ok s a ''onRemove''"
  shows "res_bind (on_add b ev s) (\<lambda>_ s1. on_remove a ev s1) =
           Ok () (s\<lparr>s_heap := (s_heap s)
                      (ta := del_target (nat (ev_oldIndex ev)) (s_heap s ta),
                       tb := ins_target (nat (ev_newIndex ev))
                               (target_items (s_heap s ta) ! nat (ev_oldIndex ev)) (s_heap s tb)),
                    s_transfer := None,
                    s_calls := s_calls s @ called s b ''onAddOriginal'' ev @ called s b ''onAdd'' ev
                               @ called s a ''onRemove'' ev\<rparr>)"
proof -
  let ?h = "s_heap s" and ?x = "target_items (s_heap s ta) ! nat (ev_oldIndex ev)"
  have ext: "extract_from_every [ta] (ev_oldIndex ev) ?h =
               Ok [?x] (?h(ta := del_target (nat (ev_oldIndex ev)) (?h ta)))"
    using assms(6,8) by (intro extract_single) (simp_all add: defined_target_wf, simp add: defined_target_def)
  have inj: "inject_into_every [tb] (ev_newIndex ev) [?x] (?h(ta := del_target (nat (ev_oldIndex ev)) (?h ta))) =
               Ok () (?h(ta := del_target (nat (ev_oldIndex ev)) (?h ta),
                         tb := ins_target (nat (ev_newIndex ev)) ?x (?h tb)))"
    using assms(3,7,9,10) defined_target_nth [OF assms(8)] by (simp add: inject_single)
  show ?thesis
    using assms ext inj
    by (simp add: on_add_def on_remove_def is_cloning_def provided_def call_transfer_def Let_def)
qed

text \<open>
  C7: Sortable dispatches \<open>add\<close> on the target list before \<open>remove\<close> on the source
  list. In that order, a plain (non-clone) drag of the element at \<open>oldIndex\<close> of list
  \<open>a\<close> to \<open>newIndex\<close> of list \<open>b\<close> moves the element between the two bound
  collections: it is removed from \<open>a\<close>'s collection, inserted into \<open>b\<close>'s, the
  transfer slot ends empty, and the callbacks run in the order \<open>onAddOriginal\<close>,
  \<open>onAdd\<close> (of \<open>b\<close>), \<open>onRemove\<close> (of \<open>a\<close>).
\<close>

theorem cross_list_move:
  assumes "get_bindings (s_dirs s a) = [ta]" "get_bindings (s_dirs s b) = [tb]" "ta \<noteq> tb"
    and "d_instance (s_dirs s a) = Some i" "si_check_pull i \<noteq> PullClone"
    and "0 \<le> ev_oldIndex ev" "0 \<le> ev_newIndex ev"
    and "defined_target (s_heap s ta) (nat (ev_oldIndex ev))"
    and "wf_target (s_heap s tb)" "nat (ev_newIndex ev) \<le> target_len (s_heap s tb)"
    and "proxy_ok s b ''onAddOriginal''" "proxy_ok s b ''onAdd''" "proxy_ok s a ''onRemove''"
  shows "res_bind (on_add b ev s) (\<lambda>_ s1. on_remove a ev s1) =
           Ok () (s\<lparr>s_heap := (s_heap s)
                      (ta := del_target (nat (ev_oldIndex ev)) (s_heap s ta),
                       tb := ins_target (nat (ev_newIndex ev))
                               (target_items (s_heap s ta) ! nat (ev_oldIndex ev)) (s_heap s tb)),
                    s_transfer := None,
                    s_calls := s_calls s @ called s b ''onAddOriginal'' ev @ called s b ''onAdd'' ev
                               @ called s a ''onRemove'' ev\<rparr>)"
  using assms by (rule add_then_remove_closed)

theorem cross_list_move_witness:
  "res_bind (on_add 1 \<lparr>ev_oldIndex = 1, ev_newIndex = 0, ev_oldDraggableIndex = None,
                          ev_newDraggableIndex = None, ev_item = 5, ev_clone = 6\<rparr>
     \<lparr>s_heap = (\<lambda>_. JsArray [])(10 := JsArray [Some CHR ''x'', Some CHR ''y'', Some CHR ''z'']),
      s_dom = \<lparr>dom_children = (\<lambda>_. []), dom_parent = Map.empty\<rparr>,
      s_dirs = (\<lambda>n. \<lparr>d_sortablejs = SingleTarget (10 + n), d_options = None, d_global = None,
                      d_clone_fn = None,
                      d_instance = Some \<lparr>si_check_pull = PullTrue, si_options = Map.empty, si_alive = True\<rparr>\<rparr>),
      s_transfer = None, s_calls = []\<rparr>)
     (\<lambda>_ s1. on_remove 0 \<lparr>ev_oldIndex = 1, ev_newIndex = 0, ev_oldDraggableIndex = None,
                          ev_newDraggableIndex = None, ev_item = 5, ev_clone = 6\<rparr> s1) =
   Ok () \<lparr>s_heap = (\<lambda>_. JsArray [])(10 := JsArray [Some CHR ''x'', Some CHR ''z''],
                                       11 := JsArray [Some CHR ''y'']),
      s_dom = \<lparr>dom_children = (\<lambda>_. []), dom_parent = Map.empty\<rparr>,
      s_dirs = (\<lambda>n. \<lparr>d_sortablejs = SingleTarget (10 + n), d_options = None, d_global = None,
                      d_clone_fn = None,
                      d_instance = Some \<lparr>si_check_pull = PullTrue, si_options = Map.empty, si_alive = True\<rparr>\<rparr>),
      s_transfer = None, s_calls = []\<rparr>"
  by (subst cross_list_move [where ta = 10 and tb = 11])
     (auto simp: get_bindings_def defined_target_def target_len_def proxy_ok_def
        options_without_events_def called_def del_target_def ins_target_def intro!: ext)

text \<open>
  C8: the order matters. If the source list's \<open>remove\<close> ran before any \<open>add\<close> had
  filled the transfer slot (the order the spec's scenario describes), \<open>onRemove\<close>
  would extract the item from the source collection and then throw a TypeError calling
  the empty slot: the item is gone from the data model, no list receives it, the slot stays
  empty and the application's \<open>onRemove\<close> callback is not called.
\<close>

theorem remove_before_add_loses_item:
  assumes "get_bindings (s_dirs s a) = [ta]" "s_transfer s = None"
    and "d_instance (s_dirs s a) = Some i" "si_check_pull i \<noteq> PullClone"
    and "0 \<le> ev_oldIndex ev" "defined_target (s_heap s ta) (nat (ev_oldIndex ev))"
  shows "on_remove a ev s =
           Exn NotAFunction (s\<lparr>s_heap := (s_heap s)(ta := del_target (nat (ev_oldIndex ev)) (s_heap s ta))\<rparr>)"
proof -
  have "extract_from_every [ta] (ev_oldIndex ev) (s_heap s) =
          Ok [target_items (s_heap s ta) ! nat (ev_oldIndex ev)]
             ((s_heap s)(ta := del_target (nat (ev_oldIndex ev)) (s_heap s ta)))"
    using assms(5,6) by (intro extract_single) (simp_all add: defined_target_wf, simp add: defined_target_def)
  then show ?thesis
    using assms by (simp add: on_remove_def is_cloning_def provided_def call_transfer_def Let_def)
qed

theorem remove_before_add_loses_item_witness:
  "on_remove 0 \<lparr>ev_oldIndex = 1, ev_newIndex = 0, ev_oldDraggableIndex = None,
                 ev_newDraggableIndex = None, ev_item = 5, ev_clone = 6\<rparr>
     \<lparr>s_heap = (\<lambda>_. JsArray [])(10 := JsArray [Some CHR ''x'', Some CHR ''y'', Some CHR ''z'']),
      s_dom = \<lparr>dom_children = (\<lambda>_. []), dom_parent = Map.empty\<rparr>,
      s_dirs = (\<lambda>n. \<lparr>d_sortablejs = SingleTarget (10 + n), d_options = None, d_global = None,
                      d_clone_fn = None,
                      d_instance = Some \<lparr>si_check_pull = PullTrue, si_options = Map.empty, si_alive = True\<rparr>\<rparr>),
      s_transfer = None, s_calls = []\<rparr> =
   Exn NotAFunction \<lparr>s_heap = (\<lambda>_. JsArray [])(10 := JsArray [Some CHR ''x'', Some CHR ''z'']),
      s_dom = \<lparr>dom_children = (\<lambda>_. []), dom_parent = Map.empty\<rparr>,
      s_dirs = (\<lambda>n. \<lparr>d_sortablejs = SingleTarget (10 + n), d_options = None, d_global = None,
                      d_clone_fn = None,
                      d_instance = Some \<lparr>si_check_pull = PullTrue, si_options = Map.empty, si_alive = True\<rparr>\<rparr>),
      s_transfer = None, s_calls = []\<rparr>"
  by (subst remove_before_add_loses_item [where ta = 10 and i = "\<lparr>si_check_pull = PullTrue, si_options = Map.empty, si_alive = True\<rparr>"])
     (auto simp: get_bindings_def defined_target_def target_len_def del_target_def intro!: ext)

subsection \<open>The DOM repair of a clone drag\<close>

text \<open>
  C9: on a well-formed DOM where the dragged node sits in the target container and
  Sortable's clone sits in the source container, the repair of lines 121-123 never throws:
  the original node takes the clone's place in the source container, it leaves the target
  container, and the clone is detached; the rendering of the bound data then adds the new
  node to the target list.
\<close>

theorem restore_clone_dom_swaps:
  assumes wf: "wf_dom dm" and it: "dom_parent dm (ev_item ev) = Some pt"
    and cl: "dom_parent dm (ev_clone ev) = Some ps" and "pt \<noteq> ps" "ev_item ev \<noteq> ev_clone ev"
  shows "restore_clone_dom ev dm =
           Ok () (dm\<lparr>dom_children := (dom_children dm)
                       (pt := removeAll (ev_item ev) (dom_children dm pt),
                        ps := map (\<lambda>x. if x = ev_clone ev then ev_item ev else x) (dom_children dm ps)),
                     dom_parent := (dom_parent dm)(ev_item ev \<mapsto> ps, ev_clone ev := None)\<rparr>)"
proof -
  let ?i = "ev_item ev" and ?c = "ev_clone ev" and ?cs = "dom_children dm ps"
  have cs: "distinct ?cs" "?c \<in> set ?cs" "?i \<notin> set ?cs"
    using wf it cl assms(4) unfolding wf_dom_def by (metis option.inject)+
  have repl: "removeAll ?c (takeWhile (\<lambda>x. x \<noteq> ?c) ?cs @ ?i # dropWhile (\<lambda>x. x \<noteq> ?c) ?cs) =
              map (\<lambda>x. if x = ?c then ?i else x) ?cs"
    using replace_before_remove [OF cs] .
  show ?thesis
    using it cl assms(4,5) repl
    by (simp add: restore_clone_dom_def renderer_remove_child_def renderer_insert_before_def
        dom_remove_child_def dom_insert_before_def Let_def fun_upd_twist)
qed

theorem restore_clone_dom_swaps_witness:
  "restore_clone_dom \<lparr>ev_oldIndex = 1, ev_newIndex = 0, ev_oldDraggableIndex = None,
                        ev_newDraggableIndex = None, ev_item = 5, ev_clone = 6\<rparr>
     \<lparr>dom_children = (\<lambda>_. [])(1 := [4, 6, 7], 2 := [5]),
      dom_parent = [4 \<mapsto> 1, 6 \<mapsto> 1, 7 \<mapsto> 1, 5 \<mapsto> 2]\<rparr> =
   Ok () \<lparr>dom_children = (\<lambda>_. [])(1 := [4, 5, 7], 2 := []),
      dom_parent = [4 \<mapsto> 1, 6 \<mapsto> 1, 7 \<mapsto> 1, 5 \<mapsto> 1](6 := None)\<rparr>"
proof -
  have wf: "wf_dom \<lparr>dom_children = (\<lambda>_. [])(1 := [4, 6, 7], 2 := [5]),
                    dom_parent = [4 \<mapsto> 1, 6 \<mapsto> 1, 7 \<mapsto> 1, 5 \<mapsto> 2]\<rparr>"
    by (auto simp: wf_dom_def)
  show ?thesis
    by (subst restore_clone_dom_swaps [OF wf, where pt = 2 and ps = 1])
       (simp_all add: fun_upd_twist)
qed

subsection \<open>Clone drags\<close>

text \<open>
  C10: in clone mode (\<open>checkPull\<close> answers \<open>'clone'\<close>), the same \<open>add\<close>-then-
  \<open>remove\<close> dispatch only reads the source collection: it stays unchanged, the target
  collection receives the application's clone of the element (the element itself when no
  clone function is set) at \<open>newIndex\<close>, the DOM is repaired, and the slot ends empty.
\<close>

theorem cross_list_clone:
  assumes "get_bindings (s_dirs s a) = [ta]" "get_bindings (s_dirs s b) = [tb]" "ta \<noteq> tb"
    and "d_instance (s_dirs s a) = Some i" "si_check_pull i = PullClone"
    and "0 \<le> ev_oldIndex ev" "0 \<le> ev_newIndex ev"
    and "nat (ev_oldIndex ev) < target_len (s_heap s ta)"
    and "wf_target (s_heap s tb)" "nat (ev_newIndex ev) \<le> target_len (s_heap s tb)"
    and "clone_item (s_dirs s a) (target_items (s_heap s ta) ! nat (ev_oldIndex ev)) \<noteq> None"
    and "restore_clone_dom ev (s_dom s) = Ok () dm'"
    and "proxy_ok s b ''onAddOriginal''" "proxy_ok s b ''onAdd''" "proxy_ok s a ''onRemove''"
  shows "res_bind (on_add b ev s) (\<lambda>_ s1. on_remove a ev s1) =
           Ok () (s\<lparr>s_heap := (s_heap s)
                      (tb := ins_target (nat (ev_newIndex ev))
                               (clone_item (s_dirs s a) (target_items (s_heap s ta) ! nat (ev_oldIndex ev)))
                               (s_heap s tb)),
                    s_dom := dm', s_transfer := None,
                    s_calls := s_calls s @ called s b ''onAddOriginal'' ev @ called s b ''onAdd'' ev
                               @ called s a ''onRemove'' ev\<rparr>)"
proof -
  let ?x = "clone_item (s_dirs s a) (target_items (s_heap s ta) ! nat (ev_oldIndex ev))"
  have get: "get_from_every [ta] (ev_oldIndex ev) (s_heap s) = [target_items (s_heap s ta) ! nat (ev_oldIndex ev)]"
    using assms(6,8) by (simp add: get_from_every_def binding_get_eq js_index_in_range target_len_def)
  have inj: "inject_into_every [tb] (ev_newIndex ev) [?x] (s_heap s) =
               Ok () ((s_heap s)(tb := ins_target (nat (ev_newIndex ev)) ?x (s_heap s tb)))"
    using assms(7,9,10,11) by (simp add: inject_single)
  show ?thesis
    using assms get inj
    by (simp add: on_add_def on_remove_def is_cloning_def provided_def call_transfer_def Let_def)
qed

theorem cross_list_clone_witness:
  "res_bind (on_add 1 \<lparr>ev_oldIndex = 1, ev_newIndex = 0, ev_oldDraggableIndex = None,
                          ev_newDraggableIndex = None, ev_item = 5, ev_clone = 6\<rparr>
     \<lparr>s_heap = (\<lambda>_. JsArray [])(10 := JsArray [Some (1::nat), Some 2, Some 3]),
      s_dom = \<lparr>dom_children = (\<lambda>_. [])(1 := [4, 6, 7], 2 := [5]),
                dom_parent = [4 \<mapsto> 1, 6 \<mapsto> 1, 7 \<mapsto> 1, 5 \<mapsto> 2]\<rparr>,
      s_dirs = (\<lambda>n. \<lparr>d_sortablejs = SingleTarget (10 + n), d_options = None, d_global = None,
                      d_clone_fn = Some (map_option (\<lambda>v. v * 10)),
                      d_instance = Some \<lparr>si_check_pull = PullClone, si_options = Map.empty, si_alive = True\<rparr>\<rparr>),
      s_transfer = None, s_calls = []\<rparr>)
     (\<lambda>_ s1. on_remove 0 \<lparr>ev_oldIndex = 1, ev_newIndex = 0, ev_oldDraggableIndex = None,
                          ev_newDraggableIndex = None, ev_item = 5, ev_clone = 6\<rparr> s1) =
   Ok () \<lparr>s_heap = (\<lambda>_. JsArray [])(10 := JsArray [Some 1, Some 2, Some 3], 11 := JsArray [Some 20]),
      s_dom = \<lparr>dom_children = (\<lambda>_. [])(1 := [4, 5, 7], 2 := []),
                dom_parent = [4 \<mapsto> 1, 6 \<mapsto> 1, 7 \<mapsto> 1, 5 \<mapsto> 1](6 := None)\<rparr>,
      s_dirs = (\<lambda>n. \<lparr>d_sortablejs = SingleTarget (10 + n), d_options = None, d_global = None,
                      d_clone_fn = Some (map_option (\<lambda>v. v * 10)),
                      d_instance = Some \<lparr>si_check_pull = PullClone, si_options = Map.empty, si_alive = True\<rparr>\<rparr>),
      s_transfer = None, s_calls = []\<rparr>"
  by (subst cross_list_clone [where ta = 10 and tb = 11
        and dm' = "\<lparr>dom_children = (\<lambda>_. [])(1 := [4, 5, 7], 2 := []),
                    dom_parent = [4 \<mapsto> 1, 6 \<mapsto> 1, 7 \<mapsto> 1, 5 \<mapsto> 1](6 := None)\<rparr>"])
     (auto simp: get_bindings_def target_len_def proxy_ok_def options_without_events_def called_def
        ins_target_def clone_item_def restore_clone_dom_def renderer_remove_child_def
        renderer_insert_before_def dom_remove_child_def dom_insert_before_def fun_upd_twist intro!: ext)

end
