(* ===== verification/Gesture.thy ===== *)
theory Gesture
  imports Directive
begin

text \<open>
  What SortableJS does before it calls the directive's handlers, modelled from its
  documented behaviour (it is not code of this repository): it moves the dragged DOM node,
  and it reports \<open>oldIndex\<close>/\<open>newIndex\<close> counting every element child of the container
  and \<open>oldDraggableIndex\<close>/\<open>newDraggableIndex\<close> counting only the children matching its
  \<open>draggable\<close> selector (here the predicate \<open>dr\<close>). Children that do not match are
  fillers (a header, a placeholder) that the application renders outside the bound list.

  The correctness contract of the directive is that the bound data \<^emph>\<open>mirrors\<close> the
  DOM: the draggable children of a container, in order, render the items of its bound
  collection, related by a rendering relation \<open>R\<close> (node \<open>n\<close> shows item \<open>x\<close>).
  A gesture is correct when it keeps the mirror.
\<close>

definition draggable_index :: "(node \<Rightarrow> bool) \<Rightarrow> node list \<Rightarrow> nat \<Rightarrow> int" where
  "draggable_index dr cs i = int (length (filter dr (take i cs)))"

definition mirrors :: "(node \<Rightarrow> 'a jsval \<Rightarrow> bool) \<Rightarrow> (node \<Rightarrow> bool) \<Rightarrow> node list \<Rightarrow> 'a jsval list \<Rightarrow> bool" where
  "mirrors R dr cs xs \<longleftrightarrow> list_all2 R (filter dr cs) xs"

subsection \<open>A drag inside one list\<close>

text \<open>The node at child position \<open>i\<close> ends at child position \<open>j\<close>; then \<open>update\<close> fires.\<close>

definition update_event :: "(node \<Rightarrow> bool) \<Rightarrow> node list \<Rightarrow> nat \<Rightarrow> nat \<Rightarrow> sortable_event" where
  "update_event dr cs i j =
     \<lparr>ev_oldIndex = int i, ev_newIndex = int j,
      ev_oldDraggableIndex = Some (draggable_index dr cs i),
      ev_newDraggableIndex = Some (draggable_index dr (move_item i j cs) j),
      ev_item = cs ! i, ev_clone = cs ! i\<rparr>"

definition sortable_update :: "node \<Rightarrow> nat \<Rightarrow> nat \<Rightarrow> 'a sys \<Rightarrow> 'a sys" where
  "sortable_update p i j s =
     s\<lparr>s_dom := (s_dom s)\<lparr>dom_children := (dom_children (s_dom s))(p := move_item i j (dom_children (s_dom s) p))\<rparr>\<rparr>"

definition update_gesture :: "(node \<Rightarrow> bool) \<Rightarrow> dir_id \<Rightarrow> node \<Rightarrow> nat \<Rightarrow> nat \<Rightarrow> 'a sys \<Rightarrow> (unit, 'a sys) res" where
  "update_gesture dr d p i j s =
     on_update d (update_event dr (dom_children (s_dom s) p) i j) (sortable_update p i j s)"

subsection \<open>A drag from one list to another\<close>

text \<open>
  The node at child position \<open>i\<close> of container \<open>pa\<close> ends at child position \<open>j\<close> of
  container \<open>pb\<close>; then \<open>add\<close> fires on \<open>pb\<close>'s directive and \<open>remove\<close> on
  \<open>pa\<close>'s, in that order.
\<close>

definition move_event :: "(node \<Rightarrow> bool) \<Rightarrow> node list \<Rightarrow> node list \<Rightarrow> nat \<Rightarrow> nat \<Rightarrow> sortable_event" where
  "move_event dr csa csb i j =
     \<lparr>ev_oldIndex = int i, ev_newIndex = int j,
      ev_oldDraggableIndex = Some (draggable_index dr csa i),
      ev_newDraggableIndex = Some (draggable_index dr (take j csb @ csa ! i # drop j csb) j),
      ev_item = csa ! i, ev_clone = csa ! i\<rparr>"

definition sortable_move :: "node \<Rightarrow> node \<Rightarrow> nat \<Rightarrow> nat \<Rightarrow> 'a sys \<Rightarrow> 'a sys" where
  "sortable_move pa pb i j s =
     (let ch = dom_children (s_dom s); x = ch pa ! i
      in s\<lparr>s_dom := (s_dom s)\<lparr>dom_children := ch(pa := take i (ch pa) @ drop (Suc i) (ch pa),
                                                 pb := take j (ch pb) @ x # drop j (ch pb)),
                               dom_parent := (dom_parent (s_dom s))(x \<mapsto> pb)\<rparr>\<rparr>)"

definition move_gesture ::
  "(node \<Rightarrow> bool) \<Rightarrow> dir_id \<Rightarrow> dir_id \<Rightarrow> node \<Rightarrow> node \<Rightarrow> nat \<Rightarrow> nat \<Rightarrow> 'a sys \<Rightarrow> (unit, 'a sys) res" where
  "move_gesture dr a b pa pb i j s =
     (let ev = move_event dr (dom_children (s_dom s) pa) (dom_children (s_dom s) pb) i j;
          s' = sortable_move pa pb i j s
      in res_bind (on_add b ev s') (\<lambda>_ s1. on_remove a ev s1))"

text \<open>
  A source list with a header node (20) in front of its two draggable items, and a
  target list of one item, each bound to its own array.
\<close>

definition filler_demo :: "nat sys" where
  "filler_demo =
     \<lparr>s_heap = (\<lambda>_. JsArray [])(7 := JsArray [Some 21, Some 22], 8 := JsArray [Some 31]),
      s_dom = \<lparr>dom_children = (\<lambda>_. [])(1 := [20, 21, 22], 2 := [31]),
               dom_parent = [20 \<mapsto> 1, 21 \<mapsto> 1, 22 \<mapsto> 1, 31 \<mapsto> 2]\<rparr>,
      s_dirs = (\<lambda>_. \<lparr>d_sortablejs = NoBinding, d_options = None, d_global = None,
                      d_clone_fn = None, d_instance = None\<rparr>)
               (0 := \<lparr>d_sortablejs = SingleTarget 7, d_options = None, d_global = None, d_clone_fn = None,
                      d_instance = Some \<lparr>si_check_pull = PullTrue, si_options = Map.empty, si_alive = True\<rparr>\<rparr>,
                1 := \<lparr>d_sortablejs = SingleTarget 8, d_options = None, d_global = None, d_clone_fn = None,
                      d_instance = Some \<lparr>si_check_pull = PullTrue, si_options = Map.empty, si_alive = True\<rparr>\<rparr>),
      s_transfer = None, s_calls = []\<rparr>"

subsection \<open>Reordering keeps the mirror\<close>

text \<open>
  C11: a drag inside one list keeps the bound collection mirroring the list's draggable
  children, fillers included: Sortable reports draggable indices and \<open>onUpdate\<close> prefers
  them (\<open>getIndexesFromEvent\<close>), so the data moves between the same draggable positions
  as the node.
\<close>

theorem update_gesture_keeps_mirror:
  assumes b: "get_bindings (s_dirs s d) = [t]" and cs: "cs = dom_children (s_dom s) p"
    and ij: "i < length cs" "j < length cs" and dri: "dr (cs ! i)"
    and mir: "mirrors R dr cs (target_items (s_heap s t))"
    and def: "None \<notin> set (target_items (s_heap s t))" and px: "proxy_ok s d ''onUpdate''"
  shows "\<exists>s'. update_gesture dr d p i j s = Ok () s' \<and>
              mirrors R dr (dom_children (s_dom s') p) (target_items (s_heap s' t))"
proof -
  let ?xs = "target_items (s_heap s t)" and ?fs = "filter dr cs"
  define i' where "i' = length (filter dr (take i cs))"
  define j' where "j' = length (filter dr (take j (move_item i j cs)))"
  have len: "length ?fs = length ?xs" using mir by (simp add: mirrors_def list_all2_lengthD)
  have "?fs = filter dr (take i cs) @ cs ! i # filter dr (drop (Suc i) cs)"
    using ij(1) dri id_take_nth_drop [OF ij(1)] by (metis filter.simps(2) filter_append)
  then have i'lt: "i' < length ?fs"
    by (simp add: i'_def)
  have j'lt: "j' < length ?fs"
    using length_filter_take_move [of i cs j dr, OF ij dri] by (simp add: j'_def)
  have ix: "get_indexes_from_event (update_event dr cs i j) = \<lparr>ix_new = int j', ix_old = int i'\<rparr>"
    by (simp add: get_indexes_from_event_def update_event_def draggable_index_def i'_def j'_def)
  let ?s1 = "sortable_update p i j s" and ?ix = "\<lparr>ix_new = int j', ix_old = int i'\<rparr>"
  have b1: "[t] = get_bindings (s_dirs ?s1 d)" using b by (simp add: sortable_update_def)
  have defd: "\<forall>a \<in> set [t]. defined_target (s_heap ?s1 a) (nat (ix_old ?ix)) \<and>
                              nat (ix_new ?ix) < target_len (s_heap ?s1 a)"
    using def len i'lt j'lt by (simp add: sortable_update_def defined_target_def target_len_def)
  have px1: "proxy_ok ?s1 d ''onUpdate''" using px by (simp add: sortable_update_def)
  note upd = on_update_closed [OF b1 _ ix _ _ defd px1]
  have "mirrors R dr (move_item i j cs) (move_item i' j' ?xs)"
    using filter_move_item [of i cs j dr, OF ij dri] list_all2_move_item [of R ?fs ?xs i' j'] mir i'lt
    by (simp add: mirrors_def i'_def j'_def)
  then show ?thesis
    using upd cs by (simp add: update_gesture_def sortable_update_def)
qed

theorem update_gesture_keeps_mirror_witness:
  "\<exists>s'. update_gesture (\<lambda>n. n \<noteq> 20) 0 1 1 3
          \<lparr>s_heap = (\<lambda>_. JsArray [])(7 := JsArray [Some 21, Some 22, Some 23]),
           s_dom = \<lparr>dom_children = (\<lambda>_. [])(1 := [20, 21, 22, 23]),
                    dom_parent = [20 \<mapsto> 1, 21 \<mapsto> 1, 22 \<mapsto> 1, 23 \<mapsto> 1]\<rparr>,
           s_dirs = (\<lambda>_. \<lparr>d_sortablejs = SingleTarget 7, d_options = None, d_global = None,
                           d_clone_fn = None, d_instance = None\<rparr>),
           s_transfer = None, s_calls = []\<rparr> = Ok () s' \<and>
        mirrors (\<lambda>n x. x = Some n) (\<lambda>n. n \<noteq> 20) (dom_children (s_dom s') 1) (target_items (s_heap s' 7))"
  by (rule update_gesture_keeps_mirror [where cs = "[20, 21, 22, 23]"])
     (simp_all add: get_bindings_def mirrors_def proxy_ok_def options_without_events_def)

subsection \<open>Moving between lists keeps the mirror when there are no fillers\<close>

text \<open>
  Frame facts of Sortable's DOM move and the list algebra of a mirror whose children are
  all draggable (then the mirror is the rendering relation position by position).
\<close>

lemma mirrors_all_draggable:
  "\<forall>n \<in> set cs. dr n \<Longrightarrow> mirrors R dr cs xs \<longleftrightarrow> list_all2 R cs xs"
  by (simp add: mirrors_def)

lemma all_draggable_remove:
  "\<forall>n \<in> set cs. dr n \<Longrightarrow> \<forall>n \<in> set (take i cs @ drop (Suc i) cs). dr n"
  using set_take_drop_subset [of i cs] by blast

lemma all_draggable_insert:
  "\<forall>n \<in> set cs. dr n \<Longrightarrow> dr x \<Longrightarrow> \<forall>n \<in> set (take j cs @ x # drop j cs). dr n"
  by (auto dest: in_set_takeD in_set_dropD)

lemma list_all2_remove_at:
  "list_all2 R xs ys \<Longrightarrow> list_all2 R (take i xs @ drop (Suc i) xs) (take i ys @ drop (Suc i) ys)"
  by (intro list_all2_appendI list_all2_takeI list_all2_dropI)

lemma sortable_move_sys [simp]:
  "s_heap (sortable_move pa pb i j s) = s_heap s"
  "s_dirs (sortable_move pa pb i j s) = s_dirs s"
  "s_transfer (sortable_move pa pb i j s) = s_transfer s"
  "s_calls (sortable_move pa pb i j s) = s_calls s"
  by (simp_all add: sortable_move_def Let_def)

lemma proxy_ok_sortable_move [simp]:
  "proxy_ok (sortable_move pa pb i j s) = proxy_ok s"
  by (simp add: sortable_move_def Let_def)

lemma called_sortable_move [simp]:
  "called (sortable_move pa pb i j s) = called s"
  by (simp add: sortable_move_def Let_def)

lemma sortable_move_children:
  "pa \<noteq> pb \<Longrightarrow> dom_children (s_dom (sortable_move pa pb i j s)) pa =
     take i (dom_children (s_dom s) pa) @ drop (Suc i) (dom_children (s_dom s) pa)"
  "dom_children (s_dom (sortable_move pa pb i j s)) pb =
     take j (dom_children (s_dom s) pb) @ dom_children (s_dom s) pa ! i # drop j (dom_children (s_dom s) pb)"
  by (simp_all add: sortable_move_def Let_def)

text \<open>
  C12: when every child of both containers is draggable, a drag of the node at position
  \<open>i\<close> of \<open>pa\<close> to position \<open>j\<close> of \<open>pb\<close>, dispatched by Sortable as
  \<open>add\<close> on \<open>b\<close> then \<open>remove\<close> on \<open>a\<close>, returns normally and leaves both
  bound collections mirroring their containers.
\<close>

theorem move_gesture_keeps_mirror:
  assumes ba: "get_bindings (s_dirs s a) = [ta]" and bb: "get_bindings (s_dirs s b) = [tb]"
    and tab: "ta \<noteq> tb" and pab: "pa \<noteq> pb"
    and inst: "d_instance (s_dirs s a) = Some si" "si_check_pull si \<noteq> PullClone"
    and csa: "csa = dom_children (s_dom s) pa" and csb: "csb = dom_children (s_dom s) pb"
    and i: "i < length csa" and j: "j \<le> length csb"
    and dra: "\<forall>n \<in> set csa. dr n" and drb: "\<forall>n \<in> set csb. dr n"
    and mira: "mirrors R dr csa (target_items (s_heap s ta))"
    and mirb: "mirrors R dr csb (target_items (s_heap s tb))"
    and defa: "None \<notin> set (target_items (s_heap s ta))" and wfb: "wf_target (s_heap s tb)"
    and px: "proxy_ok s b ''onAddOriginal''" "proxy_ok s b ''onAdd''" "proxy_ok s a ''onRemove''"
  shows "\<exists>s'. move_gesture dr a b pa pb i j s = Ok () s' \<and>
              mirrors R dr (dom_children (s_dom s') pa) (target_items (s_heap s' ta)) \<and>
              mirrors R dr (dom_children (s_dom s') pb) (target_items (s_heap s' tb))"
proof -
  let ?xa = "target_items (s_heap s ta)" and ?xb = "target_items (s_heap s tb)"
  let ?ev = "move_event dr csa csb i j" and ?s1 = "sortable_move pa pb i j s"
  have la: "list_all2 R csa ?xa" and lb: "list_all2 R csb ?xb"
    using mira mirb dra drb mirrors_all_draggable by blast+
  have lena: "length csa = length ?xa" and lenb: "length csb = length ?xb"
    using la lb by (simp_all add: list_all2_lengthD)
  have ev: "ev_oldIndex ?ev = int i" "ev_newIndex ?ev = int j"
    by (simp_all add: move_event_def)
  have da: "defined_target (s_heap ?s1 ta) (nat (ev_oldIndex ?ev))"
    using defa i lena by (simp add: ev defined_target_def target_len_def)
  have jb: "nat (ev_newIndex ?ev) \<le> target_len (s_heap ?s1 tb)"
    using j lenb by (simp add: ev target_len_def)
  note step = add_then_remove_closed [of ?s1 a ta b tb si ?ev]
  have run: "move_gesture dr a b pa pb i j s =
               res_bind (on_add b ?ev ?s1) (\<lambda>_ s1. on_remove a ?ev s1)"
    by (simp add: move_gesture_def csa csb Let_def)
  have new_a: "list_all2 R (take i csa @ drop (Suc i) csa) (take i ?xa @ drop (Suc i) ?xa)"
    using la by (rule list_all2_remove_at)
  have new_b: "list_all2 R (take j csb @ csa ! i # drop j csb) (take j ?xb @ ?xa ! i # drop j ?xb)"
    using lb list_all2_nthD [OF la i] by (rule list_all2_insert_at)
  have dri: "dr (csa ! i)" using dra i by simp
  have ma: "mirrors R dr (take i csa @ drop (Suc i) csa) (take i ?xa @ drop (Suc i) ?xa)"
    using mirrors_all_draggable [OF all_draggable_remove [OF dra, where i = i]] new_a by blast
  have mb: "mirrors R dr (take j csb @ csa ! i # drop j csb) (take j ?xb @ ?xa ! i # drop j ?xb)"
    using mirrors_all_draggable [OF all_draggable_insert [OF drb dri, where j = j]] new_b by blast
  show ?thesis
    using step ba bb tab inst da wfb jb px ma mb
    by (simp add: run ev sortable_move_children pab csa [symmetric] csb [symmetric]
          del_target_def ins_target_def)
qed
theorem move_gesture_keeps_mirror_witness:
  "\<exists>s'. move_gesture (\<lambda>_. True) 0 1 1 2 0 1
          \<lparr>s_heap = (\<lambda>_. JsArray [])(7 := JsArray [Some 21, Some 22], 8 := JsArray [Some 31]),
           s_dom = \<lparr>dom_children = (\<lambda>_. [])(1 := [21, 22], 2 := [31]),
                    dom_parent = [21 \<mapsto> 1, 22 \<mapsto> 1, 31 \<mapsto> 2]\<rparr>,
           s_dirs = (\<lambda>_. \<lparr>d_sortablejs = NoBinding, d_options = None, d_global = None,
                           d_clone_fn = None, d_instance = None\<rparr>)
                    (0 := \<lparr>d_sortablejs = SingleTarget 7, d_options = None, d_global = None, d_clone_fn = None,
                           d_instance = Some \<lparr>si_check_pull = PullTrue, si_options = Map.empty, si_alive = True\<rparr>\<rparr>,
                     1 := \<lparr>d_sortablejs = SingleTarget 8, d_options = None, d_global = None, d_clone_fn = None,
                           d_instance = Some \<lparr>si_check_pull = PullTrue, si_options = Map.empty, si_alive = True\<rparr>\<rparr>),
           s_transfer = None, s_calls = []\<rparr> = Ok () s' \<and>
        mirrors (\<lambda>n x. x = Some n) (\<lambda>_. True) (dom_children (s_dom s') 1) (target_items (s_heap s' 7)) \<and>
        mirrors (\<lambda>n x. x = Some n) (\<lambda>_. True) (dom_children (s_dom s') 2) (target_items (s_heap s' 8))"
  by (rule move_gesture_keeps_mirror [where csa = "[21, 22]" and csb = "[31]" and si =
        "\<lparr>si_check_pull = PullTrue, si_options = Map.empty, si_alive = True\<rparr>"])
     (simp_all add: get_bindings_def mirrors_def proxy_ok_def options_without_events_def)

subsection \<open>Fillers before the dragged node break a move between lists\<close>

lemma dragged_node_renders:
  assumes "i < length cs" "dr (cs ! i)" "mirrors R dr cs xs"
  shows "R (cs ! i) (xs ! length (filter dr (take i cs)))"
proof -
  have "filter dr cs = filter dr (take i cs) @ cs ! i # filter dr (drop (Suc i) cs)"
    using assms(1,2) id_take_nth_drop [OF assms(1)] by (metis filter.simps(2) filter_append)
  then show ?thesis
    using list_all2_nthD [of R "filter dr cs" xs "length (filter dr (take i cs))"] assms(3)
    by (simp add: mirrors_def nth_append)
qed

lemma filler_shifts_index:
  "f < i \<Longrightarrow> i \<le> length cs \<Longrightarrow> \<not> dr (cs ! f) \<Longrightarrow> length (filter dr (take i cs)) < i"
  using length_filter_less [of "cs ! f" "take i cs" dr] by (simp add: in_set_conv_nth) (metis nth_take less_le_trans)

text \<open>
  C13: \<open>onAdd\<close> and \<open>onRemove\<close> use the raw \<open>newIndex\<close>/\<open>oldIndex\<close>, which
  count filler children, while the bound collection only holds the draggable ones.
  Whenever a filler precedes the dragged node, its draggable position \<open>k\<close> is below
  its raw position \<open>i\<close> and it renders item \<open>k\<close>, but the gesture returns normally
  having moved item \<open>i\<close>: the source data loses item \<open>i\<close> and the target receives
  it, so data and DOM no longer agree.
\<close>

theorem filler_breaks_cross_list_move:
  assumes ba: "get_bindings (s_dirs s a) = [ta]" and bb: "get_bindings (s_dirs s b) = [tb]"
    and tab: "ta \<noteq> tb" and pab: "pa \<noteq> pb"
    and inst: "d_instance (s_dirs s a) = Some si" "si_check_pull si \<noteq> PullClone"
    and csa: "csa = dom_children (s_dom s) pa"
    and i: "i < length csa" and dri: "dr (csa ! i)" and filler: "f < i" "\<not> dr (csa ! f)"
    and mira: "mirrors R dr csa (target_items (s_heap s ta))"
    and raw: "i < length (target_items (s_heap s ta))"
    and defa: "None \<notin> set (target_items (s_heap s ta))" and wfb: "wf_target (s_heap s tb)"
    and j: "j \<le> length (target_items (s_heap s tb))"
    and px: "proxy_ok s b ''onAddOriginal''" "proxy_ok s b ''onAdd''" "proxy_ok s a ''onRemove''"
  shows "\<exists>s'. move_gesture dr a b pa pb i j s = Ok () s' \<and>
              length (filter dr (take i csa)) < i \<and>
              R (csa ! i) (target_items (s_heap s ta) ! length (filter dr (take i csa))) \<and>
              target_items (s_heap s' ta) = take i (target_items (s_heap s ta)) @ drop (Suc i) (target_items (s_heap s ta)) \<and>
              target_items (s_heap s' tb) =
                take j (target_items (s_heap s tb)) @ target_items (s_heap s ta) ! i # drop j (target_items (s_heap s tb))"
proof -
  let ?csb = "dom_children (s_dom s) pb"
  let ?ev = "move_event dr csa ?csb i j" and ?s1 = "sortable_move pa pb i j s"
  have ev: "ev_oldIndex ?ev = int i" "ev_newIndex ?ev = int j"
    by (simp_all add: move_event_def)
  have da: "defined_target (s_heap ?s1 ta) (nat (ev_oldIndex ?ev))"
    using defa raw by (simp add: ev defined_target_def target_len_def)
  have jb: "nat (ev_newIndex ?ev) \<le> target_len (s_heap ?s1 tb)"
    using j by (simp add: ev target_len_def)
  note step = add_then_remove_closed [of ?s1 a ta b tb si ?ev]
  have run: "move_gesture dr a b pa pb i j s =
               res_bind (on_add b ?ev ?s1) (\<lambda>_ s1. on_remove a ?ev s1)"
    by (simp add: move_gesture_def csa Let_def)
  show ?thesis
    using step ba bb tab inst da wfb jb px filler_shifts_index [where dr = dr and cs = csa, OF filler(1) less_imp_le [OF i] filler(2)]
      dragged_node_renders [OF i dri mira]
    by (simp add: run ev del_target_def ins_target_def)
qed
theorem filler_breaks_cross_list_move_witness:
  "\<exists>s'. move_gesture (\<lambda>n. n \<noteq> 20) 0 1 1 2 1 1 filler_demo = Ok () s' \<and>
        length (filter (\<lambda>n. n \<noteq> 20) (take 1 [20, 21, 22])) < 1 \<and>
        target_items (s_heap s' 7) = [Some (21::nat)] \<and> target_items (s_heap s' 8) = [Some 31, Some 22]"
proof -
  let ?si = "\<lparr>si_check_pull = PullTrue, si_options = Map.empty, si_alive = True\<rparr>"
  have h7: "s_heap filler_demo 7 = JsArray [Some 21, Some 22]"
    and h8: "s_heap filler_demo 8 = JsArray [Some 31]"
    and c1: "dom_children (s_dom filler_demo) 1 = [20, 21, 22]"
    by (simp_all add: filler_demo_def)
  have g: "get_bindings (s_dirs filler_demo 0) = [7]" "get_bindings (s_dirs filler_demo 1) = [8]"
    "d_instance (s_dirs filler_demo 0) = Some ?si"
    by (simp_all add: filler_demo_def get_bindings_def)
  have px: "proxy_ok filler_demo 1 ''onAddOriginal''" "proxy_ok filler_demo 1 ''onAdd''"
    "proxy_ok filler_demo 0 ''onRemove''"
    by (simp_all add: filler_demo_def proxy_ok_def options_without_events_def)
  have m: "mirrors (\<lambda>n x. x = Some n) (\<lambda>n. n \<noteq> 20) [20, 21, 22] (target_items (s_heap filler_demo 7))"
    by (simp add: h7 mirrors_def)
  have "\<exists>s'. move_gesture (\<lambda>n. n \<noteq> 20) 0 1 1 2 1 1 filler_demo = Ok () s' \<and>
          length (filter (\<lambda>n. n \<noteq> 20) (take 1 [20, 21, 22])) < 1 \<and>
          Some 21 = Some (21::nat) \<and>
          target_items (s_heap s' 7) = take 1 [Some 21, Some 22] @ drop (Suc 1) [Some 21, Some 22] \<and>
          target_items (s_heap s' 8) = take 1 [Some 31] @ [Some 21, Some 22] ! 1 # drop 1 [Some 31]"
    using filler_breaks_cross_list_move [where s = filler_demo and a = 0 and ta = 7 and b = 1 and tb = 8
        and pa = 1 and pb = 2 and si = ?si and csa = "[20, 21, 22]" and i = 1 and dr = "\<lambda>n. n \<noteq> 20"
        and f = 0 and R = "\<lambda>n x. x = Some n" and j = 1]
      g px m c1 by (simp add: h7 h8)
  then show ?thesis by simp
qed


subsection \<open>A drag from an unbound list\<close>

text \<open>
  C19: when the source list has no bound collection, Sortable's \<open>add\<close> on a bound
  target stores the transfer closure but the source's \<open>onRemove\<close> neither calls nor
  clears it: the target's collection does not receive the item (its container now shows
  one node more than its data) and the slot keeps a stale closure.
\<close>

theorem unbound_source_leaves_stale_transfer:
  assumes "get_bindings (s_dirs s a) = []"
    and "proxy_ok s b ''onAddOriginal''" and "proxy_ok s a ''onRemove''"
  shows "res_bind (on_add b ev s) (\<lambda>_ s1. on_remove a ev s1) =
           Ok () (s\<lparr>s_transfer := Some (Pending b ev),
                    s_calls := s_calls s @ called s b ''onAddOriginal'' ev @ called s a ''onRemove'' ev\<rparr>)"
  using assms by (simp add: on_add_def on_remove_def provided_def)

theorem unbound_source_leaves_stale_transfer_witness:
  "res_bind (on_add 1 \<lparr>ev_oldIndex = 0, ev_newIndex = 0, ev_oldDraggableIndex = None,
                        ev_newDraggableIndex = None, ev_item = 5, ev_clone = 6\<rparr>
     \<lparr>s_heap = (\<lambda>_. JsArray [])(8 := JsArray [Some CHR ''x'']),
      s_dom = \<lparr>dom_children = (\<lambda>_. []), dom_parent = Map.empty\<rparr>,
      s_dirs = (\<lambda>_. \<lparr>d_sortablejs = NoBinding, d_options = None, d_global = None,
                      d_clone_fn = None, d_instance = None\<rparr>)
               (1 := \<lparr>d_sortablejs = SingleTarget 8, d_options = None, d_global = None,
                      d_clone_fn = None, d_instance = None\<rparr>),
      s_transfer = None, s_calls = []\<rparr>)
     (\<lambda>_ s1. on_remove 0 \<lparr>ev_oldIndex = 0, ev_newIndex = 0, ev_oldDraggableIndex = None,
                          ev_newDraggableIndex = None, ev_item = 5, ev_clone = 6\<rparr> s1) =
   Ok () \<lparr>s_heap = (\<lambda>_. JsArray [])(8 := JsArray [Some CHR ''x'']),
      s_dom = \<lparr>dom_children = (\<lambda>_. []), dom_parent = Map.empty\<rparr>,
      s_dirs = (\<lambda>_. \<lparr>d_sortablejs = NoBinding, d_options = None, d_global = None,
                      d_clone_fn = None, d_instance = None\<rparr>)
               (1 := \<lparr>d_sortablejs = SingleTarget 8, d_options = None, d_global = None,
                      d_clone_fn = None, d_instance = None\<rparr>),
      s_transfer = Some (Pending 1 \<lparr>ev_oldIndex = 0, ev_newIndex = 0, ev_oldDraggableIndex = None,
                                    ev_newDraggableIndex = None, ev_item = 5, ev_clone = 6\<rparr>),
      s_calls = []\<rparr>"
  by (subst unbound_source_leaves_stale_transfer)
     (simp_all add: get_bindings_def proxy_ok_def options_without_events_def called_def)
end
