(* ===== verification/Gesture_Runs.thy ===== *)
theory Gesture_Runs
  imports Gesture
begin

text \<open>
  Runs of drag gestures over several registered lists. A \<open>layout\<close> assigns to each
  directive instance its container node and the address of its bound collection; a
  \<open>gesture\<close> is one drag as Sortable reports it: a reorder inside one list
  (\<open>update_gesture\<close>) or a move between two lists (\<open>move_gesture\<close>, which dispatches
  \<open>add\<close> on the target before \<open>remove\<close> on the source). \<open>run_gestures\<close> runs a
  sequence of them, stopping at the first exception. The abstract model \<open>abs_gesture\<close>
  acts on the map from directive to list contents; \<open>mirrored_sys\<close> is the system-wide
  invariant that every registered list is bound to its own collection, has only draggable
  children, mirrors its container, holds no undefined item and has proxy-compatible
  options. The lemmas show one gesture refines its abstract effect and keeps the
  invariant, then lift this to sequences (refinement) and to the reachability relation
  \<open>gesture_reach\<close> (rule induction).
\<close>

datatype gesture = Reorder dir_id nat nat | Transfer dir_id dir_id nat nat

type_synonym layout = "dir_id \<rightharpoonup> node \<times> addr"

definition run_gesture :: "(node \<Rightarrow> bool) \<Rightarrow> layout \<Rightarrow> gesture \<Rightarrow> 'a sys \<Rightarrow> (unit, 'a sys) res" where
  "run_gesture dr L g s =
     (case g of
        Reorder d i j \<Rightarrow>
          (case L d of Some (p, t) \<Rightarrow> update_gesture dr d p i j s | None \<Rightarrow> Ok () s)
      | Transfer a b i j \<Rightarrow>
          (case (L a, L b) of
             (Some (pa, ta), Some (pb, tb)) \<Rightarrow> move_gesture dr a b pa pb i j s
           | _ \<Rightarrow> Ok () s))"

definition abs_lists :: "layout \<Rightarrow> 'a sys \<Rightarrow> dir_id \<rightharpoonup> 'a jsval list" where
  "abs_lists L s = (\<lambda>d. map_option (\<lambda>(p, t). target_items (s_heap s t)) (L d))"

definition abs_gesture :: "gesture \<Rightarrow> (dir_id \<rightharpoonup> 'a jsval list) \<Rightarrow> (dir_id \<rightharpoonup> 'a jsval list)" where
  "abs_gesture g m =
     (case g of
        Reorder d i j \<Rightarrow> (case m d of Some xs \<Rightarrow> m(d \<mapsto> move_item i j xs) | None \<Rightarrow> m)
      | Transfer a b i j \<Rightarrow>
          (case (m a, m b) of
             (Some xa, Some xb) \<Rightarrow> m(a \<mapsto> take i xa @ drop (Suc i) xa, b \<mapsto> take j xb @ xa ! i # drop j xb)
           | _ \<Rightarrow> m))"

definition gesture_ok :: "layout \<Rightarrow> gesture \<Rightarrow> 'a sys \<Rightarrow> bool" where
  "gesture_ok L g s =
     (case g of
        Reorder d i j \<Rightarrow>
          (case L d of
             Some (p, t) \<Rightarrow> i < length (dom_children (s_dom s) p) \<and> j < length (dom_children (s_dom s) p)
           | None \<Rightarrow> False)
      | Transfer a b i j \<Rightarrow>
          a \<noteq> b \<and>
          (case (L a, L b) of
             (Some (pa, ta), Some (pb, tb)) \<Rightarrow>
               i < length (dom_children (s_dom s) pa) \<and> j \<le> length (dom_children (s_dom s) pb)
           | _ \<Rightarrow> False))"

definition layout_ok :: "layout \<Rightarrow> bool" where
  "layout_ok L \<longleftrightarrow>
     (\<forall>d d' p t p' t'. L d = Some (p, t) \<longrightarrow> L d' = Some (p', t') \<longrightarrow> d \<noteq> d' \<longrightarrow> p \<noteq> p' \<and> t \<noteq> t')"

definition dir_mirrored ::
  "(node \<Rightarrow> 'a jsval \<Rightarrow> bool) \<Rightarrow> (node \<Rightarrow> bool) \<Rightarrow> 'a sys \<Rightarrow> dir_id \<Rightarrow> node \<Rightarrow> addr \<Rightarrow> bool" where
  "dir_mirrored R dr s d p t \<longleftrightarrow>
     get_bindings (s_dirs s d) = [t] \<and> (\<forall>n \<in> set (dom_children (s_dom s) p). dr n) \<and>
     mirrors R dr (dom_children (s_dom s) p) (target_items (s_heap s t)) \<and>
     None \<notin> set (target_items (s_heap s t)) \<and>
     (case d_instance (s_dirs s d) of Some i \<Rightarrow> si_check_pull i \<noteq> PullClone | None \<Rightarrow> False) \<and>
     proxy_ok s d ''onUpdate'' \<and> proxy_ok s d ''onAddOriginal'' \<and> proxy_ok s d ''onAdd'' \<and>
     proxy_ok s d ''onRemove''"

definition mirrored_sys :: "(node \<Rightarrow> 'a jsval \<Rightarrow> bool) \<Rightarrow> (node \<Rightarrow> bool) \<Rightarrow> layout \<Rightarrow> 'a sys \<Rightarrow> bool" where
  "mirrored_sys R dr L s \<longleftrightarrow> (\<forall>d p t. L d = Some (p, t) \<longrightarrow> dir_mirrored R dr s d p t)"

inductive gesture_reach :: "(node \<Rightarrow> bool) \<Rightarrow> layout \<Rightarrow> 'a sys \<Rightarrow> 'a sys \<Rightarrow> bool"
  for dr :: "node \<Rightarrow> bool" and L :: layout where
  gr_refl: "gesture_reach dr L s s"
| gr_step: "gesture_reach dr L s0 s \<Longrightarrow> gesture_ok L g s \<Longrightarrow> run_gesture dr L g s = Ok () s' \<Longrightarrow>
            gesture_reach dr L s0 s'"

fun run_gestures :: "(node \<Rightarrow> bool) \<Rightarrow> layout \<Rightarrow> gesture list \<Rightarrow> 'a sys \<Rightarrow> (unit, 'a sys) res" where
  "run_gestures dr L [] s = Ok () s"
| "run_gestures dr L (g # gs) s = res_bind (run_gesture dr L g s) (\<lambda>_ s'. run_gestures dr L gs s')"

definition abs_ok :: "gesture \<Rightarrow> (dir_id \<rightharpoonup> 'a jsval list) \<Rightarrow> bool" where
  "abs_ok g m =
     (case g of
        Reorder d i j \<Rightarrow> (case m d of Some xs \<Rightarrow> i < length xs \<and> j < length xs | None \<Rightarrow> False)
      | Transfer a b i j \<Rightarrow>
          a \<noteq> b \<and>
          (case (m a, m b) of
             (Some xa, Some xb) \<Rightarrow> i < length xa \<and> j \<le> length xb
           | _ \<Rightarrow> False))"

fun abs_valid :: "gesture list \<Rightarrow> (dir_id \<rightharpoonup> 'a jsval list) \<Rightarrow> bool" where
  "abs_valid [] m = True"
| "abs_valid (g # gs) m = (abs_ok g m \<and> abs_valid gs (abs_gesture g m))"

definition demo_layout :: layout where
  "demo_layout = [0 \<mapsto> (1, 7), 1 \<mapsto> (2, 8)]"

definition demo_sys :: "nat sys" where
  "demo_sys =
     \<lparr>s_heap = (\<lambda>_. JsArray [])(7 := JsArray [Some 21, Some 22], 8 := JsArray [Some 31]),
      s_dom = \<lparr>dom_children = (\<lambda>_. [])(1 := [21, 22], 2 := [31]),
               dom_parent = [21 \<mapsto> 1, 22 \<mapsto> 1, 31 \<mapsto> 2]\<rparr>,
      s_dirs = (\<lambda>_. \<lparr>d_sortablejs = NoBinding, d_options = None, d_global = None,
                      d_clone_fn = None, d_instance = None\<rparr>)
               (0 := \<lparr>d_sortablejs = SingleTarget 7, d_options = None, d_global = None, d_clone_fn = None,
                      d_instance = Some \<lparr>si_check_pull = PullTrue, si_options = Map.empty, si_alive = True\<rparr>\<rparr>,
                1 := \<lparr>d_sortablejs = SingleTarget 8, d_options = None, d_global = None, d_clone_fn = None,
                      d_instance = Some \<lparr>si_check_pull = PullTrue, si_options = Map.empty, si_alive = True\<rparr>\<rparr>),
      s_transfer = None, s_calls = []\<rparr>"

lemma all_draggable_take: "\<forall>n \<in> set cs. dr n \<Longrightarrow> filter dr (take i cs) = take i cs"
  by (simp add: filter_id_conv) (meson in_set_takeD)

lemma set_move_item: "i < length xs \<Longrightarrow> set (move_item i j xs) = set xs"
proof -
  assume i: "i < length xs"
  have "set xs = set (take i xs @ xs ! i # drop (Suc i) xs)"
    using id_take_nth_drop [OF i] by simp
  moreover have "set (take i xs @ drop (Suc i) xs) = set (take j (take i xs @ drop (Suc i) xs)) \<union> set (drop j (take i xs @ drop (Suc i) xs))"
    by (metis append_take_drop_id set_append)
  ultimately show ?thesis
    by (auto simp: move_item_def Let_def)
qed

lemma draggable_index_all: "\<forall>n \<in> set cs. dr n \<Longrightarrow> i \<le> length cs \<Longrightarrow> draggable_index dr cs i = int i"
  by (simp add: draggable_index_def all_draggable_take min_def)

lemma update_gesture_all_draggable:
  assumes b: "get_bindings (s_dirs s d) = [t]" and cs: "cs = dom_children (s_dom s) p"
    and ij: "i < length cs" "j < length cs" and dra: "\<forall>n \<in> set cs. dr n"
    and def: "None \<notin> set (target_items (s_heap s t))" and len: "length (target_items (s_heap s t)) = length cs"
    and px: "proxy_ok s d ''onUpdate''"
  shows "update_gesture dr d p i j s =
           Ok () (s\<lparr>s_heap := (s_heap s)(t := with_items (s_heap s t) (move_item i j (target_items (s_heap s t)))),
                    s_dom := (s_dom s)\<lparr>dom_children := (dom_children (s_dom s))(p := move_item i j cs)\<rparr>,
                    s_calls := s_calls s @ called s d ''onUpdate'' (update_event dr cs i j)\<rparr>)"
proof -
  let ?s1 = "sortable_update p i j s" and ?ix = "\<lparr>ix_new = int j, ix_old = int i\<rparr>"
  have dr2: "\<forall>n \<in> set (move_item i j cs). dr n" using dra ij by (simp add: set_move_item)
  have ix: "get_indexes_from_event (update_event dr cs i j) = ?ix"
    using dra dr2 ij by (simp add: get_indexes_from_event_def update_event_def draggable_index_all)
  have b1: "[t] = get_bindings (s_dirs ?s1 d)" using b by (simp add: sortable_update_def)
  have defd: "\<forall>a \<in> set [t]. defined_target (s_heap ?s1 a) (nat (ix_old ?ix)) \<and>
                              nat (ix_new ?ix) < target_len (s_heap ?s1 a)"
    using def len ij by (simp add: sortable_update_def defined_target_def target_len_def)
  have px1: "proxy_ok ?s1 d ''onUpdate''" using px by (simp add: sortable_update_def)
  have "on_update d (update_event dr cs i j) ?s1 =
          Ok () (?s1\<lparr>s_heap := \<lambda>a. if a \<in> set [t]
                                    then with_items (s_heap ?s1 a)
                                           (move_item (nat (ix_old ?ix)) (nat (ix_new ?ix)) (target_items (s_heap ?s1 a)))
                                    else s_heap ?s1 a,
                    s_calls := s_calls ?s1 @ called ?s1 d ''onUpdate'' (update_event dr cs i j)\<rparr>)"
    using on_update_closed [OF b1 _ ix _ _ defd px1] by simp
  then show ?thesis
    by (simp add: update_gesture_def sortable_update_def cs [symmetric] fun_eq_iff)
qed

lemma move_gesture_closed:
  assumes ba: "get_bindings (s_dirs s a) = [ta]" and bb: "get_bindings (s_dirs s b) = [tb]"
    and tab: "ta \<noteq> tb"
    and inst: "d_instance (s_dirs s a) = Some si" "si_check_pull si \<noteq> PullClone"
    and csa: "csa = dom_children (s_dom s) pa" and csb: "csb = dom_children (s_dom s) pb"
    and i: "i < length (target_items (s_heap s ta))" and j: "j \<le> length (target_items (s_heap s tb))"
    and defa: "None \<notin> set (target_items (s_heap s ta))" and wfb: "wf_target (s_heap s tb)"
    and px: "proxy_ok s b ''onAddOriginal''" "proxy_ok s b ''onAdd''" "proxy_ok s a ''onRemove''"
  shows "move_gesture dr a b pa pb i j s =
           Ok () ((sortable_move pa pb i j s)\<lparr>
                    s_heap := (s_heap s)(ta := del_target i (s_heap s ta),
                                         tb := ins_target j (target_items (s_heap s ta) ! i) (s_heap s tb)),
                    s_transfer := None,
                    s_calls := s_calls s @ called s b ''onAddOriginal'' (move_event dr csa csb i j)
                               @ called s b ''onAdd'' (move_event dr csa csb i j)
                               @ called s a ''onRemove'' (move_event dr csa csb i j)\<rparr>)"
proof -
  let ?ev = "move_event dr csa csb i j" and ?s1 = "sortable_move pa pb i j s"
  have ev: "ev_oldIndex ?ev = int i" "ev_newIndex ?ev = int j" by (simp_all add: move_event_def)
  have da: "defined_target (s_heap ?s1 ta) (nat (ev_oldIndex ?ev))"
    using defa i by (simp add: ev defined_target_def target_len_def)
  have jb: "nat (ev_newIndex ?ev) \<le> target_len (s_heap ?s1 tb)"
    using j by (simp add: ev target_len_def)
  have "res_bind (on_add b ?ev ?s1) (\<lambda>_ s1. on_remove a ?ev s1) =
          Ok () (?s1\<lparr>s_heap := (s_heap ?s1)
                      (ta := del_target (nat (ev_oldIndex ?ev)) (s_heap ?s1 ta),
                       tb := ins_target (nat (ev_newIndex ?ev))
                               (target_items (s_heap ?s1 ta) ! nat (ev_oldIndex ?ev)) (s_heap ?s1 tb)),
                    s_transfer := None,
                    s_calls := s_calls ?s1 @ called ?s1 b ''onAddOriginal'' ?ev @ called ?s1 b ''onAdd'' ?ev
                               @ called ?s1 a ''onRemove'' ?ev\<rparr>)"
    using ba bb tab inst da wfb jb px by (intro add_then_remove_closed) (simp_all add: ev)
  then show ?thesis
    by (simp add: move_gesture_def Let_def ev flip: csa csb)
qed

lemma proxy_ok_dirs: "s_dirs s' = s_dirs s \<Longrightarrow> proxy_ok s' = proxy_ok s"
  by (simp add: proxy_ok_def fun_eq_iff)

lemma dir_mirrored_replace:
  assumes "dir_mirrored R dr s d p t" and dirs: "s_dirs s' = s_dirs s"
    and "\<forall>n \<in> set (dom_children (s_dom s') p). dr n"
    and "list_all2 R (dom_children (s_dom s') p) (target_items (s_heap s' t))"
    and "None \<notin> set (target_items (s_heap s' t))"
  shows "dir_mirrored R dr s' d p t"
  using assms mirrors_all_draggable [of "dom_children (s_dom s') p" dr R "target_items (s_heap s' t)"]
  by (simp add: dir_mirrored_def proxy_ok_dirs [OF dirs])

lemma dir_mirrored_frame:
  "s_dirs s' = s_dirs s \<Longrightarrow> dom_children (s_dom s') p = dom_children (s_dom s) p \<Longrightarrow>
   s_heap s' t = s_heap s t \<Longrightarrow> dir_mirrored R dr s' d p t = dir_mirrored R dr s d p t"
  by (simp add: dir_mirrored_def proxy_ok_dirs [of s' s])

lemma dir_mirroredD:
  assumes "dir_mirrored R dr s d p t"
  shows "get_bindings (s_dirs s d) = [t]" "\<forall>n \<in> set (dom_children (s_dom s) p). dr n"
    "list_all2 R (dom_children (s_dom s) p) (target_items (s_heap s t))"
    "None \<notin> set (target_items (s_heap s t))"
    "length (target_items (s_heap s t)) = length (dom_children (s_dom s) p)"
    "proxy_ok s d ''onUpdate''" "proxy_ok s d ''onAddOriginal''" "proxy_ok s d ''onAdd''" "proxy_ok s d ''onRemove''"
proof -
  have l: "list_all2 R (dom_children (s_dom s) p) (target_items (s_heap s t))"
    using assms mirrors_all_draggable [of "dom_children (s_dom s) p" dr R "target_items (s_heap s t)"]
    unfolding dir_mirrored_def by blast
  show "list_all2 R (dom_children (s_dom s) p) (target_items (s_heap s t))" by (rule l)
  show "length (target_items (s_heap s t)) = length (dom_children (s_dom s) p)"
    using list_all2_lengthD [OF l] by simp
qed (use assms in \<open>simp_all add: dir_mirrored_def\<close>)

lemma layout_okD: "layout_ok L \<Longrightarrow> L d = Some (p, t) \<Longrightarrow> L d' = Some (p', t') \<Longrightarrow> d' \<noteq> d \<Longrightarrow> p' \<noteq> p \<and> t' \<noteq> t"
  unfolding layout_ok_def by blast

lemma reorder_step:
  assumes lo: "layout_ok L" and ms: "mirrored_sys R dr L s" and Ld: "L d = Some (p, t)"
    and ij: "i < length (dom_children (s_dom s) p)" "j < length (dom_children (s_dom s) p)"
  shows "\<exists>s'. update_gesture dr d p i j s = Ok () s' \<and>
              abs_lists L s' = abs_gesture (Reorder d i j) (abs_lists L s) \<and> mirrored_sys R dr L s'"
proof -
  let ?cs = "dom_children (s_dom s) p" and ?xs = "target_items (s_heap s t)"
  have dm: "dir_mirrored R dr s d p t" using ms Ld by (simp add: mirrored_sys_def)
  note m = dir_mirroredD [OF dm]
  define s' where "s' = s\<lparr>s_heap := (s_heap s)(t := with_items (s_heap s t) (move_item i j ?xs)),
                    s_dom := (s_dom s)\<lparr>dom_children := (dom_children (s_dom s))(p := move_item i j ?cs)\<rparr>,
                    s_calls := s_calls s @ called s d ''onUpdate'' (update_event dr ?cs i j)\<rparr>"
  have run: "update_gesture dr d p i j s = Ok () s'"
    unfolding s'_def using m ij by (intro update_gesture_all_draggable) simp_all
  have here: "dir_mirrored R dr s' d p t"
    by (rule dir_mirrored_replace [OF dm])
       (use m ij in \<open>simp_all add: s'_def set_move_item list_all2_move_item\<close>)
  have other: "dir_mirrored R dr s' d' p' t'" if "L d' = Some (p', t')" "d' \<noteq> d" for d' p' t'
  proof -
    have "p' \<noteq> p" "t' \<noteq> t" using layout_okD [OF lo Ld that] by simp_all
    then have "dir_mirrored R dr s' d' p' t' = dir_mirrored R dr s d' p' t'"
      by (intro dir_mirrored_frame) (simp_all add: s'_def)
    then show ?thesis using ms that(1) by (simp add: mirrored_sys_def)
  qed
  have "mirrored_sys R dr L s'"
    unfolding mirrored_sys_def using here other Ld by (metis option.inject prod.inject)
  moreover have "abs_lists L s' = abs_gesture (Reorder d i j) (abs_lists L s)"
  proof (rule ext)
    fix d'
    show "abs_lists L s' d' = abs_gesture (Reorder d i j) (abs_lists L s) d'"
    proof (cases "L d'")
      case (Some pt)
      obtain p' t' where pt: "pt = (p', t')" by (cases pt)
      show ?thesis
      proof (cases "d' = d")
        case True then show ?thesis using Ld by (simp add: abs_lists_def abs_gesture_def s'_def)
      next
        case False
        then have "t' \<noteq> t" using layout_okD [OF lo Ld] Some pt by blast
        then show ?thesis using Some pt Ld False by (simp add: abs_lists_def abs_gesture_def s'_def)
      qed
    qed (use Ld in \<open>auto simp: abs_lists_def abs_gesture_def\<close>)
  qed
  ultimately show ?thesis using run by blast
qed

lemma sortable_move_children_other:
  "q \<noteq> pa \<Longrightarrow> q \<noteq> pb \<Longrightarrow>
   dom_children (s_dom (sortable_move pa pb i j s)) q = dom_children (s_dom s) q"
  by (simp add: sortable_move_def Let_def)

lemma transfer_step:
  assumes lo: "layout_ok L" and ms: "mirrored_sys R dr L s"
    and La: "L a = Some (pa, ta)" and Lb: "L b = Some (pb, tb)" and ab: "a \<noteq> b"
    and i: "i < length (dom_children (s_dom s) pa)" and j: "j \<le> length (dom_children (s_dom s) pb)"
  shows "\<exists>s'. move_gesture dr a b pa pb i j s = Ok () s' \<and>
              abs_lists L s' = abs_gesture (Transfer a b i j) (abs_lists L s) \<and> mirrored_sys R dr L s'"
proof -
  let ?csa = "dom_children (s_dom s) pa" and ?csb = "dom_children (s_dom s) pb"
  let ?xa = "target_items (s_heap s ta)" and ?xb = "target_items (s_heap s tb)"
  have dma: "dir_mirrored R dr s a pa ta" and dmb: "dir_mirrored R dr s b pb tb"
    using ms La Lb by (simp_all add: mirrored_sys_def)
  note ma = dir_mirroredD [OF dma] and mb = dir_mirroredD [OF dmb]
  have ne: "pb \<noteq> pa" "tb \<noteq> ta" using layout_okD [OF lo La Lb] ab by auto
  obtain si where inst: "d_instance (s_dirs s a) = Some si" "si_check_pull si \<noteq> PullClone"
    using dma by (auto simp: dir_mirrored_def split: option.splits)
  have wfb: "wf_target (s_heap s tb)" using mb by (simp add: wf_target_iff)
  have xi: "R (?csa ! i) (?xa ! i)" using ma(3) i by (simp add: list_all2_nthD)
  have dri: "dr (?csa ! i)" using ma(2) i by simp
  have xa_def: "?xa ! i \<noteq> None" using ma(4) ma(5) i by (metis nth_mem)
  define s' where "s' = (sortable_move pa pb i j s)\<lparr>
                    s_heap := (s_heap s)(ta := del_target i (s_heap s ta),
                                         tb := ins_target j (?xa ! i) (s_heap s tb)),
                    s_transfer := None,
                    s_calls := s_calls s @ called s b ''onAddOriginal'' (move_event dr ?csa ?csb i j)
                               @ called s b ''onAdd'' (move_event dr ?csa ?csb i j)
                               @ called s a ''onRemove'' (move_event dr ?csa ?csb i j)\<rparr>"
  have run: "move_gesture dr a b pa pb i j s = Ok () s'"
    unfolding s'_def using ma mb i j ne inst wfb
    by (intro move_gesture_closed) simp_all
  have ch: "dom_children (s_dom s') pa = take i ?csa @ drop (Suc i) ?csa"
           "dom_children (s_dom s') pb = take j ?csb @ ?csa ! i # drop j ?csb"
    using ne by (simp_all add: s'_def sortable_move_children)
  have it: "target_items (s_heap s' ta) = take i ?xa @ drop (Suc i) ?xa"
           "target_items (s_heap s' tb) = take j ?xb @ ?xa ! i # drop j ?xb"
    using ne by (simp_all add: s'_def del_target_def ins_target_def)
  have dirs: "s_dirs s' = s_dirs s" by (simp add: s'_def)
  have here_a: "dir_mirrored R dr s' a pa ta"
    using ma(4) set_take_drop_subset [of i ?xa]
    by (intro dir_mirrored_replace [OF dma dirs])
       (auto simp: ch it all_draggable_remove [OF ma(2)] list_all2_remove_at [OF ma(3)])
  have here_b: "dir_mirrored R dr s' b pb tb"
    using mb(4) xa_def
    by (intro dir_mirrored_replace [OF dmb dirs])
       (auto simp: ch it all_draggable_insert [OF mb(2) dri] list_all2_insert_at [OF mb(3) xi]
             dest: in_set_takeD in_set_dropD)
  have other: "dir_mirrored R dr s' d' p' t'"
    if d': "L d' = Some (p', t')" "d' \<noteq> a" "d' \<noteq> b" for d' p' t'
  proof -
    have "p' \<noteq> pa" "t' \<noteq> ta" using layout_okD [OF lo La d'(1) d'(2)] by simp_all
    moreover have "p' \<noteq> pb" "t' \<noteq> tb" using layout_okD [OF lo Lb d'(1) d'(3)] by simp_all
    ultimately have "dir_mirrored R dr s' d' p' t' = dir_mirrored R dr s d' p' t'"
      by (intro dir_mirrored_frame) (simp_all add: s'_def sortable_move_children_other)
    then show ?thesis using ms d'(1) by (simp add: mirrored_sys_def)
  qed
  have "mirrored_sys R dr L s'"
    unfolding mirrored_sys_def using here_a here_b other La Lb by (metis option.inject prod.inject)
  moreover have "abs_lists L s' = abs_gesture (Transfer a b i j) (abs_lists L s)"
  proof (rule ext)
    fix d'
    show "abs_lists L s' d' = abs_gesture (Transfer a b i j) (abs_lists L s) d'"
    proof (cases "L d'")
      case (Some pt)
      obtain p' t' where pt: "pt = (p', t')" by (cases pt)
      consider "d' = a" | "d' = b" | "d' \<noteq> a" "d' \<noteq> b" by blast
      then show ?thesis
      proof cases
        case 3
        then have "t' \<noteq> ta" "t' \<noteq> tb" using layout_okD [OF lo La] layout_okD [OF lo Lb] Some pt by blast+
        then show ?thesis using Some pt La Lb 3 by (simp add: abs_lists_def abs_gesture_def s'_def)
      qed (use La Lb ab it in \<open>simp_all add: abs_lists_def abs_gesture_def\<close>)
    qed (use La Lb in \<open>auto simp: abs_lists_def abs_gesture_def\<close>)
  qed
  ultimately show ?thesis using run by blast
qed

lemma gesture_ok_abs:
  assumes ms: "mirrored_sys R dr L s"
  shows "gesture_ok L g s = abs_ok g (abs_lists L s)"
proof -
  have len: "length (target_items (s_heap s t)) = length (dom_children (s_dom s) p)"
    if "L d = Some (p, t)" for d p t
    using ms that unfolding mirrored_sys_def by (metis dir_mirroredD(5))
  show ?thesis
  proof (cases g)
    case (Reorder d i j)
    then show ?thesis using len [of d]
      by (cases "L d") (auto simp: gesture_ok_def abs_ok_def abs_lists_def)
  next
    case (Transfer a b i j)
    then show ?thesis using len [of a] len [of b]
      by (cases "L a"; cases "L b") (auto simp: gesture_ok_def abs_ok_def abs_lists_def)
  qed
qed

lemma run_gesture_step:
  assumes ok: "gesture_ok L g s" and lo: "layout_ok L" and ms: "mirrored_sys R dr L s"
  shows "\<exists>s'. run_gesture dr L g s = Ok () s' \<and>
              abs_lists L s' = abs_gesture g (abs_lists L s) \<and> mirrored_sys R dr L s'"
proof (cases g)
  case (Reorder d i j)
  then obtain p t where Ld: "L d = Some (p, t)"
    and ij: "i < length (dom_children (s_dom s) p)" "j < length (dom_children (s_dom s) p)"
    using ok by (auto simp: gesture_ok_def split: option.splits)
  show ?thesis using reorder_step [OF lo ms Ld ij] Reorder Ld by (simp add: run_gesture_def)
next
  case (Transfer a b i j)
  then obtain pa ta pb tb where La: "L a = Some (pa, ta)" and Lb: "L b = Some (pb, tb)" and ab: "a \<noteq> b"
    and i: "i < length (dom_children (s_dom s) pa)" and j: "j \<le> length (dom_children (s_dom s) pb)"
    using ok by (auto simp: gesture_ok_def split: option.splits)
  show ?thesis using transfer_step [OF lo ms La Lb ab i j] Transfer La Lb by (simp add: run_gesture_def)
qed

lemma demo_layout_ok: "layout_ok demo_layout"
  by (auto simp: layout_ok_def demo_layout_def split: if_splits)

lemma demo_mirrored: "mirrored_sys (\<lambda>n x. x = Some n) (\<lambda>_. True) demo_layout demo_sys"
  by (auto simp: mirrored_sys_def demo_layout_def demo_sys_def dir_mirrored_def get_bindings_def mirrors_def
        proxy_ok_def options_without_events_def split: if_splits)

text \<open>
  C27: a sequence of drags that is valid on the abstract lists runs without an exception,
  and afterwards the bound collections are the abstract lists with the drags applied in
  order, every list still mirroring its container.
\<close>

theorem run_gestures_refines:
  assumes lo: "layout_ok L" and ms: "mirrored_sys R dr L s" and v: "abs_valid gs (abs_lists L s)"
  shows "\<exists>s'. run_gestures dr L gs s = Ok () s' \<and>
              abs_lists L s' = fold abs_gesture gs (abs_lists L s) \<and> mirrored_sys R dr L s'"
  using ms v
proof (induction gs arbitrary: s)
  case Nil
  then show ?case by simp
next
  case (Cons g gs)
  have "gesture_ok L g s" using Cons.prems by (simp add: gesture_ok_abs)
  then obtain s1 where r1: "run_gesture dr L g s = Ok () s1"
    and a1: "abs_lists L s1 = abs_gesture g (abs_lists L s)" and m1: "mirrored_sys R dr L s1"
    using run_gesture_step [OF _ lo Cons.prems(1)] by blast
  obtain s' where "run_gestures dr L gs s1 = Ok () s'"
    and "abs_lists L s' = fold abs_gesture gs (abs_lists L s1)" and "mirrored_sys R dr L s'"
    using Cons.IH [OF m1] Cons.prems(2) a1 by auto
  then show ?case using r1 a1 by simp
qed

theorem run_gestures_refines_witness:
  "layout_ok demo_layout \<and> mirrored_sys (\<lambda>n x. x = Some n) (\<lambda>_. True) demo_layout demo_sys \<and>
   abs_valid [Reorder 0 0 1, Transfer 0 1 0 1] (abs_lists demo_layout demo_sys) \<and>
   (\<exists>s'. run_gestures (\<lambda>_. True) demo_layout [Reorder 0 0 1, Transfer 0 1 0 1] demo_sys = Ok () s' \<and>
         abs_lists demo_layout s' = [0 \<mapsto> [Some 21], 1 \<mapsto> [Some 31, Some 22]] \<and>
         mirrored_sys (\<lambda>n x. x = Some n) (\<lambda>_. True) demo_layout s')"
proof -
  have v: "abs_valid [Reorder 0 0 1, Transfer 0 1 0 1] (abs_lists demo_layout demo_sys)"
    by (simp add: abs_ok_def abs_gesture_def abs_lists_def demo_layout_def demo_sys_def)
  have f: "fold abs_gesture [Reorder 0 0 1, Transfer 0 1 0 1] (abs_lists demo_layout demo_sys) =
           [0 \<mapsto> [Some 21], 1 \<mapsto> [Some (31::nat), Some 22]]"
    by (auto simp: abs_gesture_def abs_lists_def demo_layout_def demo_sys_def move_item_def fun_eq_iff)
  show ?thesis
    using run_gestures_refines [OF demo_layout_ok demo_mirrored v] v f demo_layout_ok demo_mirrored by simp
qed

text \<open>
  Along every run of valid drags from a state in which each registered list mirrors
  its container, every reached state keeps that mirror, bindings and proxies.
\<close>

theorem gesture_reach_mirrored:
  assumes "gesture_reach dr L s0 s" and "layout_ok L" and "mirrored_sys R dr L s0"
  shows "mirrored_sys R dr L s"
  using assms
proof (induction rule: gesture_reach.induct)
  case (gr_step s0 s g s')
  then obtain s'' where "run_gesture dr L g s = Ok () s''" and "mirrored_sys R dr L s''"
    using run_gesture_step [of L g s R dr] by blast
  then show ?case using gr_step.hyps(3) by simp
qed

theorem gesture_reach_mirrored_witness:
  "\<exists>s. gesture_reach (\<lambda>_. True) demo_layout demo_sys s \<and>
       abs_lists demo_layout s 0 = Some [Some 22, Some 21] \<and>
       mirrored_sys (\<lambda>n x. x = Some n) (\<lambda>_. True) demo_layout s"
proof -
  have ok: "gesture_ok demo_layout (Reorder 0 0 1) demo_sys"
    by (simp add: gesture_ok_def demo_layout_def demo_sys_def)
  obtain s where r: "run_gesture (\<lambda>_. True) demo_layout (Reorder 0 0 1) demo_sys = Ok () s"
    and a: "abs_lists demo_layout s = abs_gesture (Reorder 0 0 1) (abs_lists demo_layout demo_sys)"
    using run_gesture_step [OF ok demo_layout_ok demo_mirrored] by blast
  have reach: "gesture_reach (\<lambda>_. True) demo_layout demo_sys s"
    by (rule gr_step [OF gr_refl ok r])
  have "abs_lists demo_layout s 0 = Some [Some 22, Some 21]"
    using a by (simp add: abs_gesture_def abs_lists_def demo_layout_def demo_sys_def move_item_def)
  then show ?thesis
    using reach gesture_reach_mirrored [OF reach demo_layout_ok demo_mirrored] by blast
qed

end
