(* ===== verification/Lifecycle.thy ===== *)
theory Lifecycle
  imports Directive
begin

text \<open>
  The life of a directive around its Sortable instance: the constructor and the module's
  \<open>forRoot\<close> (where the global options come from), the \<open>options\<close> getter that merges
  them with the intercepting handlers, \<open>ngOnInit\<close> and \<open>create\<close> which defer
  \<open>Sortable.create\<close> to a \<open>setTimeout\<close> callback, \<open>ngOnChanges\<close> which forwards changed
  options to the instance, and \<open>ngOnDestroy\<close>. The state is a \<open>world\<close>: the system of
  the handlers, each directive's element and container inputs, the queue of pending timer
  callbacks, and the \<open>sortablejsInit\<close> emissions. Lifecycle events form a step relation
  whose reachable worlds keep every instance routed through the directive's handlers.
\<close>

subsection \<open>Options (\<open>get options\<close>, lines 77-79, and \<open>overridenOptions\<close>, lines 97-100)\<close>

definition overriden_options :: "string \<rightharpoonup> sortable_opt" where
  "overriden_options =
     [''onAdd'' \<mapsto> Intercept ''onAdd'', ''onRemove'' \<mapsto> Intercept ''onRemove'',
      ''onUpdate'' \<mapsto> Intercept ''onUpdate'']"

definition directive_options :: "'a directive \<Rightarrow> string \<rightharpoonup> sortable_opt" where
  "directive_options d = (map_option UserOpt \<circ> options_without_events d) ++ overriden_options"

subsection \<open>Module and constructor\<close>

text \<open>
  \<open>SortablejsModule.forRoot(globalOptions)\<close> (sortablejs.module.js, lines 4-12) registers
  one provider of the \<open>GLOBALS\<close> token. The directive asks for it as
  \<open>@Optional() @Inject(GLOBALS)\<close> (lines 142-148): Angular's injector gives the value of
  the last provider, and \<open>null\<close> when there is none.
\<close>

datatype provider = GlobalsProvider "options option"

record module_with_providers =
  mwp_providers :: "provider list"

definition for_root :: "options option \<Rightarrow> module_with_providers" where
  "for_root g = \<lparr>mwp_providers = [GlobalsProvider g]\<rparr>"

definition inject_globals :: "provider list \<Rightarrow> options option" where
  "inject_globals ps = (case rev ps of [] \<Rightarrow> None | GlobalsProvider g # _ \<Rightarrow> g)"

text \<open>
  The inputs the handlers do not read: the host element, the \<open>sortablejsContainer\<close>
  selector and \<open>runInsideAngular\<close>.
\<close>

record env =
  e_element :: node
  e_container :: "string option"
  e_run_inside :: bool

text \<open>The constructor, lines 22-30: inputs unset, \<open>runInsideAngular = false\<close>.\<close>

definition sortablejs_directive :: "options option \<Rightarrow> node \<Rightarrow> 'a directive \<times> env" where
  "sortablejs_directive g el =
     (\<lparr>d_sortablejs = NoBinding, d_options = None, d_global = g, d_clone_fn = None, d_instance = None\<rparr>,
      \<lparr>e_element = el, e_container = None, e_run_inside = False\<rparr>)"

subsection \<open>The Sortable instance\<close>

text \<open>
  \<open>Sortable.create(el, options)\<close> throws unless \<open>el\<close> is an element, and derives the
  answer of \<open>group.checkPull\<close> from the options (the function \<open>gp\<close>, Sortable's
  normalisation of the \<open>group\<close> option); \<open>option(name, value)\<close> sets one option and
  normalises again; \<open>destroy()\<close> detaches the instance.
\<close>

definition sortable_create ::
  "((string \<rightharpoonup> sortable_opt) \<Rightarrow> pull_result) \<Rightarrow> node option \<Rightarrow> (string \<rightharpoonup> sortable_opt) \<Rightarrow> sortable_instance option" where
  "sortable_create gp el opts =
     (case el of None \<Rightarrow> None | Some _ \<Rightarrow> Some \<lparr>si_check_pull = gp opts, si_options = opts, si_alive = True\<rparr>)"

definition sortable_set_option ::
  "((string \<rightharpoonup> sortable_opt) \<Rightarrow> pull_result) \<Rightarrow> string \<Rightarrow> sortable_opt option \<Rightarrow> sortable_instance \<Rightarrow> sortable_instance" where
  "sortable_set_option gp k v i =
     (let opts = (si_options i)(k := v) in i\<lparr>si_options := opts, si_check_pull := gp opts\<rparr>)"

definition sortable_destroy :: "sortable_instance \<Rightarrow> sortable_instance" where
  "sortable_destroy i = i\<lparr>si_alive := False\<rparr>"

subsection \<open>The world\<close>

text \<open>
  \<open>w_loaded\<close> is \<open>Sortable && Sortable.create\<close> (false under server-side rendering);
  \<open>w_query el sel\<close> is \<open>el.querySelector(sel)\<close>; \<open>w_timers\<close> holds the pending
  \<open>setTimeout(.., 0)\<close> callbacks of \<open>create\<close> in firing order, each with its directive and
  the container it captured; \<open>w_inits\<close> records the \<open>sortablejsInit\<close> emissions.
\<close>

record 'a world =
  w_sys :: "'a sys"
  w_env :: "dir_id \<Rightarrow> env"
  w_loaded :: bool
  w_query :: "node \<Rightarrow> string \<Rightarrow> node option"
  w_group_pull :: "(string \<rightharpoonup> sortable_opt) \<Rightarrow> pull_result"
  w_timers :: "(dir_id \<times> node option) list"
  w_inits :: "dir_id list"

definition dir_of :: "'a world \<Rightarrow> dir_id \<Rightarrow> 'a directive" where
  "dir_of w d = s_dirs (w_sys w) d"

definition set_instance :: "dir_id \<Rightarrow> sortable_instance option \<Rightarrow> 'a world \<Rightarrow> 'a world" where
  "set_instance d i w =
     w\<lparr>w_sys := (w_sys w)\<lparr>s_dirs := (s_dirs (w_sys w))(d := (dir_of w d)\<lparr>d_instance := i\<rparr>)\<rparr>\<rparr>"

subsection \<open>Lifecycle hooks\<close>

text \<open>
  \<open>create()\<close>, lines 58-65: the container is the element matching a truthy
  \<open>sortablejsContainer\<close> selector, else the host element; the instance is made later,
  by the timer callback (\<open>fire_timer\<close>), which reads \<open>this.options\<close> when it runs.
\<close>

definition create :: "dir_id \<Rightarrow> 'a world \<Rightarrow> 'a world" where
  "create d w =
     (let e = w_env w d;
          container = (case e_container e of
                         Some sel \<Rightarrow> if sel \<noteq> [] then w_query w (e_element e) sel else Some (e_element e)
                       | None \<Rightarrow> Some (e_element e))
      in w\<lparr>w_timers := w_timers w @ [(d, container)]\<rparr>)"

definition fire_timer :: "'a world \<Rightarrow> (unit, 'a world) res" where
  "fire_timer w =
     (case w_timers w of
        [] \<Rightarrow> Ok () w
      | (d, c) # rest \<Rightarrow>
          (let w1 = w\<lparr>w_timers := rest\<rparr>
           in case sortable_create (w_group_pull w1) c (directive_options (dir_of w1 d)) of
                None \<Rightarrow> Exn NotAnElement w1
              | Some i \<Rightarrow> Ok () ((set_instance d (Some i) w1)\<lparr>w_inits := w_inits w1 @ [d]\<rparr>)))"

text \<open>
  \<open>ngOnInit()\<close>, lines 31-40: both branches call \<open>create\<close>, inside or outside
  Angular's zone (zones only decide when change detection runs, which is not modelled).
\<close>

definition ng_on_init :: "dir_id \<Rightarrow> 'a world \<Rightarrow> 'a world" where
  "ng_on_init d w = (if w_loaded w then create d w else w)"

text \<open>\<open>ngOnDestroy()\<close>, lines 53-57: the pending timer callback is not cancelled.\<close>

definition ng_on_destroy :: "dir_id \<Rightarrow> 'a world \<Rightarrow> 'a world" where
  "ng_on_destroy d w =
     (case d_instance (dir_of w d) of None \<Rightarrow> w | Some i \<Rightarrow> set_instance d (Some (sortable_destroy i)) w)"

text \<open>
  \<open>ngOnChanges(changes)\<close>, lines 41-52. A change of the \<open>sortablejsOptions\<close> input
  carries the previous and the current object (\<open>undefined\<close> is \<open>None\<close>), the keys of
  the current object in their order (\<open>Object.keys\<close>) and whether it is the first change.
  Angular has already stored the current value in the input. Every key whose value
  changed (\<open>!==\<close>) is forwarded with the value of \<open>this.options\<close>; reading a key of
  \<open>undefined\<close> and calling \<open>option\<close> on the absent instance throw.
\<close>

record options_change =
  oc_previous :: "options option"
  oc_current :: "options option"
  oc_keys :: "string list"
  oc_first :: bool

fun forward_changed :: "dir_id \<Rightarrow> options option \<Rightarrow> options \<Rightarrow> string list \<Rightarrow> 'a world \<Rightarrow> (unit, 'a world) res" where
  "forward_changed d prev cur [] w = Ok () w"
| "forward_changed d prev cur (k # ks) w =
     (case prev of
        None \<Rightarrow> Exn NotAnObject w
      | Some p \<Rightarrow>
          if cur k \<noteq> p k then
            (case d_instance (dir_of w d) of
               None \<Rightarrow> Exn NoSortableInstance w
             | Some i \<Rightarrow> forward_changed d prev cur ks
                           (set_instance d (Some (sortable_set_option (w_group_pull w) k
                                                    (directive_options (dir_of w d) k) i)) w))
          else forward_changed d prev cur ks w)"

definition ng_on_changes :: "dir_id \<Rightarrow> options_change option \<Rightarrow> 'a world \<Rightarrow> (unit, 'a world) res" where
  "ng_on_changes d ch w =
     (case ch of
        None \<Rightarrow> Ok () w
      | Some c \<Rightarrow>
          if oc_first c then Ok () w
          else (case oc_current c of
                  None \<Rightarrow> Exn NotAnObject w
                | Some cur \<Rightarrow> forward_changed d (oc_previous c) cur (oc_keys c) w))"

text \<open>Angular stores the new input value, then calls \<open>ngOnChanges\<close>.\<close>

definition options_input :: "dir_id \<Rightarrow> options_change \<Rightarrow> 'a world \<Rightarrow> (unit, 'a world) res" where
  "options_input d c w =
     ng_on_changes d (Some c)
       (w\<lparr>w_sys := (w_sys w)\<lparr>s_dirs := (s_dirs (w_sys w))(d := (dir_of w d)\<lparr>d_options := oc_current c\<rparr>)\<rparr>\<rparr>)"

subsection \<open>Auxiliary notions of the proofs\<close>

text \<open>
  The three events the directive intercepts; the instance's options after a run of
  \<open>option\<close> calls over a key list; and the invariant that every instance routes the
  intercepted events to the directive.
\<close>

definition intercept_keys :: "string list" where
  "intercept_keys = [''onAdd'', ''onRemove'', ''onUpdate'']"

definition changed_options ::
  "((string \<rightharpoonup> sortable_opt) \<Rightarrow> pull_result) \<Rightarrow> (string \<rightharpoonup> sortable_opt) \<Rightarrow> options \<Rightarrow> options \<Rightarrow>
   string list \<Rightarrow> sortable_instance \<Rightarrow> sortable_instance" where
  "changed_options gp opts p cur ks i =
     fold (\<lambda>k i. if cur k \<noteq> p k then sortable_set_option gp k (opts k) i else i) ks i"

definition routed :: "'a world \<Rightarrow> bool" where
  "routed w \<longleftrightarrow>
     (\<forall>d i. d_instance (dir_of w d) = Some i \<longrightarrow> (\<forall>k \<in> set intercept_keys. si_options i k = Some (Intercept k)))"

subsection \<open>Lifecycle events as a step relation\<close>

datatype lc_event = Init dir_id | Fire | Destroy dir_id | OptionsInput dir_id options_change

definition lc_step :: "lc_event \<Rightarrow> 'a world \<Rightarrow> (unit, 'a world) res" where
  "lc_step e w =
     (case e of
        Init d \<Rightarrow> Ok () (ng_on_init d w)
      | Fire \<Rightarrow> fire_timer w
      | Destroy d \<Rightarrow> Ok () (ng_on_destroy d w)
      | OptionsInput d c \<Rightarrow> options_input d c w)"

text \<open>Worlds reachable by lifecycle events; an event that throws leaves its state behind.\<close>

inductive lc_reach :: "'a world \<Rightarrow> 'a world \<Rightarrow> bool" where
  lc_refl: "lc_reach w w"
| lc_ok: "lc_reach w0 w \<Longrightarrow> lc_step e w = Ok () w' \<Longrightarrow> lc_reach w0 w'"
| lc_exn: "lc_reach w0 w \<Longrightarrow> lc_step e w = Exn err w' \<Longrightarrow> lc_reach w0 w'"

subsection \<open>Frame lemmas and the closed form of \<open>ngOnChanges\<close>\<close>

lemma dir_of_set_instance [simp]:
  "dir_of (set_instance d i w) d' = (if d' = d then (dir_of w d)\<lparr>d_instance := i\<rparr> else dir_of w d')"
  by (simp add: set_instance_def dir_of_def)

lemma set_instance_fields [simp]:
  "w_group_pull (set_instance d i w) = w_group_pull w"
  "w_timers (set_instance d i w) = w_timers w"
  "w_inits (set_instance d i w) = w_inits w"
  "w_env (set_instance d i w) = w_env w"
  "w_loaded (set_instance d i w) = w_loaded w"
  by (simp_all add: set_instance_def)

lemma set_instance_set_instance [simp]:
  "set_instance d i (set_instance d j w) = set_instance d i w"
  by (simp add: set_instance_def dir_of_def)

lemma set_instance_same:
  "d_instance (dir_of w d) = i \<Longrightarrow> set_instance d i w = w"
  unfolding set_instance_def dir_of_def by (auto simp: fun_upd_idem)

lemma options_without_events_instance [simp]:
  "options_without_events (d\<lparr>d_instance := i\<rparr>) = options_without_events d"
  by (simp add: options_without_events_def)

lemma directive_options_instance [simp]:
  "directive_options (d\<lparr>d_instance := i\<rparr>) = directive_options d"
  by (simp add: directive_options_def)

lemma directive_options_eq:
  "directive_options d k =
     (if k \<in> set intercept_keys then Some (Intercept k) else map_option UserOpt (options_without_events d k))"
  by (auto simp: directive_options_def overriden_options_def intercept_keys_def map_add_def
      split: option.splits)

lemma directive_options_intercept [simp]:
  "k \<in> set intercept_keys \<Longrightarrow> directive_options d k = Some (Intercept k)"
  by (simp add: directive_options_eq)

lemma forward_changed_ok:
  "d_instance (dir_of w d) = Some i \<Longrightarrow>
   forward_changed d (Some p) cur ks w =
     Ok () (set_instance d (Some (changed_options (w_group_pull w) (directive_options (dir_of w d)) p cur ks i)) w)"
proof (induction ks arbitrary: w i)
  case Nil
  then show ?case
    by (simp add: changed_options_def set_instance_same)
next
  case (Cons k ks)
  show ?case
  proof (cases "cur k = p k")
    case True
    then show ?thesis using Cons by (simp add: changed_options_def)
  next
    case False
    let ?i' = "sortable_set_option (w_group_pull w) k (directive_options (dir_of w d) k) i"
    have "forward_changed d (Some p) cur ks (set_instance d (Some ?i') w) =
            Ok () (set_instance d (Some (changed_options (w_group_pull w) (directive_options (dir_of w d)) p cur ks ?i'))
                     (set_instance d (Some ?i') w))"
      using Cons.IH [of "set_instance d (Some ?i') w" ?i'] by simp
    then show ?thesis using False Cons.prems by (simp add: changed_options_def)
  qed
qed

lemma si_options_changed:
  "si_options (changed_options gp opts p cur ks i) k =
     (if k \<in> set ks \<and> cur k \<noteq> p k then opts k else si_options i k)"
  by (induction ks arbitrary: i) (auto simp: changed_options_def sortable_set_option_def Let_def)

lemma forward_changed_no_instance:
  "d_instance (dir_of w d) = None \<Longrightarrow> \<exists>k \<in> set ks. cur k \<noteq> p k \<Longrightarrow>
   forward_changed d (Some p) cur ks w = Exn NoSortableInstance w"
  by (induction ks) auto

lemma routed_set_instance:
  "routed w \<Longrightarrow> (\<forall>k \<in> set intercept_keys. si_options i k = Some (Intercept k)) \<Longrightarrow>
   routed (set_instance d (Some i) w)"
  by (auto simp: routed_def)

lemma routed_sortable_set_option:
  "\<forall>k \<in> set intercept_keys. si_options i k = Some (Intercept k) \<Longrightarrow>
   \<forall>k \<in> set intercept_keys. si_options (sortable_set_option gp k' (directive_options dir k') i) k = Some (Intercept k)"
  by (auto simp: sortable_set_option_def Let_def)

lemma routed_forward_changed:
  "routed w \<Longrightarrow> routed (res_state (forward_changed d prev cur ks w))"
proof (induction ks arbitrary: w)
  case (Cons k ks)
  have "routed (set_instance d (Some (sortable_set_option (w_group_pull w) k (directive_options (dir_of w d) k) i)) w)"
    if "d_instance (dir_of w d) = Some i" for i
    using Cons.prems that routed_sortable_set_option routed_set_instance by (metis routed_def)
  then show ?case
    using Cons by (auto split: option.splits)
qed simp

lemma routed_fields:
  "routed (w\<lparr>w_timers := ts\<rparr>) = routed w" "routed (w\<lparr>w_inits := ns\<rparr>) = routed w"
  by (simp_all add: routed_def dir_of_def)

lemma routed_options_input:
  "routed w \<Longrightarrow>
   routed (w\<lparr>w_sys := (w_sys w)\<lparr>s_dirs := (s_dirs (w_sys w))(d := (dir_of w d)\<lparr>d_options := u\<rparr>)\<rparr>\<rparr>)"
  by (auto simp: routed_def dir_of_def)

lemma routed_step: "routed w \<Longrightarrow> routed (res_state (lc_step e w))"
proof (cases e)
  case (Init d)
  assume "routed w" then show ?thesis
    using Init by (simp add: lc_step_def ng_on_init_def create_def Let_def routed_fields)
next
  case Fire
  assume r: "routed w"
  show ?thesis
  proof (cases "w_timers w")
    case (Cons t rest)
    then show ?thesis
      using Fire r routed_set_instance [of "w\<lparr>w_timers := rest\<rparr>"]
      by (auto simp: lc_step_def fire_timer_def sortable_create_def routed_fields Let_def split: option.splits prod.splits)
  qed (use Fire r in \<open>simp add: lc_step_def fire_timer_def\<close>)
next
  case (Destroy d)
  assume "routed w" then show ?thesis
    using Destroy
    by (auto simp: lc_step_def ng_on_destroy_def sortable_destroy_def routed_def split: option.splits)
next
  case (OptionsInput d c)
  assume "routed w" then show ?thesis
    using OptionsInput routed_options_input [OF \<open>routed w\<close>, of d "oc_current c"]
      routed_forward_changed [OF routed_options_input [OF \<open>routed w\<close>, of d "oc_current c"]]
    by (auto simp: lc_step_def options_input_def ng_on_changes_def split: option.splits)
qed

text \<open>
  C14: in every world reachable by lifecycle events (initialisation, the deferred
  creation, option changes, destruction, including events that throw) from a world whose
  Sortable instances route \<open>onAdd\<close>, \<open>onRemove\<close> and \<open>onUpdate\<close> to the directive,
  every instance still does: no application option can replace the intercepting
  handlers that keep the bound data in step.
\<close>

theorem lifecycle_keeps_routing:
  assumes "lc_reach w0 w" and "routed w0"
  shows "routed w"
  using assms
proof (induction rule: lc_reach.induct)
  case (lc_ok w0 w e w')
  then show ?case using routed_step [of w e] by simp
next
  case (lc_exn w0 w e err w')
  then show ?case using routed_step [of w e] by simp
qed

lemma lc_reach_step: "lc_reach w0 w \<Longrightarrow> lc_reach w0 (res_state (lc_step e w))"
  by (cases "lc_step e w") (auto intro: lc_ok lc_exn)

lemma dir_of_create [simp]: "dir_of (create d' w) = dir_of w"
  by (simp add: create_def dir_of_def Let_def fun_eq_iff)

lemma w_timers_create [simp]:
  "w_timers (create d w) = w_timers w @ [(d, case e_container (w_env w d) of
     Some sel \<Rightarrow> if sel \<noteq> [] then w_query w (e_element (w_env w d)) sel else Some (e_element (w_env w d))
   | None \<Rightarrow> Some (e_element (w_env w d)))]"
  by (simp add: create_def Let_def)

lemma dir_of_fields [simp]:
  "dir_of (w\<lparr>w_timers := ts\<rparr>) = dir_of w" "dir_of (w\<lparr>w_inits := ns\<rparr>) = dir_of w"
  by (simp_all add: dir_of_def fun_eq_iff)

lemma create_fields [simp]:
  "w_group_pull (create d w) = w_group_pull w" "w_inits (create d w) = w_inits w"
  "w_env (create d w) = w_env w" "w_loaded (create d w) = w_loaded w" "w_query (create d w) = w_query w"
  by (simp_all add: create_def Let_def)

theorem lifecycle_keeps_routing_witness:
  "routed (res_state (lc_step (OptionsInput 0 \<lparr>oc_previous = Some Map.empty, oc_current = Some [''onAdd'' \<mapsto> JsFun 1],
                                                oc_keys = [''onAdd''], oc_first = False\<rparr>)
            (res_state (lc_step Fire (res_state (lc_step (Init 0)
              \<lparr>w_sys = \<lparr>s_heap = \<lambda>_. JsArray ([] :: nat jsval list),
                        s_dom = \<lparr>dom_children = \<lambda>_. [], dom_parent = Map.empty\<rparr>,
                        s_dirs = \<lambda>_. fst (sortablejs_directive None 5), s_transfer = None, s_calls = []\<rparr>,
               w_env = \<lambda>_. snd (sortablejs_directive None 5), w_loaded = True, w_query = \<lambda>_ _. None,
               w_group_pull = \<lambda>_. PullTrue, w_timers = [], w_inits = []\<rparr>))))))"
  by (rule lifecycle_keeps_routing [OF lc_reach_step [OF lc_reach_step [OF lc_reach_step [OF lc_refl]]]])
     (simp add: routed_def dir_of_def sortablejs_directive_def)

text \<open>
  C15: \<open>ngOnDestroy\<close> does not cancel the timer scheduled by \<open>ngOnInit\<close>. When the
  directive is destroyed before the timer fires, the callback still creates a live
  Sortable instance on the destroyed directive's element and emits \<open>sortablejsInit\<close>.
\<close>

theorem destroy_before_timer_leaks:
  assumes "w_loaded w" and "w_timers w = []" and "e_container (w_env w d) = None"
    and "d_instance (dir_of w d) = None"
  shows "\<exists>w' i. fire_timer (ng_on_destroy d (ng_on_init d w)) = Ok () w' \<and>
                d_instance (dir_of w' d) = Some i \<and> si_alive i \<and> w_inits w' = w_inits w @ [d]"
  using assms
  by (simp add: ng_on_init_def ng_on_destroy_def fire_timer_def sortable_create_def Let_def)

theorem destroy_before_timer_leaks_witness:
  "\<exists>w' i. fire_timer (ng_on_destroy 0 (ng_on_init 0
              \<lparr>w_sys = \<lparr>s_heap = \<lambda>_. JsArray ([] :: nat jsval list),
                        s_dom = \<lparr>dom_children = \<lambda>_. [], dom_parent = Map.empty\<rparr>,
                        s_dirs = \<lambda>_. fst (sortablejs_directive None 5), s_transfer = None, s_calls = []\<rparr>,
               w_env = \<lambda>_. snd (sortablejs_directive None 5), w_loaded = True, w_query = \<lambda>_ _. None,
               w_group_pull = \<lambda>_. PullTrue, w_timers = [], w_inits = []\<rparr>)) = Ok () w' \<and>
          d_instance (dir_of w' 0) = Some i \<and> si_alive i \<and> w_inits w' = [0]"
  using destroy_before_timer_leaks [of "\<lparr>w_sys = \<lparr>s_heap = \<lambda>_. JsArray ([] :: nat jsval list),
                        s_dom = \<lparr>dom_children = \<lambda>_. [], dom_parent = Map.empty\<rparr>,
                        s_dirs = \<lambda>_. fst (sortablejs_directive None 5), s_transfer = None, s_calls = []\<rparr>,
               w_env = \<lambda>_. snd (sortablejs_directive None 5), w_loaded = True, w_query = \<lambda>_ _. None,
               w_group_pull = \<lambda>_. PullTrue, w_timers = [], w_inits = []\<rparr>" 0]
  by (simp add: sortablejs_directive_def dir_of_def)

text \<open>
  C16: a later change of the \<open>sortablejsOptions\<close> input forwards to the live instance
  exactly the keys of the new object whose value changed, each with the directive's
  merged value (an intercepted event keeps its intercepting handler); every other option
  of the instance, including one removed from the new object, keeps its old value.
\<close>

theorem options_input_forwards:
  assumes "d_instance (dir_of w d) = Some i" and "\<not> oc_first c"
    and "oc_previous c = Some p" and "oc_current c = Some cur"
  shows "\<exists>i'. options_input d c w =
                Ok () (set_instance d (Some i')
                  (w\<lparr>w_sys := (w_sys w)\<lparr>s_dirs := (s_dirs (w_sys w))(d := (dir_of w d)\<lparr>d_options := Some cur\<rparr>)\<rparr>\<rparr>)) \<and>
              (\<forall>k. si_options i' k =
                     (if k \<in> set (oc_keys c) \<and> cur k \<noteq> p k
                      then directive_options ((dir_of w d)\<lparr>d_options := Some cur\<rparr>) k else si_options i k))"
proof -
  let ?w1 = "w\<lparr>w_sys := (w_sys w)\<lparr>s_dirs := (s_dirs (w_sys w))(d := (dir_of w d)\<lparr>d_options := Some cur\<rparr>)\<rparr>\<rparr>"
  have i1: "d_instance (dir_of ?w1 d) = Some i" using assms(1) by (simp add: dir_of_def)
  have d1: "dir_of ?w1 d = (dir_of w d)\<lparr>d_options := Some cur\<rparr>" by (simp add: dir_of_def)
  let ?i' = "changed_options (w_group_pull w) (directive_options ((dir_of w d)\<lparr>d_options := Some cur\<rparr>))
               p cur (oc_keys c) i"
  have run: "options_input d c w = Ok () (set_instance d (Some ?i') ?w1)"
    using forward_changed_ok [OF i1, of p cur "oc_keys c"] assms(2-4)
    by (simp add: options_input_def ng_on_changes_def d1)
  show ?thesis
    using run by (intro exI [of _ ?i']) (simp add: si_options_changed)
qed

theorem options_input_forwards_witness:
  "\<exists>i' w'. options_input 0 \<lparr>oc_previous = Some [''disabled'' \<mapsto> JsBool True, ''animation'' \<mapsto> JsNum 150], oc_current = Some [''animation'' \<mapsto> JsNum 200], oc_keys = [''animation''], oc_first = False\<rparr>
          \<lparr>w_sys = \<lparr>s_heap = \<lambda>_. JsArray ([] :: nat jsval list),
                    s_dom = \<lparr>dom_children = \<lambda>_. [], dom_parent = Map.empty\<rparr>,
                    s_dirs = \<lambda>_. \<lparr>d_sortablejs = NoBinding, d_options = Some [''disabled'' \<mapsto> JsBool True, ''animation'' \<mapsto> JsNum 150],
                                  d_global = None, d_clone_fn = None, d_instance = Some \<lparr>si_check_pull = PullTrue, si_options = [''disabled'' \<mapsto> UserOpt (JsBool True), ''animation'' \<mapsto> UserOpt (JsNum 150)], si_alive = True\<rparr>\<rparr>,
                    s_transfer = None, s_calls = []\<rparr>,
           w_env = \<lambda>_. snd (sortablejs_directive None 5), w_loaded = True, w_query = \<lambda>_ _. None,
           w_group_pull = \<lambda>_. PullTrue, w_timers = [], w_inits = []\<rparr> = Ok () w' \<and> d_instance (dir_of w' 0) = Some i' \<and>
        si_options i' ''disabled'' = Some (UserOpt (JsBool True)) \<and>
        si_options i' ''animation'' = Some (UserOpt (JsNum 200))"
  using options_input_forwards [where w = "\<lparr>w_sys = \<lparr>s_heap = \<lambda>_. JsArray ([] :: nat jsval list),
                    s_dom = \<lparr>dom_children = \<lambda>_. [], dom_parent = Map.empty\<rparr>,
                    s_dirs = \<lambda>_. \<lparr>d_sortablejs = NoBinding, d_options = Some [''disabled'' \<mapsto> JsBool True, ''animation'' \<mapsto> JsNum 150],
                                  d_global = None, d_clone_fn = None, d_instance = Some \<lparr>si_check_pull = PullTrue, si_options = [''disabled'' \<mapsto> UserOpt (JsBool True), ''animation'' \<mapsto> UserOpt (JsNum 150)], si_alive = True\<rparr>\<rparr>,
                    s_transfer = None, s_calls = []\<rparr>,
           w_env = \<lambda>_. snd (sortablejs_directive None 5), w_loaded = True, w_query = \<lambda>_ _. None,
           w_group_pull = \<lambda>_. PullTrue, w_timers = [], w_inits = []\<rparr>" and d = 0 and c = "\<lparr>oc_previous = Some [''disabled'' \<mapsto> JsBool True, ''animation'' \<mapsto> JsNum 150], oc_current = Some [''animation'' \<mapsto> JsNum 200], oc_keys = [''animation''], oc_first = False\<rparr>" and i = "\<lparr>si_check_pull = PullTrue, si_options = [''disabled'' \<mapsto> UserOpt (JsBool True), ''animation'' \<mapsto> UserOpt (JsNum 150)], si_alive = True\<rparr>"
      and p = "[''disabled'' \<mapsto> JsBool True, ''animation'' \<mapsto> JsNum 150]" and cur = "[''animation'' \<mapsto> JsNum 200]"]
  apply (simp add: dir_of_def)
  apply (elim exE conjE)
  apply (rule_tac x = i' in exI)
  apply (intro exI conjI, assumption)
  apply (simp_all add: dir_of_def set_instance_def directive_options_eq intercept_keys_def options_without_events_def)
  done

text \<open>
  C17: a change of the options input that arrives after \<open>ngOnInit\<close> but before the
  timer created the instance throws a TypeError when a key changed, since
  \<open>ngOnChanges\<close> calls \<open>option\<close> on the undefined \<open>sortableInstance\<close>.
\<close>

theorem options_change_before_timer_throws:
  assumes "d_instance (dir_of w d) = None" and "\<not> oc_first c"
    and "oc_previous c = Some p" and "oc_current c = Some cur"
    and "k \<in> set (oc_keys c)" and "cur k \<noteq> p k"
  shows "\<exists>w'. options_input d c w = Exn NoSortableInstance w'"
proof -
  let ?w1 = "w\<lparr>w_sys := (w_sys w)\<lparr>s_dirs := (s_dirs (w_sys w))(d := (dir_of w d)\<lparr>d_options := Some cur\<rparr>)\<rparr>\<rparr>"
  have "d_instance (dir_of ?w1 d) = None" using assms(1) by (simp add: dir_of_def)
  then have "forward_changed d (Some p) cur (oc_keys c) ?w1 = Exn NoSortableInstance ?w1"
    using assms(5,6) by (blast intro: forward_changed_no_instance)
  then show ?thesis using assms(2-4) by (simp add: options_input_def ng_on_changes_def)
qed

theorem options_change_before_timer_throws_witness:
  "\<exists>w'. options_input 0 \<lparr>oc_previous = Some [''disabled'' \<mapsto> JsBool True, ''animation'' \<mapsto> JsNum 150], oc_current = Some [''animation'' \<mapsto> JsNum 200], oc_keys = [''animation''], oc_first = False\<rparr>
          \<lparr>w_sys = \<lparr>s_heap = \<lambda>_. JsArray ([] :: nat jsval list),
                    s_dom = \<lparr>dom_children = \<lambda>_. [], dom_parent = Map.empty\<rparr>,
                    s_dirs = \<lambda>_. \<lparr>d_sortablejs = NoBinding, d_options = Some [''disabled'' \<mapsto> JsBool True, ''animation'' \<mapsto> JsNum 150],
                                  d_global = None, d_clone_fn = None, d_instance = None\<rparr>,
                    s_transfer = None, s_calls = []\<rparr>,
           w_env = \<lambda>_. snd (sortablejs_directive None 5), w_loaded = True, w_query = \<lambda>_ _. None,
           w_group_pull = \<lambda>_. PullTrue, w_timers = [], w_inits = []\<rparr> = Exn NoSortableInstance w'"
  using options_change_before_timer_throws [where w = "\<lparr>w_sys = \<lparr>s_heap = \<lambda>_. JsArray ([] :: nat jsval list),
                    s_dom = \<lparr>dom_children = \<lambda>_. [], dom_parent = Map.empty\<rparr>,
                    s_dirs = \<lambda>_. \<lparr>d_sortablejs = NoBinding, d_options = Some [''disabled'' \<mapsto> JsBool True, ''animation'' \<mapsto> JsNum 150],
                                  d_global = None, d_clone_fn = None, d_instance = None\<rparr>,
                    s_transfer = None, s_calls = []\<rparr>,
           w_env = \<lambda>_. snd (sortablejs_directive None 5), w_loaded = True, w_query = \<lambda>_ _. None,
           w_group_pull = \<lambda>_. PullTrue, w_timers = [], w_inits = []\<rparr>" and d = 0 and c = "\<lparr>oc_previous = Some [''disabled'' \<mapsto> JsBool True, ''animation'' \<mapsto> JsNum 150], oc_current = Some [''animation'' \<mapsto> JsNum 200], oc_keys = [''animation''], oc_first = False\<rparr>"
      and p = "[''disabled'' \<mapsto> JsBool True, ''animation'' \<mapsto> JsNum 150]" and cur = "[''animation'' \<mapsto> JsNum 200]" and k = "''animation''"]
  by (simp add: dir_of_def)

text \<open>
  A directive of a module imported with \<open>SortablejsModule.forRoot(g)\<close> passes to
  Sortable its own options over the global options \<open>g\<close>, except for the three events
  it intercepts.
\<close>

theorem for_root_options:
  "directive_options ((fst (sortablejs_directive (inject_globals (mwp_providers (for_root (Some g)))) el))
                       \<lparr>d_options := Some u\<rparr>) k =
     (if k \<in> set intercept_keys then Some (Intercept k)
      else map_option UserOpt (case u k of Some v \<Rightarrow> Some v | None \<Rightarrow> g k))"
  by (simp add: directive_options_eq for_root_def inject_globals_def sortablejs_directive_def
      options_without_events_def map_add_def)

end
