(* ===== verification/Event_Loop.thy ===== *)
theory Event_Loop
  imports Lifecycle
begin

text \<open>
  The browser's event loop over the timer callbacks that \<open>create\<close> (esm 58-65)
  schedules: \<open>run_timers\<close> runs the pending callbacks in order until none is left. An
  exception thrown by a callback (Sortable rejecting a missing container) is reported
  by the browser and the loop goes on with the state the callback left. The loop
  terminates because each callback removes itself and schedules nothing; the proofs show
  what the drained queue leaves behind.
\<close>

function run_timers :: "'a world \<Rightarrow> 'a world" where
  "run_timers w = (if w_timers w = [] then w else run_timers (res_state (fire_timer w)))"
  by pat_completeness auto
termination
  by (relation "measure (\<lambda>w. length (w_timers w))")
     (auto simp: fire_timer_def Let_def sortable_create_def neq_Nil_conv split: option.splits)

definition live_instance :: "'a world \<Rightarrow> dir_id \<Rightarrow> bool" where
  "live_instance w d \<longleftrightarrow>
     (case d_instance (dir_of w d) of
        None \<Rightarrow> False
      | Some i \<Rightarrow> si_alive i \<and> si_options i = directive_options (dir_of w d))"

declare run_timers.simps [simp del]

lemma fire_timer_cases:
  assumes "w_timers w = (d, c) # rest"
  shows "res_state (fire_timer w) =
           (case c of
              None \<Rightarrow> w\<lparr>w_timers := rest\<rparr>
            | Some _ \<Rightarrow> (set_instance d (Some \<lparr>si_check_pull = w_group_pull w (directive_options (dir_of w d)),
                                           si_options = directive_options (dir_of w d), si_alive = True\<rparr>)
                          (w\<lparr>w_timers := rest\<rparr>))\<lparr>w_inits := w_inits w @ [d]\<rparr>)"
  using assms by (simp add: fire_timer_def sortable_create_def split: option.splits)

text \<open>
  C22: the event loop terminates with no pending callback, and \<open>sortablejsInit\<close> has
  been emitted once for each scheduled creation whose container existed, in scheduling
  order.
\<close>

theorem event_loop_drains:
  "w_timers (run_timers w) = [] \<and>
   w_inits (run_timers w) = w_inits w @ [d. (d, Some c) \<leftarrow> w_timers w]"
proof (induction w rule: run_timers.induct)
  case (1 w)
  show ?case
  proof (cases "w_timers w")
    case Nil
    then show ?thesis by (simp add: run_timers.simps)
  next
    case (Cons t rest)
    obtain d c where t: "t = (d, c)" by (cases t)
    have "w_timers (run_timers (res_state (fire_timer w))) = [] \<and>
          w_inits (run_timers (res_state (fire_timer w))) =
            w_inits (res_state (fire_timer w)) @ [d. (d, Some c) \<leftarrow> w_timers (res_state (fire_timer w))]"
      using "1.IH" Cons by simp
    then show ?thesis
      using Cons t fire_timer_cases [of w d c rest]
      by (simp add: run_timers.simps [of w] split: option.splits)
  qed
qed

lemma live_instance_fields [simp]:
  "live_instance (w\<lparr>w_timers := ts\<rparr>) = live_instance w" "live_instance (w\<lparr>w_inits := ns\<rparr>) = live_instance w"
  by (simp_all add: live_instance_def dir_of_def fun_eq_iff split: option.split)

lemma live_instance_set_other [simp]:
  "d' \<noteq> d \<Longrightarrow> live_instance (set_instance d' i w) d = live_instance w d"
  by (simp add: live_instance_def dir_of_def set_instance_def split: option.split)

lemma live_instance_set_same [simp]:
  "live_instance (set_instance d (Some i) w) d \<longleftrightarrow> si_alive i \<and> si_options i = directive_options (dir_of w d)"
  by (simp add: live_instance_def)

lemma run_timers_live:
  "live_instance w d \<or> (\<exists>c. (d, Some c) \<in> set (w_timers w)) \<Longrightarrow> live_instance (run_timers w) d"
proof (induction w rule: run_timers.induct)
  case (1 w)
  show ?case
  proof (cases "w_timers w")
    case Nil
    then show ?thesis using "1.prems" by (simp add: run_timers.simps)
  next
    case (Cons t rest)
    obtain d' c' where t: "t = (d', c')" by (cases t)
    have "live_instance (res_state (fire_timer w)) d \<or>
          (\<exists>c. (d, Some c) \<in> set (w_timers (res_state (fire_timer w))))"
      using "1.prems" Cons t fire_timer_cases [of w d' c' rest]
      by (cases c'; cases "d' = d") auto
    then have "live_instance (run_timers (res_state (fire_timer w))) d"
      using "1.IH" Cons by simp
    then show ?thesis using Cons by (simp add: run_timers.simps [of w])
  qed
qed

lemma run_timers_options:
  "directive_options (dir_of (run_timers w) d) = directive_options (dir_of w d)"
proof (induction w rule: run_timers.induct)
  case (1 w)
  show ?case
  proof (cases "w_timers w")
    case Nil
    then show ?thesis by (simp add: run_timers.simps)
  next
    case (Cons t rest)
    obtain d' c' where t: "t = (d', c')" by (cases t)
    have "directive_options (dir_of (res_state (fire_timer w)) d) = directive_options (dir_of w d)"
      using Cons t fire_timer_cases [of w d' c' rest] by (simp split: option.splits)
    then show ?thesis using "1.IH" Cons by (simp add: run_timers.simps [of w])
  qed
qed

text \<open>
  C23: every scheduled creation whose container exists eventually gives its directive a
  live Sortable instance carrying the directive's merged options, whatever else is queued.
\<close>

theorem scheduled_create_yields_instance:
  assumes "(d, Some c) \<in> set (w_timers w)"
  shows "\<exists>i. d_instance (dir_of (run_timers w) d) = Some i \<and> si_alive i \<and>
             si_options i = directive_options (dir_of w d)"
proof -
  have "live_instance (run_timers w) d" using assms by (blast intro: run_timers_live)
  then show ?thesis using run_timers_options [of w d] by (auto simp: live_instance_def split: option.splits)
qed

text \<open>
  C24: when the \<open>sortablejsContainer\<close> selector matches nothing, \<open>create\<close> still
  schedules the callback; \<open>Sortable.create\<close> then throws inside the timer, and after the
  event loop the directive has no instance and no \<open>sortablejsInit\<close> was emitted.
\<close>

theorem unmatched_container_stays_inert:
  assumes "w_loaded w" and "w_timers w = []" and "e_container (w_env w d) = Some sel" and "sel \<noteq> []"
    and "w_query w (e_element (w_env w d)) sel = None" and "d_instance (dir_of w d) = None"
  shows "\<exists>w'. fire_timer (ng_on_init d w) = Exn NotAnElement w' \<and>
              d_instance (dir_of (run_timers (ng_on_init d w)) d) = None \<and>
              w_inits (run_timers (ng_on_init d w)) = w_inits w"
proof -
  have t: "w_timers (ng_on_init d w) = [(d, None)]"
    using assms(1-5) by (simp add: ng_on_init_def)
  have f: "fire_timer (ng_on_init d w) = Exn NotAnElement ((ng_on_init d w)\<lparr>w_timers := []\<rparr>)"
    using t by (simp add: fire_timer_def sortable_create_def)
  have r: "run_timers (ng_on_init d w) = (ng_on_init d w)\<lparr>w_timers := []\<rparr>"
    using t f by (simp add: run_timers.simps)
  show ?thesis
    using f r assms(1,6) by (simp add: ng_on_init_def)
qed

theorem scheduled_create_yields_instance_witness:
  "\<exists>i. d_instance (dir_of (run_timers \<lparr>w_sys = \<lparr>s_heap = \<lambda>_. JsArray ([] :: nat jsval list),
                    s_dom = \<lparr>dom_children = \<lambda>_. [], dom_parent = Map.empty\<rparr>,
                    s_dirs = \<lambda>_. fst (sortablejs_directive None 5), s_transfer = None, s_calls = []\<rparr>,
           w_env = \<lambda>_. snd (sortablejs_directive None 5), w_loaded = True, w_query = \<lambda>_ _. None,
           w_group_pull = \<lambda>_. PullTrue, w_timers = [(1, None), (0, Some 5)], w_inits = []\<rparr>) 0) = Some i \<and> si_alive i \<and>
        si_options i = overriden_options"
  using scheduled_create_yields_instance [of 0 5 "\<lparr>w_sys = \<lparr>s_heap = \<lambda>_. JsArray ([] :: nat jsval list),
                    s_dom = \<lparr>dom_children = \<lambda>_. [], dom_parent = Map.empty\<rparr>,
                    s_dirs = \<lambda>_. fst (sortablejs_directive None 5), s_transfer = None, s_calls = []\<rparr>,
           w_env = \<lambda>_. snd (sortablejs_directive None 5), w_loaded = True, w_query = \<lambda>_ _. None,
           w_group_pull = \<lambda>_. PullTrue, w_timers = [(1, None), (0, Some 5)], w_inits = []\<rparr>"]
  by (simp add: dir_of_def sortablejs_directive_def directive_options_def options_without_events_def)

theorem unmatched_container_stays_inert_witness:
  "\<exists>w'. fire_timer (ng_on_init 0 \<lparr>w_sys = \<lparr>s_heap = \<lambda>_. JsArray ([] :: nat jsval list),
                    s_dom = \<lparr>dom_children = \<lambda>_. [], dom_parent = Map.empty\<rparr>,
                    s_dirs = \<lambda>_. fst (sortablejs_directive None 5), s_transfer = None, s_calls = []\<rparr>,
           w_env = \<lambda>_. \<lparr>e_element = 5, e_container = Some ''.list'', e_run_inside = False\<rparr>, w_loaded = True, w_query = \<lambda>_ _. None,
           w_group_pull = \<lambda>_. PullTrue, w_timers = [], w_inits = []\<rparr>) = Exn NotAnElement w' \<and>
        d_instance (dir_of (run_timers (ng_on_init 0 \<lparr>w_sys = \<lparr>s_heap = \<lambda>_. JsArray ([] :: nat jsval list),
                    s_dom = \<lparr>dom_children = \<lambda>_. [], dom_parent = Map.empty\<rparr>,
                    s_dirs = \<lambda>_. fst (sortablejs_directive None 5), s_transfer = None, s_calls = []\<rparr>,
           w_env = \<lambda>_. \<lparr>e_element = 5, e_container = Some ''.list'', e_run_inside = False\<rparr>, w_loaded = True, w_query = \<lambda>_ _. None,
           w_group_pull = \<lambda>_. PullTrue, w_timers = [], w_inits = []\<rparr>)) 0) = None \<and>
        w_inits (run_timers (ng_on_init 0 \<lparr>w_sys = \<lparr>s_heap = \<lambda>_. JsArray ([] :: nat jsval list),
                    s_dom = \<lparr>dom_children = \<lambda>_. [], dom_parent = Map.empty\<rparr>,
                    s_dirs = \<lambda>_. fst (sortablejs_directive None 5), s_transfer = None, s_calls = []\<rparr>,
           w_env = \<lambda>_. \<lparr>e_element = 5, e_container = Some ''.list'', e_run_inside = False\<rparr>, w_loaded = True, w_query = \<lambda>_ _. None,
           w_group_pull = \<lambda>_. PullTrue, w_timers = [], w_inits = []\<rparr>)) = []"
  using unmatched_container_stays_inert [of "\<lparr>w_sys = \<lparr>s_heap = \<lambda>_. JsArray ([] :: nat jsval list),
                    s_dom = \<lparr>dom_children = \<lambda>_. [], dom_parent = Map.empty\<rparr>,
                    s_dirs = \<lambda>_. fst (sortablejs_directive None 5), s_transfer = None, s_calls = []\<rparr>,
           w_env = \<lambda>_. \<lparr>e_element = 5, e_container = Some ''.list'', e_run_inside = False\<rparr>, w_loaded = True, w_query = \<lambda>_ _. None,
           w_group_pull = \<lambda>_. PullTrue, w_timers = [], w_inits = []\<rparr>" 0 "''.list''"]
  by (simp add: dir_of_def sortablejs_directive_def)

end
