(* ===== verification/Heap_Invariants.thy ===== *)
theory Heap_Invariants
  imports Directive
begin

text \<open>
  Invariants of the heap of bound collections across the directive's handlers: the
  type invariant that no FormArray holds an \<open>undefined\<close> control (a FormArray's
  \<open>updateValueAndValidity\<close> throws on one, so every operation that returns normally
  leaves its collection well formed), and the frame property that a drag between two
  lists changes no collection bound to a third. The handlers are dispatched by name, as
  Sortable calls the entries of \<open>overridenOptions\<close> (lines 97-137); \<open>handler_reach\<close>
  collects the states reached by handler calls that return normally.
\<close>

definition wf_heap :: "'a heap \<Rightarrow> bool" where
  "wf_heap h \<longleftrightarrow> (\<forall>a. wf_target (h a))"

datatype handler = OnAdd | OnRemove | OnUpdate

primrec handle :: "handler \<Rightarrow> dir_id \<Rightarrow> sortable_event \<Rightarrow> 'a sys \<Rightarrow> (unit, 'a sys) res" where
  "handle OnAdd = on_add"
| "handle OnRemove = on_remove"
| "handle OnUpdate = on_update"

inductive handler_reach :: "'a sys \<Rightarrow> 'a sys \<Rightarrow> bool" where
  hr_refl: "handler_reach s s"
| hr_step: "handler_reach s0 s \<Longrightarrow> handle h d ev s = Ok () s' \<Longrightarrow> handler_reach s0 s'"

lemma res_state_bind [simp]:
  "res_state (res_bind r f) = (case r of Ok v s \<Rightarrow> res_state (f v s) | Exn e s \<Rightarrow> s)"
  by (cases r) simp_all

lemma res_state_at_addr [simp]: "res_state (at_addr a h r) = h(a := res_state r)"
  by (cases r) (simp_all add: at_addr_def)

lemma binding_insert_Ok_wf: "binding_insert i x t = Ok () t' \<Longrightarrow> wf_target t'"
  by (cases t) (auto simp: binding_insert_def fa_insert_def fa_update_validity_def Let_def
                       split: if_splits)

lemma binding_remove_Ok_wf: "binding_remove i t = Ok v t' \<Longrightarrow> wf_target t'"
  by (cases t) (auto simp: binding_remove_def fa_remove_at_def fa_update_validity_def Let_def
                       split: if_splits prod.splits)

lemma at_addr_Ok_iff: "at_addr a h r = Ok v h' \<longleftrightarrow> (\<exists>t. r = Ok v t \<and> h' = h(a := t))"
  by (simp add: at_addr_def res_map_state_Ok_iff)

lemma wf_heap_upd: "wf_heap h \<Longrightarrow> wf_target t \<Longrightarrow> wf_heap (h(a := t))"
  by (simp add: wf_heap_def)

lemma inject_loop_wf:
  "inject_loop index items k bs h = Ok () h' \<Longrightarrow> wf_heap h \<Longrightarrow> wf_heap h'"
proof (induction index items k bs h rule: inject_loop.induct)
  case (2 index items k a as h)
  then show ?case
    by (auto simp: res_bind_Ok_iff at_addr_Ok_iff intro: wf_heap_upd binding_insert_Ok_wf)
qed simp

lemma extract_from_every_wf:
  "extract_from_every bs index h = Ok xs h' \<Longrightarrow> wf_heap h \<Longrightarrow> wf_heap h'"
proof (induction bs index h arbitrary: xs rule: extract_from_every.induct)
  case (2 a as index h)
  then show ?case
    by (auto simp: res_bind_Ok_iff at_addr_Ok_iff intro: wf_heap_upd binding_remove_Ok_wf)
qed simp

lemma at_addr_frame:
  "at_addr a h r = Ok v h1 \<Longrightarrow> b \<noteq> a \<Longrightarrow> h1 b = h b"
  "at_addr a h r = Exn e h1 \<Longrightarrow> b \<noteq> a \<Longrightarrow> h1 b = h b"
  by (cases r; auto simp: at_addr_def)+

lemma inject_loop_frame:
  "b \<notin> set bs \<Longrightarrow> res_state (inject_loop index items k bs h) b = h b"
  by (induction index items k bs h rule: inject_loop.induct) (auto split: res.splits dest: at_addr_frame)

lemma extract_from_every_frame:
  "b \<notin> set bs \<Longrightarrow> res_state (extract_from_every bs index h) b = h b"
proof (induction bs index h rule: extract_from_every.induct)
  case (2 a as index h)
  show ?case
  proof (cases "at_addr a h (binding_remove index (h a))")
    case (Ok x h1)
    have "res_state (extract_from_every as index h1) b = h1 b" using 2 by simp
    moreover have "h1 b = h b" using Ok "2.prems" by (auto dest: at_addr_frame)
    ultimately show ?thesis using Ok by (auto split: res.splits)
  next
    case (Exn e h1)
    then show ?thesis using "2.prems" by (auto dest: at_addr_frame)
  qed
qed simp


lemma proxy_event_state:
  "s_heap (res_state (proxy_event d name ev s)) = s_heap s"
  "s_dirs (res_state (proxy_event d name ev s)) = s_dirs s"
  "s_transfer (res_state (proxy_event d name ev s)) = s_transfer s"
  by (auto simp: proxy_event_def split: option.splits optval.splits)

lemma proxy_event_Ok_state:
  "proxy_event d name ev s = Ok v s' \<Longrightarrow> s_heap s' = s_heap s \<and> s_dirs s' = s_dirs s \<and> s_transfer s' = s_transfer s"
  using proxy_event_state [of d name ev s] by simp

lemma is_cloning_state: "is_cloning dir s = Ok v s' \<Longrightarrow> s' = s" "is_cloning dir s = Exn e s' \<Longrightarrow> s' = s"
  by (auto simp: is_cloning_def split: option.splits)

lemma on_heap_Ok_iff: "on_heap s r = Ok v s' \<longleftrightarrow> (\<exists>h. r = Ok v h \<and> s' = s\<lparr>s_heap := h\<rparr>)"
  by (cases r) (auto simp: on_heap_def)

lemma on_dom_Ok_iff: "on_dom s r = Ok v s' \<longleftrightarrow> (\<exists>dm. r = Ok v dm \<and> s' = s\<lparr>s_dom := dm\<rparr>)"
  by (cases r) (auto simp: on_dom_def)

lemma call_transfer_wf:
  "call_transfer v items s = Ok () s' \<Longrightarrow> wf_heap (s_heap s) \<Longrightarrow> wf_heap (s_heap s')"
  by (auto simp: call_transfer_def res_bind_Ok_iff on_heap_Ok_iff inject_into_every_def
           proxy_event_eq dest: inject_loop_wf split: option.splits pending.splits if_splits)

lemma call_transfer_wf_upd:
  "call_transfer v items (s\<lparr>s_heap := h\<rparr>) = Ok () s' \<Longrightarrow> wf_heap h \<Longrightarrow> wf_heap (s_heap s')"
  using call_transfer_wf [of v items "s\<lparr>s_heap := h\<rparr>" s'] by simp

lemma on_add_heap: "on_add d ev s = Ok () s' \<Longrightarrow> s_heap s' = s_heap s"
  by (auto simp: on_add_def proxy_event_eq split: if_splits)

lemma on_update_wf:
  "on_update d ev s = Ok () s' \<Longrightarrow> wf_heap (s_heap s) \<Longrightarrow> wf_heap (s_heap s')"
  by (auto simp: on_update_def res_bind_Ok_iff on_heap_Ok_iff inject_into_every_def Let_def
           proxy_event_eq dest: inject_loop_wf extract_from_every_wf split: if_splits)

lemma on_remove_wf:
  "on_remove d ev s = Ok () s' \<Longrightarrow> wf_heap (s_heap s) \<Longrightarrow> wf_heap (s_heap s')"
  by (auto simp: on_remove_def res_bind_Ok_iff on_heap_Ok_iff on_dom_Ok_iff Let_def proxy_event_eq
           is_cloning_def intro: call_transfer_wf
           split: if_splits option.splits)
     (blast intro: call_transfer_wf_upd extract_from_every_wf)+


lemma inject_loop_frame_res:
  "inject_loop index items k bs h = Ok v h' \<Longrightarrow> b \<notin> set bs \<Longrightarrow> h' b = h b"
  "inject_loop index items k bs h = Exn e h' \<Longrightarrow> b \<notin> set bs \<Longrightarrow> h' b = h b"
  using inject_loop_frame [of b bs index items k h] by simp_all

lemma extract_from_every_frame_res:
  "extract_from_every bs index h = Ok v h' \<Longrightarrow> b \<notin> set bs \<Longrightarrow> h' b = h b"
  "extract_from_every bs index h = Exn e h' \<Longrightarrow> b \<notin> set bs \<Longrightarrow> h' b = h b"
  using extract_from_every_frame [of b bs index h] by simp_all

lemma heap_frame_bind:
  "s_heap (res_state r) x = s_heap s x \<Longrightarrow>
   (\<And>v t. r = Ok v t \<Longrightarrow> s_heap (res_state (f v t)) x = s_heap t x) \<Longrightarrow>
   s_heap (res_state (res_bind r f)) x = s_heap s x"
  by (cases r) auto

lemma on_heap_state [simp]: "res_state (on_heap s r) = s\<lparr>s_heap := res_state r\<rparr>"
  by (cases r) (simp_all add: on_heap_def)

lemma on_dom_state [simp]: "res_state (on_dom s r) = s\<lparr>s_dom := res_state r\<rparr>"
  by (cases r) (simp_all add: on_dom_def)

lemma call_transfer_frame:
  assumes "\<forall>b ev'. v = Some (Pending b ev') \<longrightarrow> x \<notin> set (get_bindings (s_dirs s b))"
  shows "s_heap (res_state (call_transfer v items s)) x = s_heap s x"
  using assms unfolding call_transfer_def
  by (auto intro!: heap_frame_bind simp: proxy_event_state inject_into_every_def inject_loop_frame
           simp del: res_state_bind split: option.splits pending.splits)

lemma on_remove_frame:
  assumes "x \<notin> set (get_bindings (s_dirs s a))"
    and "\<forall>b ev'. s_transfer s = Some (Pending b ev') \<longrightarrow> x \<notin> set (get_bindings (s_dirs s b))"
  shows "s_heap (res_state (on_remove a ev s)) x = s_heap s x"
  using assms unfolding on_remove_def Let_def
  by (auto intro!: heap_frame_bind call_transfer_frame
           simp: proxy_event_state is_cloning_def extract_from_every_frame on_heap_Ok_iff on_dom_Ok_iff
           simp del: res_state_bind split: option.splits)

text \<open>
  C21: a drag between the lists of directives \<open>a\<close> and \<open>b\<close>, dispatched as \<open>add\<close> on
  \<open>b\<close> then \<open>remove\<close> on \<open>a\<close>, leaves every collection bound to neither of them
  unchanged, whether the handlers return or throw and whatever stale closure the
  transfer slot held before (\<open>onAdd\<close> overwrites it).
\<close>

theorem gesture_frame:
  assumes "x \<notin> set (get_bindings (s_dirs s a))" and "x \<notin> set (get_bindings (s_dirs s b))"
  shows "s_heap (res_state (res_bind (on_add b ev s) (\<lambda>_ s1. on_remove a ev s1))) x = s_heap s x"
  using assms on_remove_frame [of x "s\<lparr>s_transfer := Some (Pending b ev), s_calls := s_calls s @ called s b ''onAddOriginal'' ev\<rparr>" a ev]
  by (auto simp: on_add_def proxy_event_eq)


lemma handle_wf: "handle h d ev s = Ok () s' \<Longrightarrow> wf_heap (s_heap s) \<Longrightarrow> wf_heap (s_heap s')"
  by (cases h) (auto dest: on_add_heap on_remove_wf on_update_wf)

text \<open>
  Every state reached from a well-formed heap by handler calls that return normally
  (\<open>onAdd\<close>, \<open>onRemove\<close>, \<open>onUpdate\<close>, in any order and on any directives) has a
  well-formed heap: every FormArray keeps only defined controls.
\<close>

theorem handlers_keep_form_arrays_defined:
  assumes "handler_reach s0 s" and "wf_heap (s_heap s0)"
  shows "wf_heap (s_heap s)"
  using assms by (induction rule: handler_reach.induct) (auto dest: handle_wf)

theorem handlers_keep_form_arrays_defined_witness:
  "handle OnUpdate 0 \<lparr>ev_oldIndex = 0, ev_newIndex = 1, ev_oldDraggableIndex = None, ev_newDraggableIndex = None, ev_item = 5, ev_clone = 6\<rparr>
     \<lparr>s_heap = (\<lambda>_. JsArray [])(1 := FormArray [Some CHR ''a'', Some CHR ''b'']), s_dom = \<lparr>dom_children = (\<lambda>_. []), dom_parent = Map.empty\<rparr>, s_dirs = (\<lambda>_. \<lparr>d_sortablejs = SingleTarget 1, d_options = None, d_global = None, d_clone_fn = None, d_instance = Some \<lparr>si_check_pull = PullTrue, si_options = Map.empty, si_alive = True\<rparr>\<rparr>), s_transfer = None, s_calls = []\<rparr> =
   Ok () \<lparr>s_heap = (\<lambda>_. JsArray [])(1 := FormArray [Some CHR ''b'', Some CHR ''a'']), s_dom = \<lparr>dom_children = (\<lambda>_. []), dom_parent = Map.empty\<rparr>, s_dirs = (\<lambda>_. \<lparr>d_sortablejs = SingleTarget 1, d_options = None, d_global = None, d_clone_fn = None, d_instance = Some \<lparr>si_check_pull = PullTrue, si_options = Map.empty, si_alive = True\<rparr>\<rparr>), s_transfer = None, s_calls = []\<rparr> \<and>
   wf_heap (s_heap \<lparr>s_heap = (\<lambda>_. JsArray [])(1 := FormArray [Some CHR ''b'', Some CHR ''a'']), s_dom = \<lparr>dom_children = (\<lambda>_. []), dom_parent = Map.empty\<rparr>, s_dirs = (\<lambda>_. \<lparr>d_sortablejs = SingleTarget 1, d_options = None, d_global = None, d_clone_fn = None, d_instance = Some \<lparr>si_check_pull = PullTrue, si_options = Map.empty, si_alive = True\<rparr>\<rparr>), s_transfer = None, s_calls = []\<rparr>)"
proof -
  have step: "handle OnUpdate 0 \<lparr>ev_oldIndex = 0, ev_newIndex = 1, ev_oldDraggableIndex = None, ev_newDraggableIndex = None, ev_item = 5, ev_clone = 6\<rparr>
     \<lparr>s_heap = (\<lambda>_. JsArray [])(1 := FormArray [Some CHR ''a'', Some CHR ''b'']), s_dom = \<lparr>dom_children = (\<lambda>_. []), dom_parent = Map.empty\<rparr>, s_dirs = (\<lambda>_. \<lparr>d_sortablejs = SingleTarget 1, d_options = None, d_global = None, d_clone_fn = None, d_instance = Some \<lparr>si_check_pull = PullTrue, si_options = Map.empty, si_alive = True\<rparr>\<rparr>), s_transfer = None, s_calls = []\<rparr> =
   Ok () \<lparr>s_heap = (\<lambda>_. JsArray [])(1 := FormArray [Some CHR ''b'', Some CHR ''a'']), s_dom = \<lparr>dom_children = (\<lambda>_. []), dom_parent = Map.empty\<rparr>, s_dirs = (\<lambda>_. \<lparr>d_sortablejs = SingleTarget 1, d_options = None, d_global = None, d_clone_fn = None, d_instance = Some \<lparr>si_check_pull = PullTrue, si_options = Map.empty, si_alive = True\<rparr>\<rparr>), s_transfer = None, s_calls = []\<rparr>"
    by (simp add: on_update_def get_bindings_def get_indexes_from_event_def
        binding_remove_def binding_insert_def fa_remove_at_def fa_insert_def fa_update_validity_def
        fa_at_def js_splice_def js_rel_start_def js_index_def inject_into_every_def proxy_event_def
        options_without_events_def Let_def)
  have "wf_heap (s_heap \<lparr>s_heap = (\<lambda>_. JsArray [])(1 := FormArray [Some CHR ''a'', Some CHR ''b'']), s_dom = \<lparr>dom_children = (\<lambda>_. []), dom_parent = Map.empty\<rparr>, s_dirs = (\<lambda>_. \<lparr>d_sortablejs = SingleTarget 1, d_options = None, d_global = None, d_clone_fn = None, d_instance = Some \<lparr>si_check_pull = PullTrue, si_options = Map.empty, si_alive = True\<rparr>\<rparr>), s_transfer = None, s_calls = []\<rparr>)"
    by (simp add: wf_heap_def)
  then show ?thesis
    using step handlers_keep_form_arrays_defined [OF hr_step [OF hr_refl step]] by simp
qed

theorem gesture_frame_witness:
  "s_heap (res_state (res_bind (on_add 1 \<lparr>ev_oldIndex = 0, ev_newIndex = 1, ev_oldDraggableIndex = None, ev_newDraggableIndex = None, ev_item = 5, ev_clone = 6\<rparr> \<lparr>s_heap = (\<lambda>_. JsArray [])(7 := JsArray [Some CHR ''a''], 8 := JsArray [Some CHR ''b''], 9 := FormArray [Some CHR ''z'']), s_dom = \<lparr>dom_children = (\<lambda>_. []), dom_parent = Map.empty\<rparr>, s_dirs = (\<lambda>_. \<lparr>d_sortablejs = NoBinding, d_options = None, d_global = None, d_clone_fn = None, d_instance = Some \<lparr>si_check_pull = PullTrue, si_options = Map.empty, si_alive = True\<rparr>\<rparr>)(0 := \<lparr>d_sortablejs = SingleTarget 7, d_options = None, d_global = None, d_clone_fn = None, d_instance = Some \<lparr>si_check_pull = PullTrue, si_options = Map.empty, si_alive = True\<rparr>\<rparr>, 1 := \<lparr>d_sortablejs = SingleTarget 8, d_options = None, d_global = None, d_clone_fn = None, d_instance = Some \<lparr>si_check_pull = PullTrue, si_options = Map.empty, si_alive = True\<rparr>\<rparr>, 2 := \<lparr>d_sortablejs = SingleTarget 9, d_options = None, d_global = None, d_clone_fn = None, d_instance = Some \<lparr>si_check_pull = PullTrue, si_options = Map.empty, si_alive = True\<rparr>\<rparr>), s_transfer = Some (Pending 2 \<lparr>ev_oldIndex = 0, ev_newIndex = 1, ev_oldDraggableIndex = None, ev_newDraggableIndex = None, ev_item = 5, ev_clone = 6\<rparr>), s_calls = []\<rparr>)
      (\<lambda>_ s1. on_remove 0 \<lparr>ev_oldIndex = 0, ev_newIndex = 1, ev_oldDraggableIndex = None, ev_newDraggableIndex = None, ev_item = 5, ev_clone = 6\<rparr> s1))) 9 = FormArray [Some CHR ''z'']"
  using gesture_frame [of 9 "\<lparr>s_heap = (\<lambda>_. JsArray [])(7 := JsArray [Some CHR ''a''], 8 := JsArray [Some CHR ''b''], 9 := FormArray [Some CHR ''z'']), s_dom = \<lparr>dom_children = (\<lambda>_. []), dom_parent = Map.empty\<rparr>, s_dirs = (\<lambda>_. \<lparr>d_sortablejs = NoBinding, d_options = None, d_global = None, d_clone_fn = None, d_instance = Some \<lparr>si_check_pull = PullTrue, si_options = Map.empty, si_alive = True\<rparr>\<rparr>)(0 := \<lparr>d_sortablejs = SingleTarget 7, d_options = None, d_global = None, d_clone_fn = None, d_instance = Some \<lparr>si_check_pull = PullTrue, si_options = Map.empty, si_alive = True\<rparr>\<rparr>, 1 := \<lparr>d_sortablejs = SingleTarget 8, d_options = None, d_global = None, d_clone_fn = None, d_instance = Some \<lparr>si_check_pull = PullTrue, si_options = Map.empty, si_alive = True\<rparr>\<rparr>, 2 := \<lparr>d_sortablejs = SingleTarget 9, d_options = None, d_global = None, d_clone_fn = None, d_instance = Some \<lparr>si_check_pull = PullTrue, si_options = Map.empty, si_alive = True\<rparr>\<rparr>), s_transfer = Some (Pending 2 \<lparr>ev_oldIndex = 0, ev_newIndex = 1, ev_oldDraggableIndex = None, ev_newDraggableIndex = None, ev_item = 5, ev_clone = 6\<rparr>), s_calls = []\<rparr>" 0 1 "\<lparr>ev_oldIndex = 0, ev_newIndex = 1, ev_oldDraggableIndex = None, ev_newDraggableIndex = None, ev_item = 5, ev_clone = 6\<rparr>"]
  by (simp add: get_bindings_def)

end
