(* ===== verification/Bundle.thy ===== *)
theory Bundle
  imports Directive
begin

text \<open>
  The UMD bundle (src/bundles/ngx-sortablejs.umd.js) is the ES2015 code compiled down to
  ES5 by TypeScript: a rest parameter becomes a loop over \<open>arguments\<close> and a spread
  call becomes \<open>apply\<close> with tslib's \<open>__spread\<close>, which concatenates \<open>__read\<close> of
  each argument. This theory models those downlevelled pieces from the bundle and proves
  that \<open>proxyEvent\<close> of the bundle passes the application's handler exactly the
  arguments of the ES2015 version. The other tslib helpers of the bundle are not called by
  the library.

  An assignment \<open>a[n] = v\<close> past the end of an array extends it, leaving holes that
  read as \<open>undefined\<close> (ECMAScript's array [[Set]]).
\<close>

definition js_array_set :: "'v jsval list \<Rightarrow> nat \<Rightarrow> 'v jsval \<Rightarrow> 'v jsval list" where
  "js_array_set xs n v = (if n < length xs then xs[n := v] else xs @ replicate (n - length xs) None @ [v])"

text \<open>
  \<open>__read(o, n)\<close>, umd lines 194-217: pulls at most \<open>n\<close> values (all of them when
  \<open>n\<close> is undefined) from the iterator of \<open>o\<close>; the count is tested before each
  \<open>next()\<close>. Array iterators never throw and have no \<open>return\<close> method, so the
  \<open>try/finally\<close> clean-up does nothing here.
\<close>

fun tslib_read_loop :: "int option \<Rightarrow> 'v list \<Rightarrow> 'v list \<Rightarrow> 'v list" where
  "tslib_read_loop n [] ar = ar"
| "tslib_read_loop n (x # it) ar =
     (case n of
        None \<Rightarrow> tslib_read_loop None it (ar @ [x])
      | Some k \<Rightarrow> if 0 < k then tslib_read_loop (Some (k - 1)) it (ar @ [x]) else ar)"

definition tslib_read :: "'v list \<Rightarrow> int option \<Rightarrow> 'v list" where
  "tslib_read o' n = tslib_read_loop n o' []"

text \<open>\<open>__spread(...args)\<close>, umd lines 218-222: \<open>ar = ar.concat(__read(arguments[i]))\<close>.\<close>

function tslib_spread_loop :: "'v list list \<Rightarrow> nat \<Rightarrow> 'v list \<Rightarrow> 'v list" where
  "tslib_spread_loop args i ar =
     (if i < length args then tslib_spread_loop args (Suc i) (ar @ tslib_read (args ! i) None) else ar)"
  by pat_completeness auto
termination
  by (relation "measure (\<lambda>(args, i, ar). length args - i)") auto

definition tslib_spread :: "'v list list \<Rightarrow> 'v list" where
  "tslib_spread args = tslib_spread_loop args 0 []"

text \<open>
  \<open>proxyEvent(eventName)\<close>, umd lines 474-486: \<open>params[_i - 1] = arguments[_i]\<close> for
  \<open>_i\<close> from 1 (\<open>arguments[0]\<close> is \<open>eventName\<close>), then
  \<open>optionsWithoutEvents[eventName].apply(_a, __spread(params))\<close>. The result is the
  argument list the application's handler receives (\<open>None\<close>: it is not called).
\<close>

function copy_rest_params :: "'v list \<Rightarrow> nat \<Rightarrow> 'v jsval list \<Rightarrow> 'v jsval list" where
  "copy_rest_params arguments i params =
     (if i < length arguments
      then copy_rest_params arguments (Suc i) (js_array_set params (i - 1) (Some (arguments ! i)))
      else params)"
  by pat_completeness auto
termination
  by (relation "measure (\<lambda>(arguments, i, params). length arguments - i)") auto

definition proxy_event_umd :: "dir_id \<Rightarrow> string \<Rightarrow> 'v list \<Rightarrow> 'a sys \<Rightarrow> ('v jsval list option, 'a sys) res" where
  "proxy_event_umd d eventName arguments s =
     (let params = copy_rest_params arguments 1 []
      in case options_without_events (s_dirs s d) eventName of
           Some (JsFun f) \<Rightarrow> Ok (Some (tslib_spread [params])) s
         | Some v \<Rightarrow> if js_truthy v then Exn NotAFunction s else Ok None s
         | None \<Rightarrow> Ok None s)"

declare tslib_spread_loop.simps [simp del] copy_rest_params.simps [simp del]

lemma tslib_read_loop_all: "tslib_read_loop None xs ar = ar @ xs"
  by (induction xs arbitrary: ar) simp_all

lemma tslib_read_loop_take: "tslib_read_loop (Some k) xs ar = ar @ take (nat k) xs"
proof (induction xs arbitrary: k ar)
  case (Cons x xs)
  then show ?case
    by (cases "0 < k") (simp_all add: take_Cons' nat_diff_distrib')
qed simp

lemma tslib_spread_loop_concat:
  "i \<le> length args \<Longrightarrow> tslib_spread_loop args i ar = ar @ concat (drop i args)"
proof (induction args i ar rule: tslib_spread_loop.induct)
  case (1 args i ar)
  show ?case
  proof (cases "i < length args")
    case True
    then show ?thesis
      using "1.IH" by (simp add: tslib_spread_loop.simps [of args i] tslib_read_def tslib_read_loop_all
                                  Cons_nth_drop_Suc [symmetric])
  next
    case False
    then show ?thesis by (subst tslib_spread_loop.simps) simp
  qed
qed

lemma copy_rest_params_drop:
  "0 < i \<Longrightarrow> i \<le> length arguments \<Longrightarrow> length params = i - 1 \<Longrightarrow>
   copy_rest_params arguments i params = params @ map Some (drop i arguments)"
proof (induction arguments i params rule: copy_rest_params.induct)
  case (1 arguments i params)
  show ?case
  proof (cases "i < length arguments")
    case True
    then show ?thesis
      using "1.IH" "1.prems"
      by (simp add: copy_rest_params.simps [of arguments i] js_array_set_def Cons_nth_drop_Suc [symmetric])
  next
    case False
    then show ?thesis using "1.prems" by (subst copy_rest_params.simps) simp
  qed
qed

lemma tslib_spread_single [simp]: "tslib_spread [xs] = xs"
  by (simp add: tslib_spread_def tslib_spread_loop_concat)

lemma umd_rest_params [simp]: "copy_rest_params (x # ps) (Suc 0) [] = map Some ps"
  using copy_rest_params_drop [of 1 "x # ps" "[]"] by simp

text \<open>
  C25: the bundle's \<open>proxyEvent\<close> is equivalent to the ES2015 one: it throws exactly when
  the ES2015 \<open>proxyEvent\<close> throws, it calls the application's handler exactly when the
  ES2015 one does, and it passes the handler the rest arguments, as \<open>(...params)\<close> does;
  neither changes anything else.
\<close>

theorem proxy_event_umd_equiv:
  "proxy_event_umd d name (x # ps) s =
     (case proxy_event d name ev s of
        Ok _ s' \<Rightarrow> Ok (if s_calls s' = s_calls s then None else Some (map Some ps)) s
      | Exn e _ \<Rightarrow> Exn e s)"
  by (auto simp: proxy_event_umd_def proxy_event_eq proxy_ok_def called_def
           split: option.splits optval.splits)

text \<open>
  C26: \<open>__read(o, n)\<close> returns the first \<open>n\<close> values of an array, clamped to its
  length (none for \<open>n \<le> 0\<close>), and all of them when \<open>n\<close> is undefined.
\<close>

theorem tslib_read_bounds:
  "tslib_read xs (Some k) = take (nat k) xs \<and> length (tslib_read xs (Some k)) = min (nat k) (length xs) \<and>
   tslib_read xs None = xs"
  by (simp add: tslib_read_def tslib_read_loop_take tslib_read_loop_all)

end
