(* ===== verification/Tslib.thy ===== *)
theory Tslib
  imports Bundle "HOL-Library.AList"
begin

text \<open>
  The tslib runtime helpers that TypeScript emits into the UMD bundle
  (src/bundles/ngx-sortablejs.umd.js, lines 37-307), beyond \<open>__read\<close> and
  \<open>__spread\<close> (theory \<open>Bundle\<close>). The library itself calls none of them (it uses
  \<open>Object.assign\<close> directly), but they are part of the shipped code and any consumer
  bundling it gets them.

  Objects are modelled from ECMA-262: a property key is an array index, another string
  or a symbol (\<open>pkey\<close>); an object (\<open>jsobj\<close>) holds its own data properties in
  creation order and the enumerable properties it inherits from its prototype chain.
  All properties are enumerable data properties (object literals). The order of
  \<open>[[OwnPropertyKeys]]\<close> is the one of OrdinaryOwnPropertyKeys: array indices
  ascending, then string keys in creation order, then symbols in creation order; a
  \<open>for-in\<close> loop visits the own string keys in that order, then the inherited ones not
  shadowed.
\<close>

datatype pkey = PIdx nat | PName string | PSym nat

record 'v jsobj =
  ob_own :: "(pkey \<times> 'v) list"
  ob_inh :: "(pkey \<times> 'v) list"

datatype tslib_error = ReadOfNull | NotIterable | SymbolIteratorUndefined | NotPrivateInstance

primrec is_str_key :: "pkey \<Rightarrow> bool" where
  "is_str_key (PIdx n) = True"
| "is_str_key (PName s) = True"
| "is_str_key (PSym n) = False"

definition ordinary_own_keys :: "pkey list \<Rightarrow> pkey list" where
  "ordinary_own_keys ks =
     map PIdx (sort [n. PIdx n \<leftarrow> ks]) @ [PName s. PName s \<leftarrow> ks] @ [PSym n. PSym n \<leftarrow> ks]"

definition own_keys :: "'v jsobj \<Rightarrow> pkey list" where
  "own_keys obj = ordinary_own_keys (map fst (ob_own obj))"

definition has_own :: "'v jsobj \<Rightarrow> pkey \<Rightarrow> bool" where
  "has_own obj k \<longleftrightarrow> k \<in> set (map fst (ob_own obj))"

definition obj_get :: "'v jsobj \<Rightarrow> pkey \<Rightarrow> 'v option" where
  "obj_get obj k = (case map_of (ob_own obj) k of Some v \<Rightarrow> Some v | None \<Rightarrow> map_of (ob_inh obj) k)"

definition obj_set :: "'v jsobj \<Rightarrow> pkey \<Rightarrow> 'v \<Rightarrow> 'v jsobj" where
  "obj_set obj k v = obj\<lparr>ob_own := AList.update k v (ob_own obj)\<rparr>"

definition for_in_keys :: "'v jsobj \<Rightarrow> pkey list" where
  "for_in_keys obj =
     filter is_str_key (own_keys obj) @
     remdups [k \<leftarrow> map fst (ob_inh obj). is_str_key k \<and> \<not> has_own obj k]"

subsection \<open>\<open>__assign\<close>\<close>

text \<open>
  \<open>__assign = Object.assign || function __assign(t) {...}\<close>, umd lines 37-48. The
  fallback loops over the sources \<open>arguments[1..]\<close> and, for each key \<open>p\<close> of a
  \<open>for-in\<close> over the source, copies \<open>s[p]\<close> to \<open>t[p]\<close> when the source owns
  \<open>p\<close>. A source that is \<open>null\<close> or \<open>undefined\<close> (\<open>None\<close>) enumerates nothing.
  \<open>assign_props\<close> is the inner \<open>for-in\<close> with its \<open>hasOwnProperty\<close> guard;
  \<open>object_assign\<close> is ECMAScript's \<open>Object.assign\<close> (ECMA-262 20.1.2.1), which
  copies every own enumerable property of each source, in \<open>[[OwnPropertyKeys]]\<close>
  order, with the same guard.
\<close>

fun assign_props :: "'v jsobj \<Rightarrow> 'v jsobj \<Rightarrow> pkey list \<Rightarrow> 'v jsobj" where
  "assign_props t s [] = t"
| "assign_props t s (p # ps) =
     assign_props (if has_own s p then (case obj_get s p of Some v \<Rightarrow> obj_set t p v | None \<Rightarrow> t) else t) s ps"

fun tslib_assign :: "'v jsobj \<Rightarrow> 'v jsobj option list \<Rightarrow> 'v jsobj" where
  "tslib_assign t [] = t"
| "tslib_assign t (s # ss) =
     tslib_assign (case s of Some obj \<Rightarrow> assign_props t obj (for_in_keys obj) | None \<Rightarrow> t) ss"

fun object_assign :: "'v jsobj \<Rightarrow> 'v jsobj option list \<Rightarrow> 'v jsobj" where
  "object_assign t [] = t"
| "object_assign t (s # ss) =
     object_assign (case s of Some obj \<Rightarrow> assign_props t obj (own_keys obj) | None \<Rightarrow> t) ss"

definition strip_symbols :: "'v jsobj \<Rightarrow> 'v jsobj" where
  "strip_symbols obj = obj\<lparr>ob_own := filter (is_str_key \<circ> fst) (ob_own obj)\<rparr>"

subsection \<open>\<open>__spreadArrays\<close>\<close>

text \<open>
  \<open>__spreadArrays(...arguments)\<close>, umd lines 223-230: a first loop sums the lengths
  into \<open>s\<close>; \<open>r = Array(s)\<close> is an array of \<open>s\<close> holes; a doubly nested loop copies
  \<open>arguments[i][j]\<close> to \<open>r[k]\<close>, \<open>k\<close> running over the whole result. The counters
  are the source's; each loop is a \<open>function\<close> with the measure of its remaining
  iterations.
\<close>

function spread_arrays_len :: "'v list list \<Rightarrow> nat \<Rightarrow> nat \<Rightarrow> nat" where
  "spread_arrays_len args i s =
     (if i < length args then spread_arrays_len args (Suc i) (s + length (args ! i)) else s)"
  by pat_completeness auto
termination
  by (relation "measure (\<lambda>(args, i, s). length args - i)") auto

function spread_arrays_inner :: "'v list \<Rightarrow> nat \<Rightarrow> nat \<Rightarrow> 'v jsval list \<Rightarrow> nat \<times> 'v jsval list" where
  "spread_arrays_inner a j k r =
     (if j < length a then spread_arrays_inner a (Suc j) (Suc k) (js_array_set r k (Some (a ! j))) else (k, r))"
  by pat_completeness auto
termination
  by (relation "measure (\<lambda>(a, j, k, r). length a - j)") auto

function spread_arrays_outer :: "'v list list \<Rightarrow> nat \<Rightarrow> nat \<Rightarrow> 'v jsval list \<Rightarrow> 'v jsval list" where
  "spread_arrays_outer args i k r =
     (if i < length args
      then (case spread_arrays_inner (args ! i) 0 k r of (k', r') \<Rightarrow> spread_arrays_outer args (Suc i) k' r')
      else r)"
  by pat_completeness auto
termination
  by (relation "measure (\<lambda>(args, i, k, r). length args - i)") auto

definition tslib_spread_arrays :: "'v list list \<Rightarrow> 'v jsval list" where
  "tslib_spread_arrays args = spread_arrays_outer args 0 0 (replicate (spread_arrays_len args 0 0) None)"

subsection \<open>\<open>__rest\<close>\<close>

text \<open>
  \<open>__rest(s, e)\<close>, umd lines 49-59 (object rest \<open>{a, ...t} = s\<close>): copies to a
  fresh object every own string-keyed property of \<open>s\<close> met by a \<open>for-in\<close> whose key
  is not in the excluded list \<open>e\<close>; then, when \<open>s\<close> is not \<open>null\<close> and the engine
  has \<open>Object.getOwnPropertySymbols\<close> (the flag \<open>gops\<close>), every own enumerable
  symbol-keyed property not in \<open>e\<close>.
\<close>

definition empty_obj :: "'v jsobj" where
  "empty_obj = \<lparr>ob_own = [], ob_inh = []\<rparr>"

definition own_symbols :: "'v jsobj \<Rightarrow> pkey list" where
  "own_symbols obj = [k \<leftarrow> own_keys obj. \<not> is_str_key k]"

fun rest_props :: "'v jsobj \<Rightarrow> pkey list \<Rightarrow> 'v jsobj \<Rightarrow> pkey list \<Rightarrow> 'v jsobj" where
  "rest_props s e t [] = t"
| "rest_props s e t (p # ps) =
     rest_props s e (if has_own s p \<and> p \<notin> set e then (case obj_get s p of Some v \<Rightarrow> obj_set t p v | None \<Rightarrow> t) else t) ps"

definition tslib_rest :: "bool \<Rightarrow> 'v jsobj option \<Rightarrow> pkey list \<Rightarrow> 'v jsobj" where
  "tslib_rest gops s e =
     (case s of
        None \<Rightarrow> empty_obj
      | Some obj \<Rightarrow>
          (let t = rest_props obj e empty_obj (for_in_keys obj)
           in if gops then rest_props obj e t (own_symbols obj) else t))"

subsection \<open>\<open>__values\<close>\<close>

text \<open>
  \<open>__values(o)\<close>, umd lines 180-193, returns an iterator over \<open>o\<close>: the object's own
  \<open>[Symbol.iterator]\<close> when the engine has symbols (\<open>has_symbol\<close>) and \<open>o\<close> has
  one, else a closure over \<open>o\<close> and a counter \<open>i\<close> when \<open>o\<close> has a numeric
  \<open>length\<close>; otherwise it throws a \<open>TypeError\<close>. Reading \<open>o[Symbol.iterator]\<close>
  when \<open>o\<close> is \<open>null\<close> or \<open>undefined\<close> throws as well. An argument is \<open>VNull\<close>
  or \<open>VObj it len\<close>: the sequence its iterator method yields, if it has one, and its
  elements, if it has a numeric \<open>length\<close>. The closure's state is the pair
  \<open>(o, i)\<close>; \<open>values_next\<close> is its \<open>next()\<close>: \<open>o\<close> is set to \<open>undefined\<close>
  once \<open>i\<close> reaches the length, and \<open>i\<close> is only incremented while \<open>o\<close> is
  defined. \<open>array_iter_next\<close> is the engine's array iterator (ECMA-262
  %ArrayIteratorPrototype%.next), which also reports \<open>done\<close> forever after the end.
\<close>

datatype 'v vsrc = VNull | VObj "'v list option" "'v list option"

datatype 'v iter = NativeIter "'v list" | ValuesIter "'v list option" nat

definition tslib_values :: "bool \<Rightarrow> 'v vsrc \<Rightarrow> tslib_error + 'v iter" where
  "tslib_values has_symbol o' =
     (case o' of
        VNull \<Rightarrow> Inl (if has_symbol then ReadOfNull else SymbolIteratorUndefined)
      | VObj it len \<Rightarrow>
          (case (if has_symbol then it else None) of
             Some xs \<Rightarrow> Inr (NativeIter xs)
           | None \<Rightarrow>
               (case len of
                  Some xs \<Rightarrow> Inr (ValuesIter (Some xs) 0)
                | None \<Rightarrow> Inl (if has_symbol then NotIterable else SymbolIteratorUndefined))))"

definition values_next :: "'v list option \<Rightarrow> nat \<Rightarrow> ('v jsval \<times> bool) \<times> 'v list option \<times> nat" where
  "values_next o' i =
     (let o1 = (case o' of Some xs \<Rightarrow> if length xs \<le> i then None else Some xs | None \<Rightarrow> None)
      in case o1 of
           Some xs \<Rightarrow> ((Some (xs ! i), False), (o1, Suc i))
         | None \<Rightarrow> ((None, True), (o1, i)))"

fun array_iter_next :: "'v list \<Rightarrow> ('v jsval \<times> bool) \<times> 'v list" where
  "array_iter_next [] = ((None, True), [])"
| "array_iter_next (x # xs) = ((Some x, False), xs)"

fun iter_next :: "'v iter \<Rightarrow> ('v jsval \<times> bool) \<times> 'v iter" where
  "iter_next (NativeIter xs) = (case array_iter_next xs of (r, xs') \<Rightarrow> (r, NativeIter xs'))"
| "iter_next (ValuesIter o' i) = (case values_next o' i of (r, (o1, i1)) \<Rightarrow> (r, ValuesIter o1 i1))"

fun iter_run :: "nat \<Rightarrow> 'v iter \<Rightarrow> ('v jsval \<times> bool) list" where
  "iter_run 0 it = []"
| "iter_run (Suc n) it = (case iter_next it of (r, it') \<Rightarrow> r # iter_run n it')"

subsection \<open>Private fields\<close>

text \<open>
  \<open>__classPrivateFieldGet/Set(receiver, privateMap[, value])\<close>, umd lines 296-307: a
  private field is a \<open>WeakMap\<close> from instances to values; both helpers throw a
  \<open>TypeError\<close> when the receiver is not a key of the map, the setter returns the
  value it stored.
\<close>

definition private_field_get :: "'r \<Rightarrow> ('r \<rightharpoonup> 'v) \<Rightarrow> tslib_error + 'v" where
  "private_field_get receiver privateMap =
     (if receiver \<notin> dom privateMap then Inl NotPrivateInstance
      else (case privateMap receiver of Some v \<Rightarrow> Inr v | None \<Rightarrow> Inl NotPrivateInstance))"

definition private_field_set :: "'r \<Rightarrow> ('r \<rightharpoonup> 'v) \<Rightarrow> 'v \<Rightarrow> tslib_error + ('r \<rightharpoonup> 'v) \<times> 'v" where
  "private_field_set receiver privateMap value =
     (if receiver \<notin> dom privateMap then Inl NotPrivateInstance
      else Inr (privateMap(receiver \<mapsto> value), value))"

lemma set_ordinary_own_keys [simp]: "set (ordinary_own_keys ks) = set ks"
proof -
  have "k \<in> set (ordinary_own_keys ks) \<longleftrightarrow> k \<in> set ks" for k
    by (cases k) (auto simp: ordinary_own_keys_def)
  then show ?thesis by blast
qed

lemma ordinary_own_keys_str:
  "ordinary_own_keys (filter is_str_key ks) = filter is_str_key (ordinary_own_keys ks)"
proof -
  have idx: "[n. PIdx n \<leftarrow> filter is_str_key ks] = [n. PIdx n \<leftarrow> ks]"
    and nam: "[PName s. PName s \<leftarrow> filter is_str_key ks] = [PName s. PName s \<leftarrow> ks]"
    and sym: "[PSym n. PSym n \<leftarrow> filter is_str_key ks] = []"
    by (induction ks rule: list.induct; simp split: pkey.split)+
  have f1: "filter is_str_key (map PIdx xs) = map PIdx xs" for xs by (induction xs) simp_all
  have f2: "filter is_str_key [PName s. PName s \<leftarrow> ks] = [PName s. PName s \<leftarrow> ks]"
    and f3: "filter is_str_key [PSym n. PSym n \<leftarrow> ks] = []"
    by (induction ks rule: list.induct; simp split: pkey.split)+
  show ?thesis by (simp add: ordinary_own_keys_def idx nam sym f1 f2 f3)
qed

lemma assign_props_cong:
  "\<forall>k \<in> set ks. has_own s k = has_own s' k \<and> (has_own s k \<longrightarrow> obj_get s k = obj_get s' k) \<Longrightarrow>
   assign_props t s ks = assign_props t s' ks"
  by (induction ks arbitrary: t) simp_all

lemma assign_props_filter: "assign_props t s (filter (has_own s) ks) = assign_props t s ks"
  by (induction ks arbitrary: t) simp_all

lemma assign_props_map_of:
  "map_of (ob_own (assign_props t s ks)) = map_of (ob_own t) ++ (map_of (ob_own s) |` set ks)"
proof (induction ks arbitrary: t)
  case Nil
  then show ?case by simp
next
  case (Cons p ps)
  show ?case
  proof (cases "has_own s p")
    case True
    then obtain v where v: "map_of (ob_own s) p = Some v"
      by (auto simp: has_own_def dest!: weak_map_of_SomeI)
    then show ?thesis using True Cons.IH
      by (auto simp: obj_get_def obj_set_def update_conv' fun_eq_iff map_add_def restrict_map_def
               split: option.splits)
  next
    case False
    then have "map_of (ob_own s) p = None" by (simp add: has_own_def map_of_eq_None_iff)
    then show ?thesis using False Cons.IH
      by (auto simp: fun_eq_iff map_add_def restrict_map_def split: option.splits)
  qed
qed

lemma for_in_keys_own: "filter (has_own obj) (for_in_keys obj) = filter is_str_key (own_keys obj)"
proof -
  have "filter (has_own obj) (filter is_str_key (own_keys obj)) = filter is_str_key (own_keys obj)"
    by (rule filter_True) (simp add: own_keys_def has_own_def)
  moreover have "filter (has_own obj) (remdups [k \<leftarrow> map fst (ob_inh obj). is_str_key k \<and> \<not> has_own obj k]) = []"
    by (simp add: filter_empty_conv)
  ultimately show ?thesis by (simp add: for_in_keys_def)
qed

lemma map_of_filter_key:
  "map_of (filter (P \<circ> fst) xs) k = (if P k then map_of xs k else None)"
  by (induction xs) auto

lemma own_keys_strip: "own_keys (strip_symbols obj) = filter is_str_key (own_keys obj)"
  by (simp add: own_keys_def strip_symbols_def filter_map ordinary_own_keys_str [symmetric])

lemma has_own_strip: "has_own (strip_symbols obj) k \<longleftrightarrow> has_own obj k \<and> is_str_key k"
  by (auto simp: has_own_def strip_symbols_def)

lemma obj_get_strip: "is_str_key k \<Longrightarrow> has_own obj k \<Longrightarrow> obj_get (strip_symbols obj) k = obj_get obj k"
  by (auto simp: obj_get_def strip_symbols_def map_of_filter_key split: option.split)

lemma for_in_assign_strip:
  "assign_props t obj (for_in_keys obj) = assign_props t (strip_symbols obj) (own_keys (strip_symbols obj))"
proof -
  have "assign_props t obj (for_in_keys obj) = assign_props t obj (filter is_str_key (own_keys obj))"
    by (metis assign_props_filter for_in_keys_own)
  also have "\<dots> = assign_props t (strip_symbols obj) (filter is_str_key (own_keys obj))"
    by (rule assign_props_cong) (simp add: has_own_strip obj_get_strip)
  finally show ?thesis by (simp add: own_keys_strip)
qed

lemma for_in_restrict:
  "map_of (ob_own obj) |` set (for_in_keys obj) = map_of (ob_own obj) |` {k. is_str_key k}"
proof (rule ext)
  fix k
  show "(map_of (ob_own obj) |` set (for_in_keys obj)) k = (map_of (ob_own obj) |` {k. is_str_key k}) k"
  proof (cases "has_own obj k")
    case True
    then show ?thesis by (auto simp: restrict_map_def for_in_keys_def own_keys_def has_own_def)
  next
    case False
    then have "map_of (ob_own obj) k = None" by (simp add: has_own_def map_of_eq_None_iff)
    then show ?thesis by (simp add: restrict_map_def)
  qed
qed

text \<open>
  The fallback \<open>__assign(t, s1, ..., sn)\<close> gives \<open>t\<close> every own string-keyed
  property of each source, a later source overriding an earlier one and \<open>t\<close>'s own
  value; inherited properties, symbol-keyed properties and \<open>null\<close> sources contribute
  nothing.
\<close>

theorem tslib_assign_lookup:
  "map_of (ob_own (tslib_assign t ss)) =
     fold (\<lambda>s m. case s of Some obj \<Rightarrow> m ++ (map_of (ob_own obj) |` {k. is_str_key k}) | None \<Rightarrow> m)
       ss (map_of (ob_own t))"
proof (induction ss arbitrary: t)
  case (Cons s ss)
  then show ?case
    by (cases s) (simp_all add: assign_props_map_of for_in_restrict)
qed simp

text \<open>
  C30: the fallback is \<open>Object.assign\<close> on the sources with their symbol-keyed
  properties removed: it visits the same own string keys in the same order, and its
  \<open>hasOwnProperty\<close> guard skips exactly the inherited keys a \<open>for-in\<close> adds.
\<close>

theorem tslib_assign_equiv:
  "tslib_assign t ss = object_assign t (map (map_option strip_symbols) ss)"
  by (induction ss arbitrary: t) (simp_all add: for_in_assign_strip split: option.split)

declare spread_arrays_len.simps [simp del] spread_arrays_inner.simps [simp del]
  spread_arrays_outer.simps [simp del]

lemma spread_arrays_len_sum:
  "spread_arrays_len args i s = s + length (concat (drop i args))"
proof (induction args i s rule: spread_arrays_len.induct)
  case (1 args i s)
  then show ?case
    by (cases "i < length args")
       (simp_all add: spread_arrays_len.simps [of args i] Cons_nth_drop_Suc [symmetric])
qed

lemma js_array_set_in_range: "k < length r \<Longrightarrow> js_array_set r k v = r[k := v]"
  by (simp add: js_array_set_def)

lemma take_drop_update:
  "k < length r \<Longrightarrow> take k r @ v # drop (Suc k) r = r[k := v]"
  by (simp add: upd_conv_take_nth_drop)

lemma spread_arrays_inner_copy:
  "j \<le> length a \<Longrightarrow> k + (length a - j) \<le> length r \<Longrightarrow>
   spread_arrays_inner a j k r =
     (k + (length a - j), take k r @ map Some (drop j a) @ drop (k + (length a - j)) r)"
proof (induction a j k r rule: spread_arrays_inner.induct)
  case (1 a j k r)
  show ?case
  proof (cases "j < length a")
    case True
    let ?r = "r[k := Some (a ! j)]"
    have k: "k < length r" using True "1.prems"(2) by simp
    have ih: "spread_arrays_inner a (Suc j) (Suc k) ?r =
                (Suc k + (length a - Suc j), take (Suc k) ?r @ map Some (drop (Suc j) a) @
                   drop (Suc k + (length a - Suc j)) ?r)"
      using "1.IH" [OF True] True "1.prems" k by (simp add: js_array_set_in_range)
    have "take (Suc k) ?r = take k r @ [Some (a ! j)]"
      using k by (simp add: take_Suc_conv_app_nth)
    moreover have "drop (Suc k + (length a - Suc j)) ?r = drop (k + (length a - j)) r"
    proof -
      have e: "Suc k + (length a - Suc j) = Suc (k + (length a - Suc j))" by simp
      have "Suc (k + (length a - Suc j)) = k + (length a - j)" using True by arith
      then show ?thesis using k by (simp only: e drop_update_cancel)
    qed
    moreover have "map Some (drop j a) = Some (a ! j) # map Some (drop (Suc j) a)"
      using True by (simp add: Cons_nth_drop_Suc [symmetric])
    ultimately show ?thesis
      using True ih k by (simp add: spread_arrays_inner.simps [of a j] js_array_set_in_range)
  next
    case False
    then show ?thesis using "1.prems" by (subst spread_arrays_inner.simps) simp
  qed
qed

lemma spread_arrays_outer_copy:
  "i \<le> length args \<Longrightarrow> k + length (concat (drop i args)) \<le> length r \<Longrightarrow>
   spread_arrays_outer args i k r =
     take k r @ map Some (concat (drop i args)) @ drop (k + length (concat (drop i args))) r"
proof (induction args i k r rule: spread_arrays_outer.induct)
  case (1 args i k r)
  show ?case
  proof (cases "i < length args")
    case True
    let ?a = "args ! i" and ?rest = "concat (drop (Suc i) args)"
    have d: "concat (drop i args) = ?a @ ?rest" using True by (simp add: Cons_nth_drop_Suc [symmetric])
    let ?r = "take k r @ map Some ?a @ drop (k + length ?a) r"
    have inner: "spread_arrays_inner ?a 0 k r = (k + length ?a, ?r)"
      using "1.prems" d by (simp add: spread_arrays_inner_copy)
    have len: "length ?r = length r" using "1.prems" d by simp
    have ih: "spread_arrays_outer args (Suc i) (k + length ?a) ?r =
                take (k + length ?a) ?r @ map Some ?rest @ drop (k + length ?a + length ?rest) ?r"
      using "1.IH" [OF True inner [symmetric]] True "1.prems" d len by simp
    have "take (k + length ?a) ?r = take k r @ map Some ?a" using "1.prems" d by simp
    moreover have "drop (k + length ?a + length ?rest) ?r = drop (k + (length ?a + length ?rest)) r"
      using "1.prems" d by (simp add: ac_simps)
    ultimately show ?thesis
      using True ih inner d by (simp add: spread_arrays_outer.simps [of args i])
  next
    case False
    then show ?thesis using "1.prems" by (subst spread_arrays_outer.simps) simp
  qed
qed

text \<open>
  C31: \<open>__spreadArrays\<close> returns the concatenation of its arguments, with no hole left:
  the first loop sizes the result exactly and the nested loops fill every slot in order.
\<close>

theorem tslib_spread_arrays_concat: "tslib_spread_arrays args = map Some (concat args)"
  by (simp add: tslib_spread_arrays_def spread_arrays_len_sum spread_arrays_outer_copy)

lemma rest_props_assign: "rest_props s e t ps = assign_props t s (filter (\<lambda>p. p \<notin> set e) ps)"
  by (induction ps arbitrary: t) simp_all

lemma own_in_for_in_keys: "has_own obj k \<Longrightarrow> k \<in> set (for_in_keys obj) \<longleftrightarrow> is_str_key k"
  by (auto simp: for_in_keys_def own_keys_def has_own_def)

lemma in_own_symbols: "k \<in> set (own_symbols obj) \<longleftrightarrow> has_own obj k \<and> \<not> is_str_key k"
  by (auto simp: own_symbols_def own_keys_def has_own_def)

lemma not_own_map_of: "\<not> has_own obj k \<Longrightarrow> map_of (ob_own obj) k = None"
  by (simp add: has_own_def map_of_eq_None_iff)

text \<open>
  \<open>__rest(s, e)\<close> returns exactly the own properties of \<open>s\<close> whose key is not
  excluded by \<open>e\<close>, with their values; symbol-keyed ones only when the engine has
  \<open>Object.getOwnPropertySymbols\<close>. Inherited properties are never copied.
\<close>

theorem tslib_rest_lookup:
  "map_of (ob_own (tslib_rest gops (Some obj) e)) =
     map_of (ob_own obj) |` {k. k \<notin> set e \<and> (gops \<or> is_str_key k)}"
proof (rule ext)
  fix k
  let ?m = "map_of (ob_own obj)"
  have strs: "map_of (ob_own (rest_props obj e empty_obj (for_in_keys obj))) =
                ?m |` {k \<in> set (for_in_keys obj). k \<notin> set e}"
    by (simp add: rest_props_assign assign_props_map_of empty_obj_def)
  have syms: "map_of (ob_own (rest_props obj e t (own_symbols obj))) =
                map_of (ob_own t) ++ (?m |` {k \<in> set (own_symbols obj). k \<notin> set e})" for t
    by (simp add: rest_props_assign assign_props_map_of)
  show "map_of (ob_own (tslib_rest gops (Some obj) e)) k = (?m |` {k. k \<notin> set e \<and> (gops \<or> is_str_key k)}) k"
  proof (cases "has_own obj k")
    case True
    then show ?thesis
      by (auto simp: tslib_rest_def Let_def strs syms restrict_map_def map_add_def own_in_for_in_keys
               in_own_symbols split: option.split)
  next
    case False
    then show ?thesis
      by (auto simp: tslib_rest_def Let_def strs syms restrict_map_def map_add_def not_own_map_of
               split: option.split)
  qed
qed

lemma iter_run_values_done: "iter_run n (ValuesIter None i) = replicate n (None, True)"
  by (induction n) (simp_all add: values_next_def)

lemma iter_run_native_done: "iter_run n (NativeIter []) = replicate n (None, True)"
  by (induction n) simp_all

lemma iter_run_values_native:
  "i \<le> length xs \<Longrightarrow> iter_run n (ValuesIter (Some xs) i) = iter_run n (NativeIter (drop i xs))"
proof (induction n arbitrary: i)
  case (Suc n)
  show ?case
  proof (cases "i < length xs")
    case True
    then show ?thesis using Suc.IH [of "Suc i"]
      by (simp add: values_next_def Cons_nth_drop_Suc [symmetric])
  next
    case False
    then show ?thesis using Suc.prems
      by (simp add: values_next_def iter_run_values_done iter_run_native_done)
  qed
qed simp

lemma iter_run_native:
  "iter_run (length xs + n) (NativeIter xs) = map (\<lambda>x. (Some x, False)) xs @ replicate n (None, True)"
  by (induction xs) (simp_all add: iter_run_native_done)

text \<open>
  C33: the iterator \<open>__values\<close> builds for an array-like object behaves as the engine's
  own array iterator: every sequence of \<open>next()\<close> calls returns the same values and
  \<open>done\<close> flags, the end included (once done, always done).
\<close>

theorem tslib_values_equiv:
  "iter_run n (ValuesIter (Some xs) 0) = iter_run n (NativeIter xs)"
  using iter_run_values_native [of 0 xs n] by simp

text \<open>
  On an object with an iterator or a numeric length, \<open>__values\<close> returns an
  iterator that yields the object's sequence in order and then reports \<open>done\<close> on every
  later call: the sequence of its \<open>[Symbol.iterator]\<close> when the engine has symbols and
  the object has one, its elements otherwise.
\<close>

theorem tslib_values_yields:
  "let ys = (case (if has_symbol then it else None) of Some zs \<Rightarrow> zs | None \<Rightarrow> xs)
   in \<exists>itr. tslib_values has_symbol (VObj it (Some xs)) = Inr itr \<and>
        iter_run (length ys + n) itr = map (\<lambda>x. (Some x, False)) ys @ replicate n (None, True)"
  using iter_run_values_native [of 0 xs]
  by (auto simp: tslib_values_def iter_run_native split: option.split if_split)

text \<open>
  \<open>__values\<close> throws exactly on \<open>null\<close>/\<open>undefined\<close> and on an object that
  has no numeric \<open>length\<close> and no usable \<open>[Symbol.iterator]\<close>; the error is
  "Object is not iterable." when the engine has symbols and "Symbol.iterator is not
  defined." otherwise, except that reading the iterator of \<open>null\<close> fails first.
\<close>

theorem tslib_values_throws:
  "tslib_values has_symbol o' = Inl err \<longleftrightarrow>
     (case o' of
        VNull \<Rightarrow> err = (if has_symbol then ReadOfNull else SymbolIteratorUndefined)
      | VObj it len \<Rightarrow> len = None \<and> (if has_symbol then it = None \<and> err = NotIterable
                                     else err = SymbolIteratorUndefined))"
  by (auto simp: tslib_values_def split: vsrc.split option.split if_split)

lemma private_field_set_dom:
  "receiver \<in> dom privateMap \<Longrightarrow>
   private_field_set receiver privateMap value = Inr (privateMap(receiver \<mapsto> value), value)"
  by (simp add: private_field_set_def)

text \<open>
  A private field set on an instance reads back the stored value, the setter
  returns it and no other instance's field changes; on a non-instance both helpers
  throw.
\<close>

theorem private_field_roundtrip:
  "(receiver \<in> dom privateMap \<longrightarrow>
      (\<exists>m'. private_field_set receiver privateMap value = Inr (m', value) \<and>
            private_field_get receiver m' = Inr value \<and>
            (\<forall>r. r \<noteq> receiver \<longrightarrow> private_field_get r m' = private_field_get r privateMap))) \<and>
   (receiver \<notin> dom privateMap \<longrightarrow>
      private_field_get receiver privateMap = Inl NotPrivateInstance \<and>
      private_field_set receiver privateMap value = Inl NotPrivateInstance)"
  by (auto simp: private_field_set_dom private_field_get_def private_field_set_def)

theorem private_field_roundtrip_witness:
  "(3::nat) \<in> dom [3 \<mapsto> (10::nat)] \<and>
   (\<exists>m'. private_field_set (3::nat) [3 \<mapsto> (10::nat)] 20 = Inr (m', 20) \<and> private_field_get 3 m' = Inr 20)"
  using private_field_roundtrip [of 3 "[3 \<mapsto> (10::nat)]" 20] by auto

text \<open>
  The fallback \<open>__assign\<close> and \<open>Object.assign\<close> differ on a symbol-keyed property:
  \<open>Object.assign\<close> copies it, the fallback's \<open>for-in\<close> never visits it.
\<close>

lemma assign_symbol_divergence:
  "object_assign empty_obj [Some \<lparr>ob_own = [(PSym 0, v)], ob_inh = []\<rparr>] = \<lparr>ob_own = [(PSym 0, v)], ob_inh = []\<rparr> \<and>
   tslib_assign empty_obj [Some \<lparr>ob_own = [(PSym 0, v)], ob_inh = []\<rparr>] = empty_obj"
  by (simp add: empty_obj_def own_keys_def ordinary_own_keys_def for_in_keys_def has_own_def obj_get_def
        obj_set_def)

end
