(* ===== verification/Generator.thy ===== *)
theory Generator
  imports Tslib
begin

text \<open>
  tslib's \<open>__generator(thisArg, body)\<close>, umd lines 95-165: the runtime of generator
  functions downlevelled to ES5. The compiled \<open>body\<close> is a \<open>switch\<close> on
  \<open>_.label\<close> that returns an instruction \<open>[opcode, argument]\<close>; the runtime's
  \<open>step\<close> loop interprets the instructions, keeping the stack of active
  \<open>try\<close> regions (\<open>_.trys\<close>, entries \<open>[tryLoc, catchLoc, finallyLoc, endLoc]\<close>),
  the stack of instructions suspended while a \<open>finally\<close> block runs (\<open>_.ops\<close>), the
  iterator a \<open>yield*\<close> delegates to (\<open>y\<close>) and the flag \<open>f\<close> set while a step
  runs.

  An instruction is a \<open>gop\<close>, one constructor per opcode (0 next, 1 throw, 2 return,
  3 break, 4 yield, 5 yield*, 6 catch, 7 endfinally); \<open>op_code\<close> gives the opcode
  the runtime's bit tests read. Values are the application's (\<open>GV\<close>), label numbers
  (\<open>GNum\<close>) and the \<open>TypeError\<close>s the runtime raises. The compiled body is a
  parameter: a function of the temporary \<open>t\<close> that \<open>_.sent()\<close> reads, of the
  context \<open>_\<close> and of the variables the body closes over (\<open>'s\<close>), returning an
  instruction or a thrown value. A delegate of \<open>yield*\<close> is an iterator of
  theory \<open>Tslib\<close> (the engine's array iterator or the one of \<open>__values\<close>), which
  has no \<open>throw\<close> or \<open>return\<close> method. The step loop need not end (a body may
  jump back forever), so it is a \<open>partial_function\<close> in the option monad, \<open>None\<close>
  being a step that never returns.
\<close>

unbundle bit_operations_syntax

datatype 'v gval = GV 'v | GNum nat | GTypeError string

type_synonym 'v gjs = "'v gval option"

datatype 'v gop =
    ONext "'v gjs" | OThrow "'v gjs" | OReturn "'v gjs" | OBreak nat | OYield "'v gjs"
  | OYieldStar "'v gval iter" | OCatch "'v gjs" | OEndFinally

primrec op_code :: "'v gop \<Rightarrow> nat" where
  "op_code (ONext v) = 0"
| "op_code (OThrow v) = 1"
| "op_code (OReturn v) = 2"
| "op_code (OBreak l) = 3"
| "op_code (OYield v) = 4"
| "op_code (OYieldStar it) = 5"
| "op_code (OCatch e) = 6"
| "op_code OEndFinally = 7"

text \<open>
  \<open>op[1]\<close>: the argument of an instruction; a \<open>yield*\<close> carries an iterator object,
  which the runtime never reads through \<open>op[1]\<close> at a point where it would be a
  value, and \<open>endfinally\<close> carries none.
\<close>

primrec op_value :: "'v gop \<Rightarrow> 'v gjs" where
  "op_value (ONext v) = v"
| "op_value (OThrow v) = v"
| "op_value (OReturn v) = v"
| "op_value (OBreak l) = Some (GNum l)"
| "op_value (OYield v) = v"
| "op_value (OYieldStar it) = None"
| "op_value (OCatch e) = e"
| "op_value OEndFinally = None"

record try_entry =
  try_loc :: nat
  catch_loc :: "nat option"
  finally_loc :: "nat option"
  end_loc :: nat

record 'v genctx =
  label :: nat
  trys :: "try_entry list"
  ops :: "'v gop list"

datatype 'v gt = TOp "'v gop" | TTry try_entry | TFalse

type_synonym ('v, 's) gbody = "'v gt \<Rightarrow> 'v genctx \<Rightarrow> 's \<Rightarrow> ('v gjs + 'v gop option) \<times> 'v genctx \<times> 's"

datatype 'v gres = GYield "'v gjs" | GDone "'v gjs" | GThrow "'v gjs"

datatype gmethod = GNext | GThrowM | GReturnM

record ('v, 's) gen =
  g_ctx :: "'v genctx option"
  g_y :: "'v gval iter option"
  g_f :: bool
  g_env :: 's

text \<open>\<open>_.sent()\<close>, umd lines 96-97: throws \<open>t[1]\<close> when bit 0 of \<open>t[0]\<close> is set.\<close>

fun gen_sent :: "'v gt \<Rightarrow> 'v gjs + 'v gjs" where
  "gen_sent (TOp op) = (if op_code op AND 1 \<noteq> 0 then Inl (op_value op) else Inr (op_value op))"
| "gen_sent (TTry e) =
     (if try_loc e AND 1 \<noteq> 0 then Inl (map_option GNum (catch_loc e)) else Inr (map_option GNum (catch_loc e)))"
| "gen_sent TFalse = Inr None"

text \<open>
  The first two statements of an iteration (umd 104-107): with a delegate \<open>y\<close>, a
  \<open>next\<close> is forwarded to it and its result returned while it is not done; when it is
  done the instruction becomes \<open>[op[0] & 2, t.value]\<close>. A \<open>throw\<close> or \<open>return\<close>
  finds no such method on the delegate and goes to the generator. Then \<open>y = 0\<close>.
\<close>

definition gen_delegate :: "'v gval iter option \<Rightarrow> 'v gop \<Rightarrow> ('v gjs \<times> 'v gval iter) + 'v gop" where
  "gen_delegate y op =
     (case y of
        None \<Rightarrow> Inr op
      | Some it \<Rightarrow>
          (if op_code op AND 2 \<noteq> 0 \<or> op_code op \<noteq> 0 then Inr op
           else (case iter_next it of
                   ((v, False), it') \<Rightarrow> Inl (v, it')
                 | ((v, True), it') \<Rightarrow> Inr (if op_code op AND 2 \<noteq> 0 then OReturn v else ONext v))))"

definition top_try :: "try_entry list \<Rightarrow> try_entry option" where
  "top_try ts = (if ts = [] then None else Some (last ts))"

definition pop_op :: "'v gop list \<Rightarrow> 'v gop option" where
  "pop_op xs = (if xs = [] then None else Some (last xs))"

datatype 'v gdisp =
    DBody "'v gt" "'v genctx"
  | DYield "'v gjs" "'v genctx"
  | DContinue "'v gop option" "'v genctx option" "'v gval iter option"

text \<open>The \<open>switch (op[0])\<close> of umd lines 108-140.\<close>

definition gen_dispatch :: "'v gop \<Rightarrow> 'v genctx \<Rightarrow> 'v gdisp" where
  "gen_dispatch op c =
     (case op of
        ONext v \<Rightarrow> DBody (TOp op) c
      | OThrow v \<Rightarrow> DBody (TOp op) c
      | OYield v \<Rightarrow> DYield v (c\<lparr>label := Suc (label c)\<rparr>)
      | OYieldStar it \<Rightarrow> DContinue (Some (ONext None)) (Some (c\<lparr>label := Suc (label c)\<rparr>)) (Some it)
      | OEndFinally \<Rightarrow> DContinue (pop_op (ops c)) (Some (c\<lparr>trys := butlast (trys c), ops := butlast (ops c)\<rparr>)) None
      | _ \<Rightarrow>
          (let t = top_try (trys c) in
           if t = None \<and> (op_code op = 6 \<or> op_code op = 2) then DContinue (Some op) None None
           else if (case op of
                      OBreak l \<Rightarrow> (case t of None \<Rightarrow> True | Some e \<Rightarrow> try_loc e < l \<and> l < end_loc e)
                    | _ \<Rightarrow> False)
           then DBody (case t of None \<Rightarrow> TFalse | Some e \<Rightarrow> TTry e)
                      (c\<lparr>label := (case op of OBreak l \<Rightarrow> l | _ \<Rightarrow> label c)\<rparr>)
           else if op_code op = 6 \<and>
                   (case t of Some e \<Rightarrow> (case catch_loc e of Some n \<Rightarrow> label c < n | None \<Rightarrow> False) | None \<Rightarrow> False)
           then DBody (TOp op) (c\<lparr>label := (case t of Some e \<Rightarrow> (case catch_loc e of Some n \<Rightarrow> n | None \<Rightarrow> label c)
                                                  | None \<Rightarrow> label c)\<rparr>)
           else (case t of
                   Some e \<Rightarrow>
                     (case finally_loc e of
                        Some n \<Rightarrow>
                          if label c < n then DBody (TTry e) (c\<lparr>label := n, ops := ops c @ [op]\<rparr>)
                          else DContinue (Some op)
                                 (Some (c\<lparr>ops := (if n \<noteq> 0 then butlast (ops c) else ops c),
                                          trys := butlast (trys c)\<rparr>)) None
                      | None \<Rightarrow> DContinue (Some op) (Some (c\<lparr>trys := butlast (trys c)\<rparr>)) None)
                 | None \<Rightarrow> DContinue (Some op) (Some (c\<lparr>trys := butlast (trys c)\<rparr>)) None)))"

text \<open>
  After the loop (umd 161-163): \<open>if (op[0] & 5) throw op[1]; return {value: op[0] ?
  op[1] : void 0, done: true}\<close>.
\<close>

definition gen_exit :: "'v gop option \<Rightarrow> 'v gres" where
  "gen_exit op =
     (case op of
        None \<Rightarrow> GThrow (Some (GTypeError ''Cannot read properties of undefined''))
      | Some o' \<Rightarrow>
          if op_code o' AND 5 \<noteq> 0 then GThrow (op_value o')
          else GDone (if op_code o' \<noteq> 0 then op_value o' else None))"

text \<open>
  The \<open>while (_) try {...} catch (e) {op = [6, e]; y = 0}\<close> loop of \<open>step\<close>, umd
  lines 103-160. Reading \<open>op[0]\<close> of an undefined instruction (an \<open>endfinally\<close>
  with no suspended instruction) throws inside the \<open>try\<close> and is caught.
\<close>

partial_function (option) gen_loop ::
  "('v, 's) gbody \<Rightarrow> 'v genctx option \<Rightarrow> 'v gval iter option \<Rightarrow> 's \<Rightarrow> 'v gop option \<Rightarrow>
   ('v gres \<times> 'v genctx option \<times> 'v gval iter option \<times> 's) option" where
  "gen_loop body ctx y env op =
     (case ctx of
        None \<Rightarrow> Some (gen_exit op, None, y, env)
      | Some c \<Rightarrow>
          (case op of
             None \<Rightarrow> gen_loop body ctx None env (Some (OCatch (Some (GTypeError ''Cannot read properties of undefined''))))
           | Some o' \<Rightarrow>
               (case gen_delegate y o' of
                  Inl (v, it') \<Rightarrow> Some (GYield v, ctx, Some it', env)
                | Inr o2 \<Rightarrow>
                    (case gen_dispatch o2 c of
                       DYield v c' \<Rightarrow> Some (GYield v, Some c', None, env)
                     | DContinue op' ctx' y' \<Rightarrow> gen_loop body ctx' y' env op'
                     | DBody t c' \<Rightarrow>
                         (case body t c' env of
                            (Inl e, c2, env') \<Rightarrow> gen_loop body (Some c2) None env' (Some (OCatch e))
                          | (Inr o3, c2, env') \<Rightarrow> gen_loop body (Some c2) None env' o3)))))"

text \<open>
  \<open>next\<close>, \<open>throw\<close> and \<open>return\<close> of the generator object (\<open>verb(n)\<close> and the
  entry of \<open>step\<close>, umd 98-102): a call while a step runs throws; otherwise the loop
  runs from the instruction \<open>[n, v]\<close> and \<open>f\<close> is cleared.
\<close>

primrec verb_op :: "gmethod \<Rightarrow> 'v gjs \<Rightarrow> 'v gop" where
  "verb_op GNext v = ONext v"
| "verb_op GThrowM v = OThrow v"
| "verb_op GReturnM v = OReturn v"

definition gen_resume :: "('v, 's) gbody \<Rightarrow> gmethod \<Rightarrow> 'v gjs \<Rightarrow> ('v, 's) gen \<Rightarrow> ('v gres \<times> ('v, 's) gen) option" where
  "gen_resume body m v g =
     (if g_f g then Some (GThrow (Some (GTypeError ''Generator is already executing.'')), g)
      else map_option (\<lambda>(r, c, y, env). (r, g\<lparr>g_ctx := c, g_y := y, g_f := False, g_env := env\<rparr>))
             (gen_loop body (g_ctx g) (g_y g) (g_env g) (Some (verb_op m v))))"

definition gen_init :: "'s \<Rightarrow> ('v, 's) gen" where
  "gen_init env = \<lparr>g_ctx = Some \<lparr>label = 0, trys = [], ops = []\<rparr>, g_y = None, g_f = False, g_env = env\<rparr>"

fun gen_run :: "('v, 's) gbody \<Rightarrow> (gmethod \<times> 'v gjs) list \<Rightarrow> ('v, 's) gen \<Rightarrow> ('v gres list \<times> ('v, 's) gen) option" where
  "gen_run body [] g = Some ([], g)"
| "gen_run body ((m, v) # cs) g =
     (case gen_resume body m v g of
        None \<Rightarrow> None
      | Some (r, g') \<Rightarrow> map_option (\<lambda>(rs, g''). (r # rs, g'')) (gen_run body cs g'))"

subsection \<open>Compiled generator functions\<close>

text \<open>
  The bodies TypeScript emits for three small generator functions, as the runtime
  receives them; they serve to state what the runtime does with \<open>yield*\<close>,
  \<open>try/catch\<close> and \<open>try/finally\<close>.
  \<^item> \<open>function* () { yield* xs; return r; }\<close>: \<open>case 0: return [5, __values(xs)];
    case 1: _a.sent(); return [2, r];\<close>, with \<open>__values\<close> of theory \<open>Tslib\<close> on the
    array \<open>xs\<close> (which has \<open>[Symbol.iterator]\<close> when the engine has symbols).
  \<^item> \<open>function* () { try { yield 1; } catch (e) { yield e; } }\<close>: the try region
    \<open>[0, 2, , 4]\<close>.
  \<^item> \<open>function* () { try { yield 1; } finally { n++; } }\<close>, the counter \<open>n\<close> being
    the variable the body closes over: the try region \<open>[0, , 2, 3]\<close>.
\<close>

definition yield_star_body :: "bool \<Rightarrow> 'v list \<Rightarrow> 'v \<Rightarrow> ('v, 's) gbody" where
  "yield_star_body hs xs r t c env =
     (case label c of
        0 \<Rightarrow> (case tslib_values hs (VObj (Some (map GV xs)) (Some (map GV xs))) of
               Inl err \<Rightarrow> (Inl (Some (GTypeError ''__values'')), c, env)
             | Inr it \<Rightarrow> (Inr (Some (OYieldStar it)), c, env))
      | Suc 0 \<Rightarrow> (case gen_sent t of
                   Inl e \<Rightarrow> (Inl e, c, env)
                 | Inr _ \<Rightarrow> (Inr (Some (OReturn (Some (GV r)))), c, env))
      | _ \<Rightarrow> (Inr None, c, env))"

definition catch_body :: "(nat, 's) gbody" where
  "catch_body t c env =
     (case label c of
        0 \<Rightarrow> (Inr (Some (OYield (Some (GV 1)))),
              c\<lparr>trys := trys c @ [\<lparr>try_loc = 0, catch_loc = Some 2, finally_loc = None, end_loc = 4\<rparr>]\<rparr>, env)
      | Suc 0 \<Rightarrow> (case gen_sent t of Inl e \<Rightarrow> (Inl e, c, env) | Inr _ \<Rightarrow> (Inr (Some (OBreak 4)), c, env))
      | Suc (Suc 0) \<Rightarrow> (case gen_sent t of Inl e \<Rightarrow> (Inl e, c, env) | Inr e \<Rightarrow> (Inr (Some (OYield e)), c, env))
      | Suc (Suc (Suc 0)) \<Rightarrow> (case gen_sent t of Inl e \<Rightarrow> (Inl e, c, env) | Inr _ \<Rightarrow> (Inr (Some (OBreak 4)), c, env))
      | Suc (Suc (Suc (Suc 0))) \<Rightarrow> (Inr (Some (OReturn None)), c, env)
      | _ \<Rightarrow> (Inr None, c, env))"

definition finally_body :: "(nat, nat) gbody" where
  "finally_body t c n =
     (case label c of
        0 \<Rightarrow> (Inr (Some (OYield (Some (GV 1)))),
              c\<lparr>trys := trys c @ [\<lparr>try_loc = 0, catch_loc = None, finally_loc = Some 2, end_loc = 3\<rparr>]\<rparr>, n)
      | Suc 0 \<Rightarrow> (case gen_sent t of Inl e \<Rightarrow> (Inl e, c, n) | Inr _ \<Rightarrow> (Inr (Some (OBreak 3)), c, n))
      | Suc (Suc 0) \<Rightarrow> (Inr (Some OEndFinally), c, Suc n)
      | Suc (Suc (Suc 0)) \<Rightarrow> (Inr (Some (OReturn None)), c, n)
      | _ \<Rightarrow> (Inr None, c, n))"

lemmas gen_step_simps = gen_resume_def gen_loop.simps gen_delegate_def gen_dispatch_def top_try_def pop_op_def
  gen_exit_def

text \<open>
  A completed generator (\<open>_ = 0\<close>) stays completed whatever is called on it:
  \<open>next()\<close> answers \<open>{value: undefined, done: true}\<close>, \<open>return(v)\<close> answers
  \<open>{value: v, done: true}\<close> and \<open>throw(e)\<close> throws \<open>e\<close>, as ES2015 prescribes for
  a completed generator; its body never runs again.
\<close>

theorem completed_generator_inert:
  assumes "g_ctx g = None" and "\<not> g_f g"
  shows "gen_run body cs g =
           Some (map (\<lambda>(m, v). case m of GNext \<Rightarrow> GDone None | GThrowM \<Rightarrow> GThrow v | GReturnM \<Rightarrow> GDone v) cs, g)"
  using assms
proof (induction cs)
  case (Cons c cs)
  obtain m v where c: "c = (m, v)" by (cases c)
  have "gen_resume body m v g =
          Some (case m of GNext \<Rightarrow> GDone None | GThrowM \<Rightarrow> GThrow v | GReturnM \<Rightarrow> GDone v, g)"
    using Cons.prems by (cases m) (simp_all add: gen_step_simps)
  then show ?case using Cons by (simp add: c)
qed simp

theorem completed_generator_inert_witness:
  "gen_run catch_body [(GNext, None), (GThrowM, Some (GV 3)), (GReturnM, Some (GV 4))]
     \<lparr>g_ctx = None, g_y = None, g_f = False, g_env = ()\<rparr> =
   Some ([GDone None, GThrow (Some (GV 3)), GDone (Some (GV 4))], \<lparr>g_ctx = None, g_y = None, g_f = False, g_env = ()\<rparr>)"
  using completed_generator_inert [of "\<lparr>g_ctx = None, g_y = None, g_f = False, g_env = ()\<rparr>" catch_body
      "[(GNext, None), (GThrowM, Some (GV 3)), (GReturnM, Some (GV 4))]"]
  by simp

lemma yield_star_start:
  "tslib_values hs (VObj (Some (map GV xs)) (Some (map GV xs))) = Inr it \<Longrightarrow>
   gen_resume (yield_star_body hs xs r) GNext None (gen_init env) =
   gen_resume (yield_star_body hs xs r) GNext None
     \<lparr>g_ctx = Some \<lparr>label = Suc 0, trys = [], ops = []\<rparr>, g_y = Some it, g_f = False, g_env = env\<rparr>"
  by (simp add: gen_resume_def gen_init_def gen_dispatch_def gen_delegate_def yield_star_body_def
        gen_loop.simps [of _ "Some \<lparr>label = 0, trys = [], ops = []\<rparr>"]
        gen_loop.simps [of _ "Some \<lparr>label = 0, trys = [], ops = []\<rparr>" None])

lemma yield_star_next:
  "iter_next it = ((Some z, False), it') \<Longrightarrow>
   gen_resume (yield_star_body hs xs r) GNext None
     \<lparr>g_ctx = Some \<lparr>label = Suc 0, trys = [], ops = []\<rparr>, g_y = Some it, g_f = False, g_env = env\<rparr> =
   Some (GYield (Some z), \<lparr>g_ctx = Some \<lparr>label = Suc 0, trys = [], ops = []\<rparr>, g_y = Some it', g_f = False, g_env = env\<rparr>)"
  by (simp add: gen_step_simps)

lemma yield_star_done:
  "iter_next it = ((v, True), it') \<Longrightarrow>
   gen_resume (yield_star_body hs xs r) GNext None
     \<lparr>g_ctx = Some \<lparr>label = Suc 0, trys = [], ops = []\<rparr>, g_y = Some it, g_f = False, g_env = env\<rparr> =
   Some (GDone (Some (GV r)), \<lparr>g_ctx = None, g_y = None, g_f = False, g_env = env\<rparr>)"
  by (simp add: gen_step_simps yield_star_body_def)

lemma yield_star_delegating:
  "iter_run (length ys + 1) it = map (\<lambda>y. (Some y, False)) ys @ [(None, True)] \<Longrightarrow>
   gen_run (yield_star_body hs xs r) (replicate (length ys + 2) (GNext, None))
     \<lparr>g_ctx = Some \<lparr>label = Suc 0, trys = [], ops = []\<rparr>, g_y = Some it, g_f = False, g_env = env\<rparr> =
   Some (map (\<lambda>y. GYield (Some y)) ys @ [GDone (Some (GV r)), GDone None],
         \<lparr>g_ctx = None, g_y = None, g_f = False, g_env = env\<rparr>)"
proof (induction ys arbitrary: it)
  case Nil
  then obtain it' where "iter_next it = ((None, True), it')"
    by (auto split: prod.splits)
  note d = yield_star_done [OF this, of hs xs r env]
  have e: "gen_resume (yield_star_body hs xs r) GNext None \<lparr>g_ctx = None, g_y = None, g_f = False, g_env = env\<rparr> =
             Some (GDone None, \<lparr>g_ctx = None, g_y = None, g_f = False, g_env = env\<rparr>)"
    by (simp add: gen_step_simps)
  show ?case by (simp add: d [simplified] e numeral_2_eq_2)
next
  case (Cons y ys)
  then obtain it' where nx: "iter_next it = ((Some y, False), it')"
    and run: "iter_run (length ys + 1) it' = map (\<lambda>y. (Some y, False)) ys @ [(None, True)]"
    by (auto split: prod.splits)
  show ?case using Cons.IH [OF run] by (simp add: yield_star_next [OF nx])
qed

lemma values_iter_of_array:
  "\<exists>it. tslib_values hs (VObj (Some ys) (Some ys)) = Inr it \<and>
        iter_run (length ys + 1) it = map (\<lambda>y. (Some y, False)) ys @ [(None, True)]"
  using iter_run_native [of ys 1] iter_run_values_native [of 0 ys "length ys + 1"]
  by (simp add: tslib_values_def)

text \<open>
  C34: the compiled \<open>function* () { yield* xs; return r; }\<close> runs to completion
  under the runtime: \<open>length xs + 2\<close> calls of \<open>next()\<close> return, yielding the
  elements of \<open>xs\<close> in order through the delegate \<open>__values(xs)\<close>, then
  \<open>{value: r, done: true}\<close>, then \<open>{value: undefined, done: true}\<close>, whether or not
  the engine has symbols.
\<close>

theorem yield_star_generator_runs:
  "gen_run (yield_star_body hs xs r) (replicate (length xs + 2) (GNext, None)) (gen_init env) =
     Some (map (\<lambda>x. GYield (Some (GV x))) xs @ [GDone (Some (GV r)), GDone None],
           \<lparr>g_ctx = None, g_y = None, g_f = False, g_env = env\<rparr>)"
proof -
  obtain it where v: "tslib_values hs (VObj (Some (map GV xs)) (Some (map GV xs))) = Inr it"
    and run: "iter_run (length (map GV xs) + 1) it = map (\<lambda>y. (Some y, False)) (map GV xs) @ [(None, True)]"
    using values_iter_of_array [of hs "map GV xs"] by blast
  have rep: "replicate (length xs + 2) (GNext, None) = (GNext, None) # replicate (length xs + 1) (GNext, None)"
    by simp
  have "gen_run (yield_star_body hs xs r) (replicate (length (map GV xs) + 2) (GNext, None))
          \<lparr>g_ctx = Some \<lparr>label = Suc 0, trys = [], ops = []\<rparr>, g_y = Some it, g_f = False, g_env = env\<rparr> =
        Some (map (\<lambda>y. GYield (Some y)) (map GV xs) @ [GDone (Some (GV r)), GDone None],
              \<lparr>g_ctx = None, g_y = None, g_f = False, g_env = env\<rparr>)"
    by (rule yield_star_delegating [OF run])
  then show ?thesis
    by (simp only: rep gen_run.simps yield_star_start [OF v] length_map) (simp add: comp_def)
qed

text \<open>
  C35: the runtime implements \<open>try/catch\<close> and \<open>try/finally\<close> for every compiled
  body. Take a generator suspended at a \<open>yield\<close> inside a try region
  \<open>[try, catch, finally, end]\<close>. \<open>throw(e)\<close> resumes the body, whose \<open>_a.sent()\<close>
  rethrows \<open>e\<close>; the runtime then enters the catch block at its label with \<open>e\<close>
  as the sent value, and what that block yields is what \<open>throw\<close> returns.
  \<open>return(v)\<close> first runs the finally block with the return pending, whatever that
  block does to the state, and then completes with \<open>{value: v, done: true}\<close>.
\<close>

theorem generator_try_catch_finally:
  assumes g: "g_ctx g = Some c" "g_y g = None" "\<not> g_f g" and tr: "trys c = [te]"
  shows "(catch_loc te = Some cl \<and> label c < cl \<and>
          body (TOp (OThrow e)) c (g_env g) = (Inl e, c, g_env g) \<and>
          body (TOp (OCatch e)) (c\<lparr>label := cl\<rparr>) (g_env g) = (Inr (Some (OYield y)), cc, ec) \<longrightarrow>
          gen_resume body GThrowM e g =
            Some (GYield y, g\<lparr>g_ctx := Some (cc\<lparr>label := Suc (label cc)\<rparr>), g_y := None, g_f := False, g_env := ec\<rparr>)) \<and>
         (finally_loc te = Some fl \<and> label c < fl \<and>
          body (TTry te) (c\<lparr>label := fl, ops := ops c @ [OReturn v]\<rparr>) (g_env g) = (Inr (Some OEndFinally), cf, ef) \<and>
          trys cf = [te] \<and> ops cf = ops c @ [OReturn v] \<longrightarrow>
          gen_resume body GReturnM v g = Some (GDone v, g\<lparr>g_ctx := None, g_y := None, g_f := False, g_env := ef\<rparr>))"
  using g tr by (simp add: gen_step_simps)

theorem generator_try_catch_finally_witness:
  "gen_resume catch_body GThrowM (Some (GV 5))
     \<lparr>g_ctx = Some \<lparr>label = Suc 0, trys = [\<lparr>try_loc = 0, catch_loc = Some 2, finally_loc = None, end_loc = 4\<rparr>], ops = []\<rparr>,
      g_y = None, g_f = False, g_env = (0::nat)\<rparr> =
     Some (GYield (Some (GV 5)),
       \<lparr>g_ctx = Some \<lparr>label = 3, trys = [\<lparr>try_loc = 0, catch_loc = Some 2, finally_loc = None, end_loc = 4\<rparr>], ops = []\<rparr>,
        g_y = None, g_f = False, g_env = 0\<rparr>) \<and>
   gen_resume finally_body GReturnM (Some (GV 7))
     \<lparr>g_ctx = Some \<lparr>label = Suc 0, trys = [\<lparr>try_loc = 0, catch_loc = None, finally_loc = Some 2, end_loc = 3\<rparr>], ops = []\<rparr>,
      g_y = None, g_f = False, g_env = (4::nat)\<rparr> =
     Some (GDone (Some (GV 7)), \<lparr>g_ctx = None, g_y = None, g_f = False, g_env = 5\<rparr>)"
proof -
  let ?tc = "\<lparr>try_loc = 0, catch_loc = Some 2, finally_loc = None, end_loc = 4\<rparr>"
  let ?tf = "\<lparr>try_loc = 0, catch_loc = None, finally_loc = Some 2, end_loc = 3\<rparr>"
  let ?g1 = "\<lparr>g_ctx = Some \<lparr>label = Suc 0, trys = [?tc], ops = []\<rparr>, g_y = None, g_f = False, g_env = (0::nat)\<rparr>"
  let ?g2 = "\<lparr>g_ctx = Some \<lparr>label = Suc 0, trys = [?tf], ops = []\<rparr>, g_y = None, g_f = False, g_env = (4::nat)\<rparr>"
  have "gen_resume catch_body GThrowM (Some (GV 5)) ?g1 =
          Some (GYield (Some (GV 5)), ?g1\<lparr>g_ctx := Some \<lparr>label = Suc 2, trys = [?tc], ops = []\<rparr>,
                                          g_y := None, g_f := False, g_env := 0\<rparr>)"
    using generator_try_catch_finally [where g = ?g1 and c = "\<lparr>label = Suc 0, trys = [?tc], ops = []\<rparr>"
        and te = ?tc and cl = 2 and body = catch_body and e = "Some (GV 5)" and y = "Some (GV 5)"
        and cc = "\<lparr>label = 2, trys = [?tc], ops = []\<rparr>" and ec = 0]
    by (simp add: catch_body_def)
  moreover have "gen_resume finally_body GReturnM (Some (GV 7)) ?g2 =
          Some (GDone (Some (GV 7)), ?g2\<lparr>g_ctx := None, g_y := None, g_f := False, g_env := 5\<rparr>)"
    using generator_try_catch_finally [where g = ?g2 and c = "\<lparr>label = Suc 0, trys = [?tf], ops = []\<rparr>"
        and te = ?tf and fl = 2 and body = finally_body and v = "Some (GV 7)"
        and cf = "\<lparr>label = 2, trys = [?tf], ops = [OReturn (Some (GV 7))]\<rparr>" and ef = 5]
    by (simp add: finally_body_def)
  ultimately show ?thesis by (simp add: numeral_3_eq_3)
qed

text \<open>
  C36: unlike an ES2015 generator, whose \<open>throw(e)\<close> before the first \<open>next()\<close>
  completes it and throws \<open>e\<close>, the runtime's \<open>throw(e)\<close> on a fresh generator
  runs the body from its start exactly as \<open>next()\<close> would, for every body whose first
  block does not read the sent value (no compiled body does: \<open>_a.sent()\<close> only
  follows a \<open>yield\<close>). The compiled \<open>try { yield 1; } catch (e) { yield e; }\<close>
  thus ignores the exception and yields 1.
\<close>

theorem fresh_generator_throw_runs_body:
  assumes "body (TOp (OThrow e)) \<lparr>label = 0, trys = [], ops = []\<rparr> env =
           body (TOp (ONext None)) \<lparr>label = 0, trys = [], ops = []\<rparr> env"
  shows "gen_resume body GThrowM e (gen_init env) = gen_resume body GNext None (gen_init env)"
  using assms by (simp add: gen_resume_def gen_init_def gen_loop.simps gen_delegate_def gen_dispatch_def)

theorem fresh_generator_throw_runs_body_witness:
  "gen_resume catch_body GThrowM (Some (GV 5)) (gen_init (0::nat)) = gen_resume catch_body GNext None (gen_init 0) \<and>
   (\<exists>g. gen_resume catch_body GThrowM (Some (GV 5)) (gen_init (0::nat)) = Some (GYield (Some (GV 1)), g))"
proof -
  have eq: "gen_resume catch_body GThrowM (Some (GV 5)) (gen_init (0::nat)) = gen_resume catch_body GNext None (gen_init 0)"
    by (rule fresh_generator_throw_runs_body) (simp add: catch_body_def)
  have "\<exists>g. gen_resume catch_body GNext None (gen_init (0::nat)) = Some (GYield (Some (GV 1)), g)"
    by (simp add: gen_step_simps gen_init_def catch_body_def)
  then show ?thesis using eq by simp
qed

end
