(* ===== verification/Prototypes.thy ===== *)
theory Prototypes
  imports Tslib
begin

text \<open>
  tslib's \<open>extendStatics\<close> and \<open>__extends(d, b)\<close>, umd lines 24-36: the ES5 form of
  \<open>class D extends B\<close>. Objects live in a heap (\<open>pheap\<close>: a map from addresses to
  objects and the next free address); an object has its own data properties and a
  \<open>[[Prototype]]\<close> link (\<open>None\<close> is \<open>null\<close>). A property value is a reference, a
  primitive, \<open>null\<close> or \<open>undefined\<close>.

  \<open>proto_get\<close> is ECMAScript's OrdinaryGet on data properties: the own property, else
  the prototype's. \<open>proto_chain_has\<close> is the loop of OrdinarySetPrototypeOf that
  refuses a link closing a cycle. A heap may contain a cycle of links (nothing in the
  model forbids it), and then both walks run forever, so both are partial functions in
  the option monad; \<open>chain_ends h n a\<close> says the chain from \<open>a\<close> reaches \<open>null\<close>
  within \<open>n\<close> links.

  \<open>extendStatics\<close> picks, once, \<open>Object.setPrototypeOf\<close>, else the \<open>__proto__\<close>
  setter when the engine has it, else a loop copying the own properties of \<open>b\<close>; the
  engine is \<open>statics_env\<close>. \<open>Object.setPrototypeOf\<close> throws a \<open>TypeError\<close> for a
  prototype that is neither an object nor \<open>null\<close>, the \<open>__proto__\<close> setter ignores
  it; both throw when the new link would close a cycle. The helper constructor
  \<open>__\<close> is not allocated: it is unreachable once \<open>__extends\<close> returns, and only its
  \<open>prototype\<close> property matters, which \<open>new __()\<close> uses as the new object's
  prototype (\<open>Object.prototype\<close>, the address \<open>objp\<close>, when it is not an object).
\<close>

datatype 'v pv = PRef nat | PPrim 'v | PNull | PUndef

record 'v pobj =
  p_props :: "(pkey \<times> 'v pv) list"
  p_proto :: "nat option"

record 'v pheap =
  ph_objs :: "nat \<Rightarrow> 'v pobj option"
  ph_next :: nat

datatype proto_error = ProtoNotObject | CyclicProto | PropOfUndefined

datatype statics_env = HasSetPrototypeOf | HasProtoSetter | NoProtoSetter

partial_function (option) proto_get :: "'v pheap \<Rightarrow> nat \<Rightarrow> pkey \<Rightarrow> 'v pv option" where
  "proto_get h a k =
     (case ph_objs h a of
        None \<Rightarrow> Some PUndef
      | Some obj \<Rightarrow>
          (case map_of (p_props obj) k of
             Some v \<Rightarrow> Some v
           | None \<Rightarrow> (case p_proto obj of None \<Rightarrow> Some PUndef | Some p \<Rightarrow> proto_get h p k)))"

partial_function (option) proto_chain_has :: "'v pheap \<Rightarrow> nat option \<Rightarrow> nat \<Rightarrow> bool option" where
  "proto_chain_has h p o' =
     (case p of
        None \<Rightarrow> Some False
      | Some a \<Rightarrow>
          if a = o' then Some True
          else (case ph_objs h a of None \<Rightarrow> Some False | Some obj \<Rightarrow> proto_chain_has h (p_proto obj) o'))"

fun chain_ends :: "'v pheap \<Rightarrow> nat \<Rightarrow> nat \<Rightarrow> bool" where
  "chain_ends h 0 a = (case ph_objs h a of None \<Rightarrow> True | Some obj \<Rightarrow> p_proto obj = None)"
| "chain_ends h (Suc n) a =
     (case ph_objs h a of
        None \<Rightarrow> True
      | Some obj \<Rightarrow> (case p_proto obj of None \<Rightarrow> True | Some p \<Rightarrow> chain_ends h n p))"

definition chains_finite :: "'v pheap \<Rightarrow> bool" where
  "chains_finite h \<longleftrightarrow> (\<forall>a. \<exists>n. chain_ends h n a)"

definition pv_ok :: "nat \<Rightarrow> 'v pv \<Rightarrow> bool" where
  "pv_ok n v = (case v of PRef r \<Rightarrow> r < n | _ \<Rightarrow> True)"

definition heap_ok :: "'v pheap \<Rightarrow> bool" where
  "heap_ok h \<longleftrightarrow>
     (\<forall>a obj. ph_objs h a = Some obj \<longrightarrow>
        a < ph_next h \<and> (\<forall>p. p_proto obj = Some p \<longrightarrow> p < ph_next h) \<and>
        (\<forall>kv \<in> set (p_props obj). pv_ok (ph_next h) (snd kv)))"

definition upd_obj :: "'v pheap \<Rightarrow> nat \<Rightarrow> ('v pobj \<Rightarrow> 'v pobj) \<Rightarrow> 'v pheap" where
  "upd_obj h a f = h\<lparr>ph_objs := (ph_objs h)(a := map_option f (ph_objs h a))\<rparr>"

definition set_own :: "'v pheap \<Rightarrow> nat \<Rightarrow> pkey \<Rightarrow> 'v pv \<Rightarrow> 'v pheap" where
  "set_own h a k v = upd_obj h a (\<lambda>obj. obj\<lparr>p_props := AList.update k v (p_props obj)\<rparr>)"

text \<open>OrdinarySetPrototypeOf (ECMA-262 10.1.2.1) with the \<open>TypeError\<close> of its callers.\<close>

definition set_proto :: "'v pheap \<Rightarrow> nat \<Rightarrow> nat option \<Rightarrow> (proto_error + 'v pheap) option" where
  "set_proto h o' v =
     (case ph_objs h o' of
        None \<Rightarrow> Some (Inr h)
      | Some obj \<Rightarrow>
          if p_proto obj = v then Some (Inr h)
          else map_option (\<lambda>cyc. if cyc then Inl CyclicProto else Inr (upd_obj h o' (\<lambda>ob. ob\<lparr>p_proto := v\<rparr>)))
                 (proto_chain_has h v o'))"

text \<open>
  The copying branch \<open>for (var p in b) if (b.hasOwnProperty(p)) d[p] = b[p]\<close>: the
  \<open>for-in\<close> also visits inherited enumerable keys, which the guard skips, so the loop
  runs over the own string keys of \<open>b\<close> in enumeration order.
\<close>

fun copy_statics :: "'v pheap \<Rightarrow> nat \<Rightarrow> 'v pobj \<Rightarrow> pkey list \<Rightarrow> 'v pheap" where
  "copy_statics h d bo [] = h"
| "copy_statics h d bo (p # ps) =
     copy_statics (case map_of (p_props bo) p of Some v \<Rightarrow> set_own h d p v | None \<Rightarrow> h) d bo ps"

definition extend_statics :: "statics_env \<Rightarrow> 'v pheap \<Rightarrow> nat \<Rightarrow> 'v pv \<Rightarrow> (proto_error + 'v pheap) option" where
  "extend_statics env h d b =
     (case env of
        HasSetPrototypeOf \<Rightarrow>
          (case b of PRef a \<Rightarrow> set_proto h d (Some a) | PNull \<Rightarrow> set_proto h d None | _ \<Rightarrow> Some (Inl ProtoNotObject))
      | HasProtoSetter \<Rightarrow>
          (case b of PRef a \<Rightarrow> set_proto h d (Some a) | PNull \<Rightarrow> set_proto h d None | _ \<Rightarrow> Some (Inr h))
      | NoProtoSetter \<Rightarrow>
          (case b of
             PRef a \<Rightarrow>
               (case ph_objs h a of
                  Some bo \<Rightarrow> Some (Inr (copy_statics h d bo (filter is_str_key (ordinary_own_keys (map fst (p_props bo))))))
                | None \<Rightarrow> Some (Inr h))
           | _ \<Rightarrow> Some (Inr h)))"

definition alloc :: "'v pheap \<Rightarrow> 'v pobj \<Rightarrow> nat \<times> 'v pheap" where
  "alloc h obj = (ph_next h, h\<lparr>ph_objs := (ph_objs h)(ph_next h \<mapsto> obj), ph_next := Suc (ph_next h)\<rparr>)"

text \<open>
  \<open>__extends(d, b)\<close>: \<open>extendStatics(d, b)\<close>; then \<open>d.prototype\<close> becomes
  \<open>Object.create(null)\<close> when \<open>b\<close> is \<open>null\<close>, else a \<open>new __()\<close> whose prototype
  is \<open>b.prototype\<close> and whose own \<open>constructor\<close> is \<open>d\<close>. Reading
  \<open>b.prototype\<close> of \<open>undefined\<close> throws.
\<close>

definition tslib_extends :: "statics_env \<Rightarrow> nat \<Rightarrow> 'v pheap \<Rightarrow> nat \<Rightarrow> 'v pv \<Rightarrow> (proto_error + 'v pheap) option" where
  "tslib_extends env objp h d b =
     (case extend_statics env h d b of
        None \<Rightarrow> None
      | Some (Inl e) \<Rightarrow> Some (Inl e)
      | Some (Inr h1) \<Rightarrow>
          (case b of
             PNull \<Rightarrow>
               (case alloc h1 \<lparr>p_props = [], p_proto = None\<rparr> of
                  (n, h2) \<Rightarrow> Some (Inr (set_own h2 d (PName ''prototype'') (PRef n))))
           | PUndef \<Rightarrow> Some (Inl PropOfUndefined)
           | PRef a \<Rightarrow>
               map_option
                 (\<lambda>bp. case alloc h1 \<lparr>p_props = [(PName ''constructor'', PRef d)],
                                       p_proto = Some (case bp of PRef p \<Rightarrow> p | _ \<Rightarrow> objp)\<rparr> of
                         (n, h2) \<Rightarrow> Inr (set_own h2 d (PName ''prototype'') (PRef n)))
                 (proto_get h1 a (PName ''prototype''))
           | PPrim v \<Rightarrow>
               (case alloc h1 \<lparr>p_props = [(PName ''constructor'', PRef d)], p_proto = Some objp\<rparr> of
                  (n, h2) \<Rightarrow> Some (Inr (set_own h2 d (PName ''prototype'') (PRef n))))))"

text \<open>
  A heap with two constructors, as an ES5 program has them before \<open>__extends(D, B)\<close>:
  0 is \<open>Object.prototype\<close>, 1 is \<open>B\<close> with its \<open>prototype\<close> 2 (a method
  \<open>greet\<close>), 3 is \<open>D\<close> with its original \<open>prototype\<close> 4.
\<close>

definition demo_class_heap :: "nat pheap" where
  "demo_class_heap =
     \<lparr>ph_objs = [0 \<mapsto> \<lparr>p_props = [], p_proto = None\<rparr>,
                 1 \<mapsto> \<lparr>p_props = [(PName ''prototype'', PRef 2)], p_proto = Some 0\<rparr>,
                 2 \<mapsto> \<lparr>p_props = [(PName ''greet'', PPrim 1)], p_proto = Some 0\<rparr>,
                 3 \<mapsto> \<lparr>p_props = [(PName ''prototype'', PRef 4)], p_proto = Some 0\<rparr>,
                 4 \<mapsto> \<lparr>p_props = [], p_proto = Some 0\<rparr>],
      ph_next = 5\<rparr>"

lemma proto_get_unfold:
  "proto_get h a k =
     (case ph_objs h a of
        None \<Rightarrow> Some PUndef
      | Some obj \<Rightarrow>
          (case map_of (p_props obj) k of
             Some v \<Rightarrow> Some v
           | None \<Rightarrow> (case p_proto obj of None \<Rightarrow> Some PUndef | Some p \<Rightarrow> proto_get h p k)))"
  by (rule proto_get.simps)

lemma proto_chain_has_unfold:
  "proto_chain_has h (Some a) o' =
     (if a = o' then Some True
      else (case ph_objs h a of None \<Rightarrow> Some False | Some obj \<Rightarrow> proto_chain_has h (p_proto obj) o'))"
  by (subst proto_chain_has.simps) simp

lemma chain_ends_mono: "chain_ends h n a \<Longrightarrow> n \<le> m \<Longrightarrow> chain_ends h m a"
proof (induction n arbitrary: m a)
  case 0
  then show ?case by (cases m) (auto split: option.splits)
next
  case (Suc n)
  then obtain m' where "m = Suc m'" "n \<le> m'" by (cases m) auto
  then show ?case using Suc by (auto split: option.splits)
qed

lemma proto_get_returns: "chain_ends h n a \<Longrightarrow> \<exists>v. proto_get h a k = Some v"
proof (induction n arbitrary: a)
  case 0
  then show ?case by (subst proto_get_unfold) (auto split: option.splits)
next
  case (Suc n)
  then show ?case by (subst proto_get_unfold) (auto split: option.splits)
qed

lemma chain_ends_same_links:
  assumes "\<And>a. map_option p_proto (ph_objs h' a) = map_option p_proto (ph_objs h a)"
  shows "chain_ends h' n a = chain_ends h n a"
proof (induction n arbitrary: a)
  case 0
  from assms [of a] show ?case by (cases "ph_objs h a"; cases "ph_objs h' a") auto
next
  case (Suc n)
  from assms [of a] show ?case
    using Suc.IH by (cases "ph_objs h a"; cases "ph_objs h' a") (auto split: option.splits)
qed

lemma set_own_links: "map_option p_proto (ph_objs (set_own h d k v) a) = map_option p_proto (ph_objs h a)"
  by (simp add: set_own_def upd_obj_def option.map_comp comp_def)

lemma copy_statics_links:
  "map_option p_proto (ph_objs (copy_statics h d bo ks) a) = map_option p_proto (ph_objs h a)"
  by (induction ks arbitrary: h) (simp_all add: set_own_links split: option.split)

lemma chains_finite_same_links:
  assumes "\<And>a. map_option p_proto (ph_objs h' a) = map_option p_proto (ph_objs h a)"
  shows "chains_finite h' = chains_finite h"
  unfolding chains_finite_def using chain_ends_same_links [of h' h, OF assms] by simp

lemma upd_obj_objs [simp]:
  "ph_objs (upd_obj h a f) x = (if x = a then map_option f (ph_objs h a) else ph_objs h x)"
  "ph_next (upd_obj h a f) = ph_next h"
  by (simp_all add: upd_obj_def)

lemma chain_avoids_relink:
  "chain_ends h n a \<Longrightarrow> proto_chain_has h (Some a) o' = Some False \<Longrightarrow>
   chain_ends (upd_obj h o' (\<lambda>ob. ob\<lparr>p_proto := v\<rparr>)) n a"
proof (induction n arbitrary: a)
  case 0
  then show ?case by (auto simp: proto_chain_has_unfold split: option.splits if_splits)
next
  case (Suc n)
  show ?case
  proof (cases "ph_objs h a")
    case (Some obj)
    then show ?thesis using Suc
      by (cases "p_proto obj") (auto simp: proto_chain_has_unfold split: if_splits)
  qed (use Suc.prems in \<open>auto simp: proto_chain_has_unfold split: if_splits\<close>)
qed

lemma relink_here:
  assumes tgt: "\<forall>p. v = Some p \<longrightarrow> chain_ends (upd_obj h o' (\<lambda>ob. ob\<lparr>p_proto := v\<rparr>)) k p"
    and "k \<le> n"
  shows "chain_ends (upd_obj h o' (\<lambda>ob. ob\<lparr>p_proto := v\<rparr>)) (Suc n) o'"
proof (cases "ph_objs h o'")
  case (Some obj)
  show ?thesis
  proof (cases v)
    case (Some p)
    then have "chain_ends (upd_obj h o' (\<lambda>ob. ob\<lparr>p_proto := v\<rparr>)) n p"
      using tgt assms(2) chain_ends_mono [of "upd_obj h o' (\<lambda>ob. ob\<lparr>p_proto := v\<rparr>)" k p n] by blast
    then show ?thesis using \<open>ph_objs h o' = Some obj\<close> Some by simp
  qed (simp add: Some)
qed simp

lemma chain_ends_relink:
  assumes tgt: "\<forall>p. v = Some p \<longrightarrow> chain_ends (upd_obj h o' (\<lambda>ob. ob\<lparr>p_proto := v\<rparr>)) k p"
  shows "chain_ends h m x \<Longrightarrow> chain_ends (upd_obj h o' (\<lambda>ob. ob\<lparr>p_proto := v\<rparr>)) (Suc (m + k)) x"
proof (induction m arbitrary: x)
  case 0
  show ?case
  proof (cases "x = o'")
    case False
    then show ?thesis using "0" by (cases "ph_objs h x") simp_all
  qed (use relink_here [OF tgt, of k] in simp)
next
  case (Suc m)
  show ?case
  proof (cases "x = o'")
    case False
    show ?thesis
    proof (cases "ph_objs h x")
      case (Some obj)
      show ?thesis
      proof (cases "p_proto obj")
        case (Some p)
        then have "chain_ends h m p" using Suc.prems \<open>ph_objs h x = Some obj\<close> by simp
        note ih = Suc.IH [OF this]
        show ?thesis using False \<open>ph_objs h x = Some obj\<close> Some ih by simp
      qed (simp add: False Some)
    qed (simp add: False)
  qed (use relink_here [OF tgt, of "Suc m + k"] in simp)
qed
lemma set_proto_chains_finite:
  assumes cf: "chains_finite h" and sp: "set_proto h o' v = Some (Inr h')"
  shows "chains_finite h'"
proof (cases "ph_objs h o' = None \<or> map_option p_proto (ph_objs h o') = Some v")
  case True
  then show ?thesis using cf sp by (auto simp: set_proto_def)
next
  case False
  then have nc: "proto_chain_has h v o' = Some False"
    and h': "h' = upd_obj h o' (\<lambda>ob. ob\<lparr>p_proto := v\<rparr>)"
    using sp by (auto simp: set_proto_def split: if_splits option.splits)
  obtain k where k: "\<forall>p. v = Some p \<longrightarrow> chain_ends h' k p"
  proof (cases v)
    case (Some p)
    obtain n where "chain_ends h n p" using cf by (auto simp: chains_finite_def)
    then show ?thesis using that chain_avoids_relink [of h n p o' v] nc Some h' by auto
  qed simp
  show ?thesis
    unfolding chains_finite_def
  proof
    fix x
    obtain m where "chain_ends h m x" using cf by (auto simp: chains_finite_def)
    then show "\<exists>n. chain_ends h' n x" using chain_ends_relink [of v h o' k m x] k h' by blast
  qed
qed

lemma alloc_objs [simp]:
  "ph_objs (snd (alloc h obj)) x = (if x = ph_next h then Some obj else ph_objs h x)"
  "ph_next (snd (alloc h obj)) = Suc (ph_next h)"
  "fst (alloc h obj) = ph_next h"
  by (simp_all add: alloc_def)

lemma heap_okD:
  "heap_ok h \<Longrightarrow> ph_objs h a = Some obj \<Longrightarrow> a < ph_next h"
  "heap_ok h \<Longrightarrow> ph_objs h a = Some obj \<Longrightarrow> p_proto obj = Some p \<Longrightarrow> p < ph_next h"
  "heap_ok h \<Longrightarrow> ph_objs h a = Some obj \<Longrightarrow> kv \<in> set (p_props obj) \<Longrightarrow> pv_ok (ph_next h) (snd kv)"
  unfolding heap_ok_def by blast+

lemma alloc_chain_old:
  "heap_ok h \<Longrightarrow> x \<noteq> ph_next h \<Longrightarrow> chain_ends h n x \<Longrightarrow> chain_ends (snd (alloc h obj)) n x"
proof (induction n arbitrary: x)
  case 0
  then show ?case by (cases "ph_objs h x") simp_all
next
  case (Suc n)
  show ?case
  proof (cases "ph_objs h x")
    case (Some ob)
    show ?thesis
    proof (cases "p_proto ob")
      case (Some p)
      then have "p < ph_next h" using heap_okD(2) [OF Suc.prems(1) \<open>ph_objs h x = Some ob\<close>] by blast
      then show ?thesis using Suc \<open>ph_objs h x = Some ob\<close> Some by simp
    qed (simp add: Some Suc.prems(2))
  qed (simp add: Suc.prems(2))
qed

lemma alloc_chains_finite:
  assumes ok: "heap_ok h" and cf: "chains_finite h" and pr: "\<forall>p. p_proto obj = Some p \<longrightarrow> p < ph_next h"
  shows "chains_finite (snd (alloc h obj))"
  unfolding chains_finite_def
proof
  fix x
  show "\<exists>n. chain_ends (snd (alloc h obj)) n x"
  proof (cases "x = ph_next h")
    case True
    show ?thesis
    proof (cases "p_proto obj")
      case (Some p)
      obtain n where "chain_ends h n p" using cf by (auto simp: chains_finite_def)
      then have "chain_ends (snd (alloc h obj)) n p" using alloc_chain_old [OF ok] pr Some by simp
      then have "chain_ends (snd (alloc h obj)) (Suc n) x" using True Some by simp
      then show ?thesis by blast
    next
      case None
      then have "chain_ends (snd (alloc h obj)) 0 x" using True by simp
      then show ?thesis by blast
    qed
  next
    case False
    obtain n where "chain_ends h n x" using cf by (auto simp: chains_finite_def)
    then show ?thesis using alloc_chain_old [OF ok False] by blast
  qed
qed

lemma pv_ok_mono: "pv_ok n v \<Longrightarrow> n \<le> m \<Longrightarrow> pv_ok m v"
  by (auto simp: pv_ok_def split: pv.splits)

lemma set_alist_update: "set (AList.update k v al) \<subseteq> insert (k, v) (set al)"
  by (induction al) auto

lemma set_own_next [simp]: "ph_next (set_own h a k v) = ph_next h"
  by (simp add: set_own_def)

lemma heap_ok_set_own:
  assumes ok: "heap_ok h" and v: "pv_ok (ph_next h) v"
  shows "heap_ok (set_own h a k v)"
  unfolding heap_ok_def
proof (intro allI impI)
  fix x obj
  assume x: "ph_objs (set_own h a k v) x = Some obj"
  show "x < ph_next (set_own h a k v) \<and> (\<forall>p. p_proto obj = Some p \<longrightarrow> p < ph_next (set_own h a k v)) \<and>
        (\<forall>kv\<in>set (p_props obj). pv_ok (ph_next (set_own h a k v)) (snd kv))"
  proof (cases "x = a")
    case True
    then obtain ob where ob: "ph_objs h a = Some ob"
      and obj: "obj = ob\<lparr>p_props := AList.update k v (p_props ob)\<rparr>"
      using x by (auto simp: set_own_def)
    have "\<forall>kv \<in> set (p_props obj). pv_ok (ph_next h) (snd kv)"
      using set_alist_update [of k v "p_props ob"] heap_okD(3) [OF ok ob] v obj by auto
    then show ?thesis using heap_okD(1,2) [OF ok ob] obj True by simp
  next
    case False
    then show ?thesis using x heap_okD [OF ok] by (simp add: set_own_def; blast)
  qed
qed

lemma heap_ok_relink:
  assumes ok: "heap_ok h" and v: "\<forall>p. v = Some p \<longrightarrow> p < ph_next h"
  shows "heap_ok (upd_obj h o' (\<lambda>ob. ob\<lparr>p_proto := v\<rparr>))"
  unfolding heap_ok_def
proof (intro allI impI)
  fix x obj
  assume x: "ph_objs (upd_obj h o' (\<lambda>ob. ob\<lparr>p_proto := v\<rparr>)) x = Some obj"
  show "x < ph_next (upd_obj h o' (\<lambda>ob. ob\<lparr>p_proto := v\<rparr>)) \<and>
        (\<forall>p. p_proto obj = Some p \<longrightarrow> p < ph_next (upd_obj h o' (\<lambda>ob. ob\<lparr>p_proto := v\<rparr>))) \<and>
        (\<forall>kv\<in>set (p_props obj). pv_ok (ph_next (upd_obj h o' (\<lambda>ob. ob\<lparr>p_proto := v\<rparr>))) (snd kv))"
  proof (cases "x = o'")
    case True
    then obtain ob where ob: "ph_objs h o' = Some ob" and obj: "obj = ob\<lparr>p_proto := v\<rparr>"
      using x by auto
    then show ?thesis using heap_okD(1,3) [OF ok ob] v True by simp
  next
    case False
    then show ?thesis using x heap_okD [OF ok] by (simp; blast)
  qed
qed

lemma heap_ok_set_proto:
  "heap_ok h \<Longrightarrow> (\<forall>p. v = Some p \<longrightarrow> p < ph_next h) \<Longrightarrow> set_proto h o' v = Some (Inr h') \<Longrightarrow>
   heap_ok h' \<and> ph_next h' = ph_next h"
  by (auto simp: set_proto_def heap_ok_relink split: option.splits if_splits)

lemma copy_statics_ok:
  "heap_ok h \<Longrightarrow> \<forall>kv \<in> set (p_props bo). pv_ok (ph_next h) (snd kv) \<Longrightarrow>
   heap_ok (copy_statics h d bo ks) \<and> ph_next (copy_statics h d bo ks) = ph_next h"
proof (induction ks arbitrary: h)
  case (Cons p ps)
  let ?h1 = "case map_of (p_props bo) p of Some v \<Rightarrow> set_own h d p v | None \<Rightarrow> h"
  have "heap_ok ?h1 \<and> ph_next ?h1 = ph_next h"
  proof (cases "map_of (p_props bo) p")
    case (Some v)
    then have "pv_ok (ph_next h) v" using Cons.prems(2) map_of_SomeD [OF Some] by fastforce
    then show ?thesis using Some heap_ok_set_own [OF Cons.prems(1)] by simp
  qed (simp add: Cons.prems(1))
  then show ?case using Cons.IH [of ?h1] Cons.prems(2) by simp
qed simp

lemma proto_get_ok:
  "heap_ok h \<Longrightarrow> chain_ends h n a \<Longrightarrow> proto_get h a k = Some v \<Longrightarrow> pv_ok (ph_next h) v"
proof (induction n arbitrary: a)
  case 0
  then show ?case
    by (subst (asm) proto_get_unfold)
       (auto simp: pv_ok_def dest: map_of_SomeD heap_okD(3) split: option.splits)
next
  case (Suc n)
  then show ?case
    by (subst (asm) proto_get_unfold)
       (auto simp: pv_ok_def dest: map_of_SomeD heap_okD(3) split: option.splits)
qed

lemma heap_ok_alloc:
  assumes ok: "heap_ok h" and pr: "\<forall>p. p_proto obj = Some p \<longrightarrow> p < ph_next h"
    and pv: "\<forall>kv \<in> set (p_props obj). pv_ok (Suc (ph_next h)) (snd kv)"
  shows "heap_ok (snd (alloc h obj))"
  unfolding heap_ok_def
proof (intro allI impI)
  fix x ob
  assume x: "ph_objs (snd (alloc h obj)) x = Some ob"
  show "x < ph_next (snd (alloc h obj)) \<and> (\<forall>p. p_proto ob = Some p \<longrightarrow> p < ph_next (snd (alloc h obj))) \<and>
        (\<forall>kv\<in>set (p_props ob). pv_ok (ph_next (snd (alloc h obj))) (snd kv))"
  proof (cases "x = ph_next h")
    case True
    then show ?thesis using x pr pv by auto
  next
    case False
    then have "ph_objs h x = Some ob" using x by simp
    then show ?thesis using heap_okD [OF ok] False
      by (auto intro: pv_ok_mono [of "ph_next h" _ "Suc (ph_next h)"] less_SucI)
  qed
qed

lemma extend_statics_ok:
  assumes ok: "heap_ok h" and cf: "chains_finite h" and b: "pv_ok (ph_next h) b"
    and r: "extend_statics env h d b = Some (Inr h1)"
  shows "heap_ok h1 \<and> chains_finite h1 \<and> ph_next h1 = ph_next h"
proof -
  have sp: "heap_ok h1 \<and> chains_finite h1 \<and> ph_next h1 = ph_next h"
    if "set_proto h d v = Some (Inr h1)" "\<forall>p. v = Some p \<longrightarrow> p < ph_next h" for v
    using heap_ok_set_proto [OF ok that(2,1)] set_proto_chains_finite [OF cf that(1)] by simp
  show ?thesis
  proof (cases env)
    case NoProtoSetter
    show ?thesis
    proof (cases "\<exists>a bo. b = PRef a \<and> ph_objs h a = Some bo")
      case True
      then obtain a bo where ab: "b = PRef a" "ph_objs h a = Some bo" by blast
      let ?ks = "filter is_str_key (ordinary_own_keys (map fst (p_props bo)))"
      have h1: "h1 = copy_statics h d bo ?ks" using r NoProtoSetter ab by (simp add: extend_statics_def)
      have "\<forall>kv \<in> set (p_props bo). pv_ok (ph_next h) (snd kv)" using heap_okD(3) [OF ok ab(2)] by blast
      then show ?thesis
        using copy_statics_ok [OF ok] cf h1 by (simp add: chains_finite_same_links [OF copy_statics_links])
    next
      case False
      then have "h1 = h" using r NoProtoSetter by (auto simp: extend_statics_def split: pv.splits option.splits)
      then show ?thesis using ok cf by simp
    qed
  next
    case HasSetPrototypeOf
    then show ?thesis using r b sp by (auto simp: extend_statics_def pv_ok_def split: pv.splits)
  next
    case HasProtoSetter
    then show ?thesis using r b sp ok cf by (auto simp: extend_statics_def pv_ok_def split: pv.splits)
  qed
qed

lemma install_prototype_ok:
  assumes ok: "heap_ok h1" and cf: "chains_finite h1" and d: "d < ph_next h1"
    and pr: "\<forall>p. p_proto obj = Some p \<longrightarrow> p < ph_next h1"
    and pv: "\<forall>kv \<in> set (p_props obj). pv_ok (Suc (ph_next h1)) (snd kv)"
  shows "heap_ok (set_own (snd (alloc h1 obj)) d (PName ''prototype'') (PRef (ph_next h1))) \<and>
         chains_finite (set_own (snd (alloc h1 obj)) d (PName ''prototype'') (PRef (ph_next h1)))"
proof
  show "heap_ok (set_own (snd (alloc h1 obj)) d (PName ''prototype'') (PRef (ph_next h1)))"
    using heap_ok_set_own [OF heap_ok_alloc [OF ok pr pv]] by (simp add: pv_ok_def)
  show "chains_finite (set_own (snd (alloc h1 obj)) d (PName ''prototype'') (PRef (ph_next h1)))"
    using alloc_chains_finite [OF ok cf pr] by (simp add: chains_finite_same_links [OF set_own_links])
qed

lemma proto_get_relink_avoid:
  "chain_ends h n a \<Longrightarrow> proto_chain_has h (Some a) o' = Some False \<Longrightarrow>
   proto_get (upd_obj h o' (\<lambda>ob. ob\<lparr>p_proto := v\<rparr>)) a k = proto_get h a k"
proof (induction n arbitrary: a)
  case 0
  then show ?case
    by (subst (1 2) proto_get_unfold) (auto simp: proto_chain_has_unfold split: option.splits if_splits)
next
  case (Suc n)
  show ?case
  proof (cases "ph_objs h a")
    case (Some obj)
    then have ao: "a \<noteq> o'" and nc: "proto_chain_has h (p_proto obj) o' = Some False"
      using Suc.prems(2) by (auto simp: proto_chain_has_unfold split: if_splits)
    show ?thesis
    proof (cases "p_proto obj")
      case (Some p)
      have "proto_get (upd_obj h o' (\<lambda>ob. ob\<lparr>p_proto := v\<rparr>)) p k = proto_get h p k"
        using Suc.IH Suc.prems(1) \<open>ph_objs h a = Some obj\<close> Some nc by simp
      then show ?thesis using ao \<open>ph_objs h a = Some obj\<close> Some
        by (subst (1 2) proto_get_unfold) (simp split: option.split)
    qed (use ao \<open>ph_objs h a = Some obj\<close> in \<open>subst (1 2) proto_get_unfold, simp split: option.split\<close>)
  qed (use Suc.prems(2) in \<open>subst (1 2) proto_get_unfold, auto simp: proto_chain_has_unfold split: if_splits\<close>)
qed

lemma proto_chain_has_returns: "chain_ends h n a \<Longrightarrow> \<exists>r. proto_chain_has h (Some a) o' = Some r"
proof (induction n arbitrary: a)
  case 0
  then show ?case
    by (auto simp: proto_chain_has_unfold proto_chain_has.simps [of h None] split: option.splits)
next
  case (Suc n)
  then show ?case
    by (auto simp: proto_chain_has_unfold proto_chain_has.simps [of h None] split: option.splits)
qed

lemma proto_walks_terminate:
  assumes "chains_finite h"
  shows "(\<forall>a k. \<exists>v. proto_get h a k = Some v) \<and> (\<forall>p o'. \<exists>r. proto_chain_has h p o' = Some r)"
proof (intro conjI allI)
  fix a k
  obtain n where "chain_ends h n a" using assms by (auto simp: chains_finite_def)
  then show "\<exists>v. proto_get h a k = Some v" by (rule proto_get_returns)
next
  fix p o'
  show "\<exists>r. proto_chain_has h p o' = Some r"
  proof (cases p)
    case (Some a)
    obtain n where "chain_ends h n a" using assms by (auto simp: chains_finite_def)
    then show ?thesis using Some proto_chain_has_returns by blast
  qed (rule exI [of _ False], simp add: proto_chain_has.simps [of h None])
qed

lemma demo_class_heap_chains: "chains_finite demo_class_heap"
proof -
  have "chain_ends demo_class_heap 1 a" for a
    by (simp add: demo_class_heap_def)
  then show ?thesis unfolding chains_finite_def by blast
qed

text \<open>
  On a sound heap, \<open>__extends(d, b)\<close> returns, normally or with a
  \<open>TypeError\<close>, in each of the three engines: the cycle check of
  \<open>setPrototypeOf\<close> and the read of \<open>b.prototype\<close> walk finite chains, the
  first because the heap's chains are finite, the second because
  \<open>extendStatics\<close> kept them finite.
\<close>

theorem extends_terminates:
  assumes ok: "heap_ok h" and cf: "chains_finite h" and b: "pv_ok (ph_next h) b"
  shows "\<exists>r. tslib_extends env objp h d b = Some r"
proof -
  have sp: "\<exists>r. set_proto h d v = Some r" for v
  proof (cases "ph_objs h d")
    case (Some obj)
    obtain c where "proto_chain_has h v d = Some c" using proto_walks_terminate [OF cf] by blast
    then show ?thesis using Some by (simp add: set_proto_def)
  qed (simp add: set_proto_def)
  have "\<exists>r1. extend_statics env h d b = Some r1"
    using sp by (cases env; cases b) (simp_all add: extend_statics_def split: option.split)
  then obtain r1 where es: "extend_statics env h d b = Some r1" by blast
  show ?thesis
  proof (cases r1)
    case (Inl e)
    then show ?thesis using es by (simp add: tslib_extends_def)
  next
    case (Inr h1)
    then have "chains_finite h1" using extend_statics_ok [OF ok cf b] es by simp
    then have "\<exists>v. proto_get h1 a k = Some v" for a k using proto_walks_terminate by blast
    then show ?thesis using es Inr
      by (cases b) (auto simp: tslib_extends_def split: prod.split)
  qed
qed

lemma demo_class_heap_ok: "heap_ok demo_class_heap"
  by (auto simp: heap_ok_def demo_class_heap_def pv_ok_def split: if_splits)

theorem extends_terminates_witness:
  "\<exists>r. tslib_extends NoProtoSetter 0 demo_class_heap 3 (PRef 1) = Some r"
  using extends_terminates [OF demo_class_heap_ok demo_class_heap_chains, of "PRef 1"]
  by (simp add: demo_class_heap_def pv_ok_def)

text \<open>
  \<open>__extends\<close> keeps the object heap sound: started from a heap whose references
  and prototype links all point to allocated objects and whose prototype chains are all
  finite, every call that returns normally, in each of the three engines, leaves a heap
  with the same two properties; the cycle check of \<open>setPrototypeOf\<close> is what keeps
  the chains finite.
\<close>

theorem extends_keeps_heap_sound:
  assumes ok: "heap_ok h" and cf: "chains_finite h" and objp: "objp < ph_next h"
    and d: "d < ph_next h" and b: "pv_ok (ph_next h) b"
    and r: "tslib_extends env objp h d b = Some (Inr h')"
  shows "heap_ok h' \<and> chains_finite h'"
proof -
  obtain h1 where es: "extend_statics env h d b = Some (Inr h1)"
    using r by (auto simp: tslib_extends_def split: option.splits sum.splits)
  have h1: "heap_ok h1" "chains_finite h1" "ph_next h1 = ph_next h"
    using extend_statics_ok [OF ok cf b es] by simp_all
  have dd: "d < ph_next h1" using d h1(3) by simp
  have dc: "\<forall>kv \<in> set [(PName ''constructor'', PRef d)]. pv_ok (Suc (ph_next h1)) (snd kv)"
    using dd by (simp add: pv_ok_def)
  show ?thesis
  proof (cases b)
    case PNull
    then have "h' = set_own (snd (alloc h1 \<lparr>p_props = [], p_proto = None\<rparr>)) d (PName ''prototype'') (PRef (ph_next h1))"
      using r es by (simp add: tslib_extends_def alloc_def)
    moreover have "heap_ok (set_own (snd (alloc h1 \<lparr>p_props = [], p_proto = None\<rparr>)) d (PName ''prototype'') (PRef (ph_next h1))) \<and>
                   chains_finite (set_own (snd (alloc h1 \<lparr>p_props = [], p_proto = None\<rparr>)) d (PName ''prototype'') (PRef (ph_next h1)))"
      by (rule install_prototype_ok [OF h1(1,2) dd]) simp_all
    ultimately show ?thesis by simp
  next
    case PUndef
    then show ?thesis using r es by (simp add: tslib_extends_def)
  next
    case (PPrim v)
    let ?obj = "\<lparr>p_props = [(PName ''constructor'', PRef d)], p_proto = Some objp\<rparr>"
    have "h' = set_own (snd (alloc h1 ?obj)) d (PName ''prototype'') (PRef (ph_next h1))"
      using r es PPrim by (simp add: tslib_extends_def alloc_def)
    moreover have "heap_ok (set_own (snd (alloc h1 ?obj)) d (PName ''prototype'') (PRef (ph_next h1))) \<and>
                   chains_finite (set_own (snd (alloc h1 ?obj)) d (PName ''prototype'') (PRef (ph_next h1)))"
      by (rule install_prototype_ok [OF h1(1,2) dd]) (use objp h1(3) dc in simp_all)
    ultimately show ?thesis by simp
  next
    case (PRef a)
    obtain n where "chain_ends h1 n a" using h1(2) by (auto simp: chains_finite_def)
    moreover obtain bp where bp: "proto_get h1 a (PName ''prototype'') = Some bp"
      using proto_get_returns [OF calculation] by blast
    ultimately have "pv_ok (ph_next h1) bp" using proto_get_ok [OF h1(1)] by blast
    then have pr: "(case bp of PRef p \<Rightarrow> p | _ \<Rightarrow> objp) < ph_next h1"
      using objp h1(3) by (auto simp: pv_ok_def split: pv.splits)
    let ?obj = "\<lparr>p_props = [(PName ''constructor'', PRef d)], p_proto = Some (case bp of PRef p \<Rightarrow> p | _ \<Rightarrow> objp)\<rparr>"
    have "h' = set_own (snd (alloc h1 ?obj)) d (PName ''prototype'') (PRef (ph_next h1))"
      using r es PRef bp by (simp add: tslib_extends_def alloc_def)
    moreover have "heap_ok (set_own (snd (alloc h1 ?obj)) d (PName ''prototype'') (PRef (ph_next h1))) \<and>
                   chains_finite (set_own (snd (alloc h1 ?obj)) d (PName ''prototype'') (PRef (ph_next h1)))"
      by (rule install_prototype_ok [OF h1(1,2) dd]) (use pr dc in simp_all)
    ultimately show ?thesis by simp
  qed
qed

theorem extends_keeps_heap_sound_witness:
  "\<exists>h'. tslib_extends HasSetPrototypeOf 0 demo_class_heap 3 (PRef 1) = Some (Inr h') \<and>
        heap_ok h' \<and> chains_finite h'"
proof -
  note ok = demo_class_heap_ok
  obtain h' where r: "tslib_extends HasSetPrototypeOf 0 demo_class_heap 3 (PRef 1) = Some (Inr h')"
    by (simp add: tslib_extends_def extend_statics_def set_proto_def demo_class_heap_def
          proto_chain_has_unfold proto_chain_has.simps [of _ None] proto_get_unfold alloc_def)
  then show ?thesis
    using extends_keeps_heap_sound [OF ok demo_class_heap_chains _ _ _ r]
    by (simp add: demo_class_heap_def pv_ok_def)
qed

lemma set_proto_relinks:
  assumes cf: "chains_finite h" and dobj: "ph_objs h d = Some dobj"
    and sp: "set_proto h d (Some bb) = Some (Inr h1)"
  shows "ph_objs h1 d = Some (dobj\<lparr>p_proto := Some bb\<rparr>) \<and> (\<forall>x. x \<noteq> d \<longrightarrow> ph_objs h1 x = ph_objs h x) \<and>
         ph_next h1 = ph_next h \<and> (\<forall>k. proto_get h1 bb k = proto_get h bb k)"
proof (cases "p_proto dobj = Some bb")
  case True
  then show ?thesis using sp dobj by (simp add: set_proto_def)
next
  case False
  then have nc: "proto_chain_has h (Some bb) d = Some False"
    and h1: "h1 = upd_obj h d (\<lambda>ob. ob\<lparr>p_proto := Some bb\<rparr>)"
    using sp dobj by (auto simp: set_proto_def split: if_splits)
  obtain n where "chain_ends h n bb" using cf by (auto simp: chains_finite_def)
  then show ?thesis using proto_get_relink_avoid [OF _ nc] h1 dobj by simp
qed

text \<open>
  C37: where the engine has \<open>Object.setPrototypeOf\<close> or \<open>__proto__\<close>, a successful
  \<open>__extends(D, B)\<close> on a sound heap, \<open>B.prototype\<close> being an object \<open>P\<close>, makes
  \<open>D.prototype\<close> a fresh object whose \<open>constructor\<close> is \<open>D\<close> and which answers
  every other property as \<open>P\<close> does (instances of \<open>D\<close> inherit \<open>B\<close>'s methods),
  and makes \<open>D\<close> answer every property it does not own itself, other than
  \<open>prototype\<close>, as \<open>B\<close> does (static members are inherited).
\<close>

theorem extends_sets_up_inheritance:
  assumes ok: "heap_ok h" and cf: "chains_finite h" and env: "env \<noteq> NoProtoSetter"
    and dobj: "ph_objs h d = Some dobj"
    and bp: "proto_get h bb (PName ''prototype'') = Some (PRef p)"
    and r: "tslib_extends env objp h d (PRef bb) = Some (Inr h')"
  shows "proto_get h' d (PName ''prototype'') = Some (PRef (ph_next h)) \<and>
         proto_get h' (ph_next h) (PName ''constructor'') = Some (PRef d) \<and>
         (\<forall>k. k \<noteq> PName ''constructor'' \<longrightarrow> proto_get h' (ph_next h) k = proto_get h' p k) \<and>
         (\<forall>k. k \<notin> fst ` set (p_props dobj) \<longrightarrow> k \<noteq> PName ''prototype'' \<longrightarrow>
              proto_get h' d k = proto_get h' bb k)"
proof -
  have es: "extend_statics env h d (PRef bb) = set_proto h d (Some bb)"
    using env by (cases env) (simp_all add: extend_statics_def)
  obtain h1 where sp: "set_proto h d (Some bb) = Some (Inr h1)"
    using r es by (auto simp: tslib_extends_def split: option.splits sum.splits)
  note h1 = set_proto_relinks [OF cf dobj sp]
  have dn: "d \<noteq> ph_next h" using heap_okD(1) [OF ok dobj] by simp
  let ?obj = "\<lparr>p_props = [(PName ''constructor'', PRef d)], p_proto = Some p\<rparr>"
  have h': "h' = set_own (snd (alloc h1 ?obj)) d (PName ''prototype'') (PRef (ph_next h))"
    using r es sp h1 bp by (simp add: tslib_extends_def alloc_def)
  have od: "ph_objs h' d = Some (dobj\<lparr>p_proto := Some bb,
                                       p_props := AList.update (PName ''prototype'') (PRef (ph_next h)) (p_props dobj)\<rparr>)"
    using h' h1 dn by (simp add: set_own_def)
  have on: "ph_objs h' (ph_next h) = Some ?obj" using h' h1 dn by (simp add: set_own_def)
  show ?thesis
  proof (intro conjI allI impI)
    show "proto_get h' d (PName ''prototype'') = Some (PRef (ph_next h))"
      using od by (subst proto_get_unfold) (simp add: update_conv')
    show "proto_get h' (ph_next h) (PName ''constructor'') = Some (PRef d)"
      using on by (subst proto_get_unfold) simp
  next
    fix k
    assume "k \<noteq> PName ''constructor''"
    then show "proto_get h' (ph_next h) k = proto_get h' p k"
      using on by (subst proto_get_unfold) simp
  next
    fix k
    assume "k \<notin> fst ` set (p_props dobj)" "k \<noteq> PName ''prototype''"
    then have "map_of (AList.update (PName ''prototype'') (PRef (ph_next h)) (p_props dobj)) k = None"
      by (simp add: update_conv' map_of_eq_None_iff)
    then show "proto_get h' d k = proto_get h' bb k"
      using od by (subst proto_get_unfold) simp
  qed
qed

theorem extends_sets_up_inheritance_witness:
  "\<exists>h'. tslib_extends HasSetPrototypeOf 0 demo_class_heap 3 (PRef 1) = Some (Inr h') \<and>
        proto_get h' 3 (PName ''prototype'') = Some (PRef 5) \<and>
        proto_get h' 5 (PName ''greet'') = proto_get h' 2 (PName ''greet'')"
proof -
  note ok = demo_class_heap_ok
  have bp: "proto_get demo_class_heap 1 (PName ''prototype'') = Some (PRef 2)"
    by (simp add: proto_get_unfold demo_class_heap_def)
  obtain h' where r: "tslib_extends HasSetPrototypeOf 0 demo_class_heap 3 (PRef 1) = Some (Inr h')"
    by (simp add: tslib_extends_def extend_statics_def set_proto_def demo_class_heap_def
          proto_chain_has_unfold proto_chain_has.simps [of _ None] proto_get_unfold alloc_def)
  then show ?thesis
    using extends_sets_up_inheritance [OF ok demo_class_heap_chains _ _ bp r]
    by (simp add: demo_class_heap_def)
qed

lemma copy_statics_own:
  "ph_objs h d = Some o' \<Longrightarrow>
   \<exists>o2. ph_objs (copy_statics h d bo ks) d = Some o2 \<and> p_proto o2 = p_proto o' \<and>
        (\<forall>k. map_of (p_props o2) k =
               (if k \<in> set ks \<and> map_of (p_props bo) k \<noteq> None then map_of (p_props bo) k else map_of (p_props o') k))"
proof (induction ks arbitrary: h o')
  case Nil
  then show ?case by simp
next
  case (Cons p ps)
  show ?case
  proof (cases "map_of (p_props bo) p")
    case None
    then show ?thesis using Cons.IH [OF Cons.prems] by auto
  next
    case (Some v)
    have "ph_objs (set_own h d p v) d = Some (o'\<lparr>p_props := AList.update p v (p_props o')\<rparr>)"
      using Cons.prems by (simp add: set_own_def)
    from Cons.IH [OF this] Some show ?thesis by (auto simp: update_conv')
  qed
qed

text \<open>
  C38: the engines of \<open>extendStatics\<close> disagree on static members added to the base
  class after \<open>__extends(D, B)\<close>, on every sound heap and for every key \<open>k\<close> that
  \<open>D\<close> does not own. With \<open>Object.setPrototypeOf\<close>, \<open>D\<close> is linked to \<open>B\<close>:
  a \<open>B[k] = v\<close> made later is read back as \<open>D[k] = v\<close>. With the copying fallback,
  \<open>D\<close> keeps its own prototype link and owns what \<open>B\<close> owned at the call (its
  string-keyed own \<open>k\<close>, or nothing), whatever \<open>B[k]\<close> becomes later.
\<close>

theorem extends_statics_snapshot:
  assumes ok: "heap_ok h" and cf: "chains_finite h"
    and dobj: "ph_objs h d = Some od" and bobj: "ph_objs h b = Some ob" and db: "d \<noteq> b"
    and kp: "k \<noteq> PName ''prototype''" and kd: "k \<notin> fst ` set (p_props od)"
  shows "(\<forall>h1. tslib_extends HasSetPrototypeOf objp h d (PRef b) = Some (Inr h1) \<longrightarrow>
              proto_get (set_own h1 b k v) d k = Some v) \<and>
         (\<exists>h2 od'. tslib_extends NoProtoSetter objp h d (PRef b) = Some (Inr h2) \<and>
              ph_objs (set_own h2 b k v) d = Some od' \<and> p_proto od' = p_proto od \<and>
              map_of (p_props od') k = (if is_str_key k then map_of (p_props ob) k else None))"
proof (intro conjI allI impI)
  fix h1
  assume r: "tslib_extends HasSetPrototypeOf objp h d (PRef b) = Some (Inr h1)"
  obtain h0 where sp: "set_proto h d (Some b) = Some (Inr h0)"
    using r by (auto simp: tslib_extends_def extend_statics_def split: option.splits sum.splits)
  note h0 = set_proto_relinks [OF cf dobj sp]
  have dn: "d \<noteq> ph_next h" and bn: "b \<noteq> ph_next h"
    using heap_okD(1) [OF ok dobj] heap_okD(1) [OF ok bobj] by simp_all
  obtain bp where bp: "proto_get h0 b (PName ''prototype'') = Some bp"
    using r sp by (auto simp: tslib_extends_def extend_statics_def split: option.splits)
  let ?obj = "\<lparr>p_props = [(PName ''constructor'', PRef d)], p_proto = Some (case bp of PRef p \<Rightarrow> p | _ \<Rightarrow> objp)\<rparr>"
  have h1: "h1 = set_own (snd (alloc h0 ?obj)) d (PName ''prototype'') (PRef (ph_next h))"
    using r sp bp h0 by (simp add: tslib_extends_def extend_statics_def alloc_def)
  have od1: "ph_objs (set_own h1 b k v) d =
               Some (od\<lparr>p_proto := Some b, p_props := AList.update (PName ''prototype'') (PRef (ph_next h)) (p_props od)\<rparr>)"
    using h1 h0 dn db dobj by (simp add: set_own_def alloc_def)
  have ob1: "ph_objs (set_own h1 b k v) b = Some (ob\<lparr>p_props := AList.update k v (p_props ob)\<rparr>)"
    using h1 h0 bn db bobj by (simp add: set_own_def alloc_def)
  have "map_of (AList.update (PName ''prototype'') (PRef (ph_next h)) (p_props od)) k = None"
    using kp kd by (simp add: update_conv' map_of_eq_None_iff)
  then show "proto_get (set_own h1 b k v) d k = Some v"
    using od1 ob1 by (simp add: proto_get_unfold [of _ d] proto_get_unfold [of _ b] update_conv')
next
  let ?ks = "filter is_str_key (ordinary_own_keys (map fst (p_props ob)))"
  let ?h1 = "copy_statics h d ob ?ks"
  have es: "extend_statics NoProtoSetter h d (PRef b) = Some (Inr ?h1)"
    using bobj by (simp add: extend_statics_def)
  have bok: "pv_ok (ph_next h) (PRef b)" using heap_okD(1) [OF ok bobj] by (simp add: pv_ok_def)
  obtain r where "tslib_extends NoProtoSetter objp h d (PRef b) = Some r"
    using extends_terminates [OF ok cf bok] by blast
  then obtain bp where bp: "proto_get ?h1 b (PName ''prototype'') = Some bp"
    using es by (auto simp: tslib_extends_def)
  let ?obj = "\<lparr>p_props = [(PName ''constructor'', PRef d)], p_proto = Some (case bp of PRef p \<Rightarrow> p | _ \<Rightarrow> objp)\<rparr>"
  let ?h2 = "set_own (snd (alloc ?h1 ?obj)) d (PName ''prototype'') (PRef (ph_next ?h1))"
  have r2: "tslib_extends NoProtoSetter objp h d (PRef b) = Some (Inr ?h2)"
    using es bp by (simp add: tslib_extends_def alloc_def)
  obtain o2 where o2: "ph_objs ?h1 d = Some o2" "p_proto o2 = p_proto od"
    and m2: "\<forall>k. map_of (p_props o2) k =
               (if k \<in> set ?ks \<and> map_of (p_props ob) k \<noteq> None then map_of (p_props ob) k else map_of (p_props od) k)"
    using copy_statics_own [OF dobj] by blast
  have "\<forall>kv \<in> set (p_props ob). pv_ok (ph_next h) (snd kv)" using heap_okD(3) [OF ok bobj] by blast
  then have nx: "ph_next ?h1 = ph_next h" using copy_statics_ok [OF ok] by blast
  have dn: "d \<noteq> ph_next ?h1" using heap_okD(1) [OF ok dobj] nx by simp
  have od2: "ph_objs (set_own ?h2 b k v) d =
               Some (o2\<lparr>p_props := AList.update (PName ''prototype'') (PRef (ph_next ?h1)) (p_props o2)\<rparr>)"
    using o2(1) dn db by (simp add: set_own_def alloc_def)
  have odk: "map_of (p_props od) k = None" using kd by (simp add: map_of_eq_None_iff)
  have "map_of (p_props o2) k = (if is_str_key k then map_of (p_props ob) k else None)"
  proof (cases "map_of (p_props ob) k")
    case None
    then show ?thesis using m2 odk by simp
  next
    case (Some w)
    then have "k \<in> fst ` set (p_props ob)" by (metis map_of_eq_None_iff option.distinct(1))
    then show ?thesis using m2 odk Some by simp
  qed
  then show "\<exists>h2 od'. tslib_extends NoProtoSetter objp h d (PRef b) = Some (Inr h2) \<and>
              ph_objs (set_own h2 b k v) d = Some od' \<and> p_proto od' = p_proto od \<and>
              map_of (p_props od') k = (if is_str_key k then map_of (p_props ob) k else None)"
    using r2 od2 o2(2) kp by (simp add: update_conv')
qed

theorem extends_statics_snapshot_witness:
  "\<exists>h1 h2 od'. tslib_extends HasSetPrototypeOf 0 demo_class_heap 3 (PRef 1) = Some (Inr h1) \<and>
      proto_get (set_own h1 1 (PName ''create'') (PPrim 7)) 3 (PName ''create'') = Some (PPrim 7) \<and>
      tslib_extends NoProtoSetter 0 demo_class_heap 3 (PRef 1) = Some (Inr h2) \<and>
      ph_objs (set_own h2 1 (PName ''create'') (PPrim 7)) 3 = Some od' \<and>
      map_of (p_props od') (PName ''create'') = None"
proof -
  have dobj: "ph_objs demo_class_heap 3 = Some \<lparr>p_props = [(PName ''prototype'', PRef 4)], p_proto = Some 0\<rparr>"
    and bobj: "ph_objs demo_class_heap 1 = Some \<lparr>p_props = [(PName ''prototype'', PRef 2)], p_proto = Some 0\<rparr>"
    by (simp_all add: demo_class_heap_def)
  obtain h1 where r: "tslib_extends HasSetPrototypeOf 0 demo_class_heap 3 (PRef 1) = Some (Inr h1)"
    by (simp add: tslib_extends_def extend_statics_def set_proto_def demo_class_heap_def
          proto_chain_has_unfold proto_chain_has.simps [of _ None] proto_get_unfold alloc_def)
  note snap = extends_statics_snapshot [OF demo_class_heap_ok demo_class_heap_chains dobj bobj,
      where k = "PName ''create''" and v = "PPrim 7" and objp = 0]
  show ?thesis using snap r by auto
qed

end
