(* ===== verification/Interop.thy ===== *)
theory Interop
  imports Prototypes
begin

text \<open>
  tslib's module interop helpers (umd lines 166-179 and 267-295): \<open>__createBinding\<close>,
  \<open>__exportStar\<close>, \<open>__makeTemplateObject\<close>, \<open>__setModuleDefault\<close>,
  \<open>__importStar\<close> and \<open>__importDefault\<close>, the code TypeScript emits for
  \<open>import * as m\<close>, \<open>import m from\<close> and \<open>export * from\<close> of a CommonJS module.

  The imported module is an object of the heap of theory \<open>Prototypes\<close>. The objects
  the helpers build (the namespace \<open>result\<close>, an \<open>exports\<close> object, a template
  object) are \<open>iobj\<close>s whose properties carry their attributes: a data property
  (value, enumerable, writable, configurable) or a getter that reads \<open>m[k]\<close> when it
  is read (a live binding). \<open>Object.defineProperty\<close> follows
  ValidateAndApplyPropertyDescriptor for the descriptors the helpers pass: attributes
  left out default to \<open>false\<close> on a new property, and a non-configurable property can
  only be redefined compatibly, otherwise a \<open>TypeError\<close>. Assignment \<open>o[k] = v\<close>
  runs in strict mode (the bundle is \<open>'use strict'\<close>): it creates a writable,
  enumerable, configurable property, updates a writable one, and throws on a
  non-writable one or a getter without setter. The engine either has
  \<open>Object.create\<close> and \<open>Object.defineProperty\<close> (ES5, \<open>es5\<close>) or not.
  A \<open>for-in\<close> over a heap object visits its own string keys, then those of its
  prototypes not seen yet; it walks the chain, so it is a partial function.
  Truthiness of the application's primitives is the parameter \<open>tr\<close>.
\<close>

datatype 'v iprop = IData "'v pv" bool bool bool | IGet nat pkey bool bool

record 'v iobj =
  i_props :: "(pkey \<times> 'v iprop) list"

datatype interop_error = CannotRedefine | NotWritable

datatype 'v imported = ImpModule "'v pv" | ImpNs "'v iobj"

primrec prop_configurable :: "'v iprop \<Rightarrow> bool" where
  "prop_configurable (IData v e w c) = c"
| "prop_configurable (IGet m k e c) = c"

text \<open>ValidateAndApplyPropertyDescriptor on a non-configurable current property.\<close>

fun compatible_redefinition :: "'v iprop \<Rightarrow> 'v iprop \<Rightarrow> bool" where
  "compatible_redefinition (IData v e w c) (IData v' e' w' c') = (\<not> c' \<and> e' = e \<and> (w \<or> (\<not> w' \<and> v' = v)))"
| "compatible_redefinition (IGet m k e c) (IGet m' k' e' c') = (\<not> c' \<and> e' = e \<and> m' = m \<and> k' = k)"
| "compatible_redefinition _ _ = False"

definition define_property :: "'v iobj \<Rightarrow> pkey \<Rightarrow> 'v iprop \<Rightarrow> interop_error + 'v iobj" where
  "define_property o' k p =
     (case map_of (i_props o') k of
        None \<Rightarrow> Inr (o'\<lparr>i_props := AList.update k p (i_props o')\<rparr>)
      | Some cur \<Rightarrow>
          if prop_configurable cur \<or> compatible_redefinition cur p
          then Inr (o'\<lparr>i_props := AList.update k p (i_props o')\<rparr>)
          else Inl CannotRedefine)"

definition assign_prop :: "'v iobj \<Rightarrow> pkey \<Rightarrow> 'v pv \<Rightarrow> interop_error + 'v iobj" where
  "assign_prop o' k v =
     (case map_of (i_props o') k of
        None \<Rightarrow> Inr (o'\<lparr>i_props := AList.update k (IData v True True True) (i_props o')\<rparr>)
      | Some (IData v0 e w c) \<Rightarrow>
          if w then Inr (o'\<lparr>i_props := AList.update k (IData v e w c) (i_props o')\<rparr>) else Inl NotWritable
      | Some (IGet m k' e c) \<Rightarrow> Inl NotWritable)"

text \<open>Reading a property of a built object: a getter reads \<open>m[k]\<close> now.\<close>

definition iget :: "'v pheap \<Rightarrow> 'v iobj \<Rightarrow> pkey \<Rightarrow> 'v pv option" where
  "iget h o' k =
     (case map_of (i_props o') k of
        Some (IData v e w c) \<Rightarrow> Some v
      | Some (IGet m k' e c) \<Rightarrow> proto_get h m k'
      | None \<Rightarrow> Some PUndef)"

partial_function (option) heap_for_in :: "'v pheap \<Rightarrow> nat \<Rightarrow> pkey list option" where
  "heap_for_in h a =
     (case ph_objs h a of
        None \<Rightarrow> Some []
      | Some obj \<Rightarrow>
          (let own = filter is_str_key (ordinary_own_keys (map fst (p_props obj)))
           in case p_proto obj of
                None \<Rightarrow> Some own
              | Some p \<Rightarrow> Option.bind (heap_for_in h p) (\<lambda>ks. Some (own @ [k \<leftarrow> ks. k \<notin> set own]))))"

definition pv_truthy :: "('v \<Rightarrow> bool) \<Rightarrow> 'v pv \<Rightarrow> bool" where
  "pv_truthy tr v = (case v of PRef a \<Rightarrow> True | PPrim x \<Rightarrow> tr x | PNull \<Rightarrow> False | PUndef \<Rightarrow> False)"

text \<open>
  \<open>__createBinding(o, m, k, k2)\<close>, umd 166-174: with \<open>Object.create\<close> a getter
  \<open>{enumerable: true, get: () => m[k]}\<close>, else a copy \<open>o[k2] = m[k]\<close>. The helpers
  of this file always pass \<open>k2\<close> undefined, so \<open>k2 = k\<close>.
\<close>

definition create_binding :: "bool \<Rightarrow> 'v pheap \<Rightarrow> 'v iobj \<Rightarrow> nat \<Rightarrow> pkey \<Rightarrow> (interop_error + 'v iobj) option" where
  "create_binding es5 h o' m k =
     (if es5 then Some (define_property o' k (IGet m k True False))
      else map_option (assign_prop o' k) (proto_get h m k))"

text \<open>\<open>__exportStar(m, exports)\<close>, umd 175-179.\<close>

fun export_star_loop :: "bool \<Rightarrow> 'v pheap \<Rightarrow> nat \<Rightarrow> 'v iobj \<Rightarrow> pkey list \<Rightarrow> (interop_error + 'v iobj) option" where
  "export_star_loop es5 h m ex [] = Some (Inr ex)"
| "export_star_loop es5 h m ex (p # ps) =
     (if p \<noteq> PName ''default'' \<and> p \<notin> fst ` set (i_props ex)
      then (case create_binding es5 h ex m p of
              None \<Rightarrow> None
            | Some (Inl e) \<Rightarrow> Some (Inl e)
            | Some (Inr ex') \<Rightarrow> export_star_loop es5 h m ex' ps)
      else export_star_loop es5 h m ex ps)"

definition export_star :: "bool \<Rightarrow> 'v pheap \<Rightarrow> nat \<Rightarrow> 'v iobj \<Rightarrow> (interop_error + 'v iobj) option" where
  "export_star es5 h m ex = (case heap_for_in h m of None \<Rightarrow> None | Some ks \<Rightarrow> export_star_loop es5 h m ex ks)"

text \<open>
  \<open>__makeTemplateObject(cooked, raw)\<close>, umd 267-275: with
  \<open>Object.defineProperty\<close>, \<open>raw\<close> becomes a non-enumerable, read-only property;
  otherwise a plain assignment.
\<close>

definition make_template_object :: "bool \<Rightarrow> 'v iobj \<Rightarrow> 'v pv \<Rightarrow> interop_error + 'v iobj" where
  "make_template_object es5 cooked raw =
     (if es5 then define_property cooked (PName ''raw'') (IData raw False False False)
      else assign_prop cooked (PName ''raw'') raw)"

text \<open>\<open>__setModuleDefault(o, v)\<close>, umd 277-281.\<close>

definition set_module_default :: "bool \<Rightarrow> 'v iobj \<Rightarrow> 'v pv \<Rightarrow> interop_error + 'v iobj" where
  "set_module_default es5 o' v =
     (if es5 then define_property o' (PName ''default'') (IData v True False False)
      else assign_prop o' (PName ''default'') v)"

text \<open>
  \<open>__importStar(mod)\<close>, umd 282-292: an ES module is returned as it is; otherwise a
  fresh namespace gets a binding for every own key of \<open>mod\<close> met by the \<open>for-in\<close>,
  then \<open>default\<close> is set to \<open>mod\<close> itself.
\<close>

fun import_star_loop :: "bool \<Rightarrow> 'v pheap \<Rightarrow> nat \<Rightarrow> 'v iobj \<Rightarrow> pkey list \<Rightarrow> (interop_error + 'v iobj) option" where
  "import_star_loop es5 h a r [] = Some (Inr r)"
| "import_star_loop es5 h a r (k # ks) =
     (if (case ph_objs h a of Some obj \<Rightarrow> k \<in> fst ` set (p_props obj) | None \<Rightarrow> False)
      then (case create_binding es5 h r a k of
              None \<Rightarrow> None
            | Some (Inl e) \<Rightarrow> Some (Inl e)
            | Some (Inr r') \<Rightarrow> import_star_loop es5 h a r' ks)
      else import_star_loop es5 h a r ks)"

definition is_es_module :: "('v \<Rightarrow> bool) \<Rightarrow> 'v pheap \<Rightarrow> 'v pv \<Rightarrow> bool option" where
  "is_es_module tr h md =
     (case md of
        PRef a \<Rightarrow> map_option (pv_truthy tr) (proto_get h a (PName ''__esModule''))
      | _ \<Rightarrow> Some False)"

definition import_star :: "bool \<Rightarrow> ('v \<Rightarrow> bool) \<Rightarrow> 'v pheap \<Rightarrow> 'v pv \<Rightarrow> (interop_error + 'v imported) option" where
  "import_star es5 tr h md =
     (case is_es_module tr h md of
        None \<Rightarrow> None
      | Some True \<Rightarrow> Some (Inr (ImpModule md))
      | Some False \<Rightarrow>
          (let bound =
             (case md of
                PRef a \<Rightarrow>
                  (case heap_for_in h a of
                     None \<Rightarrow> None
                   | Some ks \<Rightarrow> import_star_loop es5 h a \<lparr>i_props = []\<rparr> ks)
              | _ \<Rightarrow> Some (Inr \<lparr>i_props = []\<rparr>))
           in case bound of
                None \<Rightarrow> None
              | Some (Inl e) \<Rightarrow> Some (Inl e)
              | Some (Inr r) \<Rightarrow>
                  Some (case set_module_default es5 r md of Inl e \<Rightarrow> Inl e | Inr r' \<Rightarrow> Inr (ImpNs r'))))"

text \<open>\<open>__importDefault(mod)\<close>, umd 293-295.\<close>

definition import_default :: "('v \<Rightarrow> bool) \<Rightarrow> 'v pheap \<Rightarrow> 'v pv \<Rightarrow> 'v imported option" where
  "import_default tr h md =
     map_option (\<lambda>esm. if esm then ImpModule md
                        else ImpNs \<lparr>i_props = [(PName ''default'', IData md True True True)]\<rparr>)
       (is_es_module tr h md)"

text \<open>\<open>Object.prototype.hasOwnProperty.call(o, k)\<close> on a heap object.\<close>

definition own_str_key :: "'v pheap \<Rightarrow> nat \<Rightarrow> pkey \<Rightarrow> bool" where
  "own_str_key h a k = (case ph_objs h a of Some obj \<Rightarrow> k \<in> fst ` set (p_props obj) | None \<Rightarrow> False)"

text \<open>
  The UMD wrapper of the bundle (umd 1-5) picks the module system of the host:
  CommonJS when \<open>exports\<close> is an object and \<open>module\<close> is defined, AMD when
  \<open>define\<close> is a function with \<open>define.amd\<close>, otherwise browser globals.
\<close>

datatype umd_host = CommonJS | AMD | BrowserGlobal

definition umd_select_host :: "bool \<Rightarrow> bool \<Rightarrow> bool \<Rightarrow> bool \<Rightarrow> umd_host" where
  "umd_select_host exports_is_object module_defined define_is_function define_amd =
     (if exports_is_object \<and> module_defined then CommonJS
      else if define_is_function \<and> define_amd then AMD
      else BrowserGlobal)"

text \<open>
  Line 7 of the bundle: \<open>Sortable = Sortable && Object.prototype.hasOwnProperty.call(Sortable,
  'default') ? Sortable['default'] : Sortable\<close>, the default-import interop of the
  bundler that wrote the wrapper. A primitive has no own \<open>default\<close>.
\<close>

definition sortable_interop :: "('v \<Rightarrow> bool) \<Rightarrow> 'v pheap \<Rightarrow> 'v pv \<Rightarrow> 'v pv option" where
  "sortable_interop tr h s =
     (case s of
        PRef a \<Rightarrow> if own_str_key h a (PName ''default'') then proto_get h a (PName ''default'') else Some s
      | _ \<Rightarrow> Some s)"

text \<open>
  A CommonJS module whose \<open>module.exports\<close> (object 1) has its own \<open>default\<close>
  and no \<open>__esModule\<close> marker; object 0 is \<open>Object.prototype\<close>.
\<close>

definition demo_cjs_heap :: "nat pheap" where
  "demo_cjs_heap =
     \<lparr>ph_objs = [0 \<mapsto> \<lparr>p_props = [], p_proto = None\<rparr>,
                 1 \<mapsto> \<lparr>p_props = [(PName ''default'', PPrim 1), (PName ''x'', PPrim 2)], p_proto = Some 0\<rparr>],
      ph_next = 2\<rparr>"

definition demo_exports :: "nat iobj" where
  "demo_exports = \<lparr>i_props = [(PName ''x'', IData (PPrim 5) True True True)]\<rparr>"

declare proto_get.simps [code] proto_chain_has.simps [code] heap_for_in.simps [code]

text \<open>The namespaces the two engines build: getters bound to \<open>a\<close>, or writable copies.\<close>

definition bindings_of :: "nat \<Rightarrow> 'v iobj \<Rightarrow> bool" where
  "bindings_of a r \<longleftrightarrow> (\<forall>(k, p) \<in> set (i_props r). p = IGet a k True False)"

definition plain_data :: "'v iobj \<Rightarrow> bool" where
  "plain_data r \<longleftrightarrow> (\<forall>(k, p) \<in> set (i_props r). \<exists>v. p = IData v True True True)"

lemma heap_for_in_unfold:
  "heap_for_in h a =
     (case ph_objs h a of
        None \<Rightarrow> Some []
      | Some obj \<Rightarrow>
          (let own = filter is_str_key (ordinary_own_keys (map fst (p_props obj)))
           in case p_proto obj of
                None \<Rightarrow> Some own
              | Some p \<Rightarrow> Option.bind (heap_for_in h p) (\<lambda>ks. Some (own @ [k \<leftarrow> ks. k \<notin> set own]))))"
  by (rule heap_for_in.simps)

lemma heap_for_in_returns:
  "chain_ends h n a \<Longrightarrow>
   \<exists>ks. heap_for_in h a = Some ks \<and> (\<forall>k. own_str_key h a k \<and> is_str_key k \<longrightarrow> k \<in> set ks)"
proof (induction n arbitrary: a)
  case 0
  then show ?case
    by (subst heap_for_in_unfold) (auto simp: own_str_key_def split: option.splits)
next
  case (Suc n)
  then show ?case
    by (subst heap_for_in_unfold) (fastforce simp: own_str_key_def split: option.splits)
qed

lemma heap_for_in_total:
  assumes "chains_finite h"
  obtains ks where "heap_for_in h a = Some ks" "\<And>k. own_str_key h a k \<Longrightarrow> is_str_key k \<Longrightarrow> k \<in> set ks"
proof -
  obtain n where "chain_ends h n a" using assms by (auto simp: chains_finite_def)
  from heap_for_in_returns [OF this] show ?thesis using that by blast
qed

lemma fst_set_alist_update [simp]: "fst ` set (AList.update k v al) = insert k (fst ` set al)"
  by (simp add: AList.dom_update)

lemma bindings_of_map_of: "bindings_of a r \<Longrightarrow> map_of (i_props r) k = Some p \<Longrightarrow> p = IGet a k True False"
  unfolding bindings_of_def by (auto dest: map_of_SomeD)

lemma plain_data_map_of: "plain_data r \<Longrightarrow> map_of (i_props r) k = Some p \<Longrightarrow> \<exists>v. p = IData v True True True"
  unfolding plain_data_def by (auto dest: map_of_SomeD)

lemma define_binding:
  "bindings_of a r \<Longrightarrow>
   define_property r k (IGet a k True False) = Inr (r\<lparr>i_props := AList.update k (IGet a k True False) (i_props r)\<rparr>)"
  by (auto simp: define_property_def dest: bindings_of_map_of split: option.split)

lemma bindings_of_update: "bindings_of a r \<Longrightarrow> bindings_of a (r\<lparr>i_props := AList.update k (IGet a k True False) (i_props r)\<rparr>)"
  using set_alist_update [of k "IGet a k True False" "i_props r"] by (auto simp: bindings_of_def)

lemma assign_plain:
  "plain_data r \<Longrightarrow> assign_prop r k v = Inr (r\<lparr>i_props := AList.update k (IData v True True True) (i_props r)\<rparr>)"
  by (auto simp: assign_prop_def dest: plain_data_map_of split: option.split)

lemma plain_data_update: "plain_data r \<Longrightarrow> plain_data (r\<lparr>i_props := AList.update k (IData v True True True) (i_props r)\<rparr>)"
  using set_alist_update [of k "IData v True True True" "i_props r"] by (auto simp: plain_data_def)

lemma import_star_loop_es5:
  "bindings_of a r \<Longrightarrow>
   \<exists>r'. import_star_loop True h a r ks = Some (Inr r') \<and> bindings_of a r' \<and>
        fst ` set (i_props r') = fst ` set (i_props r) \<union> {k \<in> set ks. own_str_key h a k}"
proof (induction ks arbitrary: r)
  case Nil
  then show ?case by simp
next
  case (Cons k ks)
  show ?case
  proof (cases "own_str_key h a k")
    case True
    then show ?thesis
      using Cons.IH [OF bindings_of_update [OF Cons.prems, of k]] Cons.prems
      by (auto simp: create_binding_def define_binding own_str_key_def split: option.splits)
  next
    case False
    then show ?thesis using Cons.IH [OF Cons.prems] by (auto simp: own_str_key_def split: option.splits)
  qed
qed

lemma import_star_loop_copy:
  assumes "chains_finite h" "plain_data r"
  shows "\<exists>r'. import_star_loop False h a r ks = Some (Inr r') \<and> plain_data r'"
  using assms(2)
proof (induction ks arbitrary: r)
  case Nil
  then show ?case by simp
next
  case (Cons k ks)
  obtain v where v: "proto_get h a k = Some v"
    using proto_walks_terminate [OF assms(1)] by blast
  show ?case
    using Cons.IH [OF plain_data_update [OF Cons.prems, of k v]] Cons.IH [OF Cons.prems] Cons.prems
    by (auto simp: create_binding_def assign_plain v split: option.splits)
qed

lemma is_es_module_ref:
  "is_es_module tr h (PRef a) = map_option (pv_truthy tr) (proto_get h a (PName ''__esModule''))"
  by (simp add: is_es_module_def)

lemma import_star_cjs:
  "is_es_module tr h (PRef a) = Some False \<Longrightarrow> heap_for_in h a = Some ks \<Longrightarrow>
   import_star es5 tr h (PRef a) =
     (case import_star_loop es5 h a \<lparr>i_props = []\<rparr> ks of
        None \<Rightarrow> None
      | Some (Inl e) \<Rightarrow> Some (Inl e)
      | Some (Inr r) \<Rightarrow> Some (case set_module_default es5 r (PRef a) of Inl e \<Rightarrow> Inl e | Inr r' \<Rightarrow> Inr (ImpNs r')))"
  by (simp add: import_star_def)

lemma own_default_in_for_in:
  assumes "chains_finite h" "ph_objs h a = Some obj" "PName ''default'' \<in> fst ` set (p_props obj)"
  obtains ks where "heap_for_in h a = Some ks" "PName ''default'' \<in> set ks" "own_str_key h a (PName ''default'')"
proof -
  have own: "own_str_key h a (PName ''default'')" using assms(2,3) by (simp add: own_str_key_def)
  obtain ks where ks: "heap_for_in h a = Some ks"
    and "\<And>k. own_str_key h a k \<Longrightarrow> is_str_key k \<Longrightarrow> k \<in> set ks"
    using heap_for_in_total [OF assms(1), of a] by blast
  then have "PName ''default'' \<in> set ks" using own by simp
  then show ?thesis using that own ks by blast
qed

lemma demo_cjs_heap_chains: "chains_finite demo_cjs_heap"
proof -
  have "chain_ends demo_cjs_heap 1 a" for a
    by (simp add: demo_cjs_heap_def)
  then show ?thesis unfolding chains_finite_def by blast
qed

text \<open>
  C29: \<open>__importStar\<close> of a CommonJS module that has its own \<open>default\<close> export
  throws a \<open>TypeError\<close> on an ES5 engine: the loop binds \<open>default\<close> as a
  non-configurable getter (\<open>__createBinding\<close> passes no \<open>configurable\<close>), and
  \<open>__setModuleDefault\<close> then redefines it as a data property. Without
  \<open>Object.create\<close> the same call succeeds and the namespace's \<open>default\<close> is the
  module itself. The loop lacks the \<open>k !== "default"\<close> test that \<open>__exportStar\<close>
  has.
\<close>

theorem import_star_default_clash:
  assumes "chains_finite h" "ph_objs h a = Some obj" "PName ''default'' \<in> fst ` set (p_props obj)"
    and "is_es_module tr h (PRef a) = Some False"
  shows "import_star True tr h (PRef a) = Some (Inl CannotRedefine) \<and>
         (\<exists>ns. import_star False tr h (PRef a) = Some (Inr (ImpNs ns)) \<and>
               iget h ns (PName ''default'') = Some (PRef a))"
proof
  obtain ks where ks: "heap_for_in h a = Some ks" and dk: "PName ''default'' \<in> set ks"
    and own: "own_str_key h a (PName ''default'')"
    using own_default_in_for_in [OF assms(1-3)] by blast
  obtain r where r: "import_star_loop True h a \<lparr>i_props = []\<rparr> ks = Some (Inr r)" "bindings_of a r"
    and dom: "fst ` set (i_props r) = {k \<in> set ks. own_str_key h a k}"
    using import_star_loop_es5 [of a "\<lparr>i_props = []\<rparr>" h ks] by (auto simp: bindings_of_def)
  have "PName ''default'' \<in> fst ` set (i_props r)" using dom dk own by blast
  then obtain p where "map_of (i_props r) (PName ''default'') = Some p"
    by (metis map_of_eq_None_iff not_Some_eq)
  then have "map_of (i_props r) (PName ''default'') = Some (IGet a (PName ''default'') True False)"
    using bindings_of_map_of [OF r(2)] by blast
  then have "set_module_default True r (PRef a) = Inl CannotRedefine"
    by (simp add: set_module_default_def define_property_def)
  then show "import_star True tr h (PRef a) = Some (Inl CannotRedefine)"
    by (simp add: import_star_cjs [OF assms(4) ks] r(1))
  obtain r2 where "import_star_loop False h a \<lparr>i_props = []\<rparr> ks = Some (Inr r2)" "plain_data r2"
    using import_star_loop_copy [OF assms(1), where r = "\<lparr>i_props = []\<rparr>" and a = a and ks = ks] by (auto simp: plain_data_def)
  then show "\<exists>ns. import_star False tr h (PRef a) = Some (Inr (ImpNs ns)) \<and>
                 iget h ns (PName ''default'') = Some (PRef a)"
    by (simp add: import_star_cjs [OF assms(4) ks] set_module_default_def assign_plain iget_def update_conv')
qed

theorem import_star_default_clash_witness:
  "import_star True (\<lambda>x. x \<noteq> 0) demo_cjs_heap (PRef 1) = Some (Inl CannotRedefine) \<and>
   (\<exists>ns. import_star False (\<lambda>x. x \<noteq> 0) demo_cjs_heap (PRef 1) = Some (Inr (ImpNs ns)) \<and>
         iget demo_cjs_heap ns (PName ''default'') = Some (PRef 1))"
proof -
  have "is_es_module (\<lambda>x. x \<noteq> 0) demo_cjs_heap (PRef 1) = Some False"
    by (simp add: is_es_module_def demo_cjs_heap_def proto_get_unfold pv_truthy_def)
  then show ?thesis
    using import_star_default_clash [OF demo_cjs_heap_chains, of 1 _ "\<lambda>x. x \<noteq> 0"]
    by (simp add: demo_cjs_heap_def)
qed

lemma export_star_loop_es5:
  "\<exists>ex'. export_star_loop True h m ex ks = Some (Inr ex') \<and>
     (\<forall>k. map_of (i_props ex') k =
            (if k \<in> fst ` set (i_props ex) then map_of (i_props ex) k
             else if k \<in> set ks \<and> k \<noteq> PName ''default'' then Some (IGet m k True False) else None))"
proof (induction ks arbitrary: ex)
  case Nil
  then show ?case by (auto simp: map_of_eq_None_iff)
next
  case (Cons p ps)
  show ?case
  proof (cases "p \<noteq> PName ''default'' \<and> p \<notin> fst ` set (i_props ex)")
    case True
    then have "map_of (i_props ex) p = None" by (simp add: map_of_eq_None_iff)
    then show ?thesis
      using True Cons.IH [of "ex\<lparr>i_props := AList.update p (IGet m p True False) (i_props ex)\<rparr>"]
      by (auto simp: create_binding_def define_property_def update_conv')
  next
    case False
    then show ?thesis using Cons.IH [of ex] by (auto; force)
  qed
qed

text \<open>
  C32: on an ES5 engine \<open>__exportStar(m, exports)\<close> returns and re-exports every key
  the \<open>for-in\<close> over \<open>m\<close> meets (inherited ones included), except \<open>default\<close> and
  the keys \<open>exports\<close> already has, which keep their value; each re-export is a live
  binding: read in any later heap it gives the current \<open>m[k]\<close>.
\<close>

theorem export_star_binds:
  assumes "chains_finite h"
  shows "\<exists>ks ex'. heap_for_in h m = Some ks \<and> export_star True h m ex = Some (Inr ex') \<and>
           (\<forall>k. map_of (i_props ex') k =
                  (if k \<in> fst ` set (i_props ex) then map_of (i_props ex) k
                   else if k \<in> set ks \<and> k \<noteq> PName ''default'' then Some (IGet m k True False) else None)) \<and>
           (\<forall>h' k. k \<notin> fst ` set (i_props ex) \<longrightarrow> k \<in> set ks \<longrightarrow> k \<noteq> PName ''default'' \<longrightarrow>
                   iget h' ex' k = proto_get h' m k)"
proof -
  obtain ks where ks: "heap_for_in h m = Some ks"
    using heap_for_in_total [OF assms, of m] by blast
  obtain ex' where ex': "export_star_loop True h m ex ks = Some (Inr ex')"
    and mp: "\<forall>k. map_of (i_props ex') k =
                (if k \<in> fst ` set (i_props ex) then map_of (i_props ex) k
                 else if k \<in> set ks \<and> k \<noteq> PName ''default'' then Some (IGet m k True False) else None)"
    using export_star_loop_es5 by blast
  have "iget h' ex' k = proto_get h' m k"
    if "k \<notin> fst ` set (i_props ex)" "k \<in> set ks" "k \<noteq> PName ''default''" for h' k
    using mp [rule_format, of k] that by (simp add: iget_def)
  then show ?thesis using ks ex' mp by (auto simp: export_star_def)
qed

theorem export_star_binds_witness:
  "\<exists>ex'. export_star True demo_cjs_heap 1 demo_exports = Some (Inr ex') \<and>
         map_of (i_props ex') (PName ''x'') = Some (IData (PPrim 5) True True True) \<and>
         map_of (i_props ex') (PName ''default'') = None \<and>
         iget (demo_cjs_heap\<lparr>ph_objs := (ph_objs demo_cjs_heap)(1 \<mapsto> \<lparr>p_props = [], p_proto = Some 0\<rparr>)\<rparr>)
           ex' (PName ''x'') = Some (PPrim 5)"
proof -
  have "heap_for_in demo_cjs_heap 1 = Some [PName ''default'', PName ''x'']"
    by (simp add: demo_cjs_heap_def heap_for_in_unfold ordinary_own_keys_def)
  then show ?thesis
    using export_star_binds [OF demo_cjs_heap_chains, of 1 demo_exports]
    by (auto simp: demo_exports_def iget_def)
qed

lemma import_star_agrees_with_import_default:
  assumes "chains_finite h" "ph_objs h a = Some obj" "PName ''default'' \<notin> fst ` set (p_props obj)"
    and "is_es_module tr h (PRef a) = Some False"
  shows "\<exists>ns ns'. import_star True tr h (PRef a) = Some (Inr (ImpNs ns)) \<and>
                 import_default tr h (PRef a) = Some (ImpNs ns') \<and>
                 iget h ns (PName ''default'') = Some (PRef a) \<and> iget h ns' (PName ''default'') = Some (PRef a)"
proof -
  obtain ks where ks: "heap_for_in h a = Some ks"
    using heap_for_in_total [OF assms(1), of a] by blast
  obtain r where r: "import_star_loop True h a \<lparr>i_props = []\<rparr> ks = Some (Inr r)"
    and dom: "fst ` set (i_props r) = {k \<in> set ks. own_str_key h a k}"
    using import_star_loop_es5 [of a "\<lparr>i_props = []\<rparr>" h ks] by (auto simp: bindings_of_def)
  have "map_of (i_props r) (PName ''default'') = None"
    using dom assms(2,3) by (auto simp: map_of_eq_None_iff own_str_key_def)
  then show ?thesis
    by (simp add: import_star_cjs [OF assms(4) ks] r set_module_default_def define_property_def
        import_default_def assms(4) iget_def update_conv')
qed

text \<open>
  The wrapper's interop and tslib's \<open>__importDefault\<close> agree on a CommonJS module
  without an own \<open>default\<close> (both give the module), and disagree on one that has
  it: the wrapper takes \<open>mod.default\<close>, \<open>__importDefault\<close> the module.
\<close>

lemma sortable_interop_vs_import_default:
  assumes "ph_objs h a = Some obj" "is_es_module tr h (PRef a) = Some False"
  shows "import_default tr h (PRef a) = Some (ImpNs \<lparr>i_props = [(PName ''default'', IData (PRef a) True True True)]\<rparr>) \<and>
         sortable_interop tr h (PRef a) =
           (if PName ''default'' \<in> fst ` set (p_props obj) then map_of (p_props obj) (PName ''default'') else Some (PRef a))"
proof -
  have "proto_get h a (PName ''default'') = map_of (p_props obj) (PName ''default'')"
    if "PName ''default'' \<in> fst ` set (p_props obj)"
    using that assms(1) by (subst proto_get_unfold) (auto simp: map_of_eq_None_iff split: option.split)
  then show ?thesis using assms by (simp add: import_default_def sortable_interop_def own_str_key_def)
qed

end
