(* ===== verification/Decorate.thy ===== *)
theory Decorate
  imports Prelude
begin

text \<open>
  tslib's decorator helpers (umd lines 61-77): \<open>__decorate\<close>, \<open>__param\<close> and
  \<open>__metadata\<close>, the code TypeScript emits for \<open>@dec class C\<close>, \<open>@dec m()\<close>
  and \<open>m(@dec x)\<close>. Their values are JavaScript values of an abstract type
  \<open>'v\<close>, their effects are those of an abstract state \<open>'s\<close>; what the engine and
  the application supply is the runtime record \<open>js_rt\<close>: truthiness,
  \<open>undefined\<close>, \<open>null\<close>, numbers, calling a value with arguments (which may run
  any code and throw), \<open>Object.getOwnPropertyDescriptor\<close>,
  \<open>Object.defineProperty\<close>, and \<open>Reflect.decorate\<close> and \<open>Reflect.metadata\<close>
  when a polyfill such as reflect-metadata installed them. \<open>arguments.length\<close> is
  the length of the argument list passed after the decorator array, plus one.
\<close>

record ('v, 's) js_rt =
  rt_truthy :: "'v \<Rightarrow> bool"
  rt_undef :: 'v
  rt_null :: 'v
  rt_num :: "nat \<Rightarrow> 'v"
  rt_call :: "'v \<Rightarrow> 'v list \<Rightarrow> 's \<Rightarrow> ('v, 's) res"
  rt_gopd :: "'v \<Rightarrow> 'v \<Rightarrow> 's \<Rightarrow> ('v, 's) res"
  rt_define :: "'v \<Rightarrow> 'v \<Rightarrow> 'v \<Rightarrow> 's \<Rightarrow> ('v, 's) res"
  rt_reflect_decorate :: "('v list \<Rightarrow> 'v \<Rightarrow> 'v \<Rightarrow> 'v \<Rightarrow> 's \<Rightarrow> ('v, 's) res) option"
  rt_reflect_metadata :: "('v \<Rightarrow> 'v \<Rightarrow> 's \<Rightarrow> ('v, 's) res) option"

text \<open>\<open>xs[i]\<close> of a JavaScript array or of \<open>arguments\<close>: \<open>undefined\<close> out of range.\<close>

definition arg :: "('v, 's) js_rt \<Rightarrow> 'v list \<Rightarrow> nat \<Rightarrow> 'v" where
  "arg rt xs i = (if i < length xs then xs ! i else rt_undef rt)"

text \<open>
  One decorator call, by the arity \<open>c\<close> of the \<open>__decorate\<close> call (umd 68):
  \<open>d(r)\<close> for a class, \<open>d(target, key, r)\<close> for a method or accessor,
  \<open>d(target, key)\<close> for a property.
\<close>

definition call_decorator :: "('v, 's) js_rt \<Rightarrow> nat \<Rightarrow> 'v \<Rightarrow> 'v \<Rightarrow> 'v \<Rightarrow> 'v \<Rightarrow> 's \<Rightarrow> ('v, 's) res" where
  "call_decorator rt c target key d r s =
     (if c < 3 then rt_call rt d [r] s
      else if 3 < c then rt_call rt d [target, key, r] s
      else rt_call rt d [target, key] s)"

text \<open>
  The loop \<open>for (var i = decorators.length - 1; i >= 0; i--)\<close> (umd 66-68), run with
  \<open>i + 1\<close> as its counter: a falsy entry is skipped, and a falsy result keeps \<open>r\<close>.
\<close>

fun decorate_loop :: "('v, 's) js_rt \<Rightarrow> nat \<Rightarrow> 'v \<Rightarrow> 'v \<Rightarrow> 'v list \<Rightarrow> nat \<Rightarrow> 'v \<Rightarrow> 's \<Rightarrow> ('v, 's) res" where
  "decorate_loop rt c target key ds 0 r s = Ok r s"
| "decorate_loop rt c target key ds (Suc i) r s =
     (let d = arg rt ds i in
      if rt_truthy rt d
      then res_bind (call_decorator rt c target key d r s)
             (\<lambda>v s'. decorate_loop rt c target key ds i (if rt_truthy rt v then v else r) s')
      else decorate_loop rt c target key ds i r s)"

text \<open>
  \<open>__decorate(decorators, target, key, desc)\<close>, umd 61-70, with \<open>xs\<close> the
  arguments after \<open>decorators\<close>: the initial \<open>r\<close> (the class, the given
  descriptor, or the own descriptor read when \<open>desc\<close> is \<open>null\<close>, which is also
  written back to \<open>desc\<close>), then \<open>Reflect.decorate\<close> or the loop, then
  \<open>c > 3 && r && Object.defineProperty(target, key, r)\<close> for its effect, and \<open>r\<close>.
\<close>

definition tslib_decorate :: "('v, 's) js_rt \<Rightarrow> 'v list \<Rightarrow> 'v list \<Rightarrow> 's \<Rightarrow> ('v, 's) res" where
  "tslib_decorate rt ds xs s =
     (let c = Suc (length xs); target = arg rt xs 0; key = arg rt xs 1; desc = arg rt xs 2
      in res_bind
           (if c < 3 then Ok (target, desc) s
            else if desc = rt_null rt then res_bind (rt_gopd rt target key s) (\<lambda>g s'. Ok (g, g) s')
            else Ok (desc, desc) s)
           (\<lambda>(r, desc') s1.
              res_bind
                (case rt_reflect_decorate rt of
                   Some rd \<Rightarrow> rd ds target key desc' s1
                 | None \<Rightarrow> decorate_loop rt c target key ds (length ds) r s1)
                (\<lambda>r' s2. if 3 < c \<and> rt_truthy rt r'
                          then res_bind (rt_define rt target key r' s2) (\<lambda>_ s3. Ok r' s3)
                          else Ok r' s2)))"


text \<open>\<open>__metadata(metadataKey, metadataValue)\<close>, umd 74-77: \<open>undefined\<close> without \<open>Reflect.metadata\<close>.\<close>

definition tslib_metadata :: "('v, 's) js_rt \<Rightarrow> 'v \<Rightarrow> 'v \<Rightarrow> 's \<Rightarrow> ('v, 's) res" where
  "tslib_metadata rt k v s = (case rt_reflect_metadata rt of Some f \<Rightarrow> f k v s | None \<Rightarrow> Ok (rt_undef rt) s)"

text \<open>
  The reference semantics of a decorator list: apply the entries from the last to the
  first, each to the result of the ones below it.
\<close>

fun apply_decorators :: "('v, 's) js_rt \<Rightarrow> nat \<Rightarrow> 'v \<Rightarrow> 'v \<Rightarrow> 'v list \<Rightarrow> 'v \<Rightarrow> 's \<Rightarrow> ('v, 's) res" where
  "apply_decorators rt c target key [] r s = Ok r s"
| "apply_decorators rt c target key (d # ds) r s =
     (if rt_truthy rt d
      then res_bind (call_decorator rt c target key d r s)
             (\<lambda>v s'. apply_decorators rt c target key ds (if rt_truthy rt v then v else r) s')
      else apply_decorators rt c target key ds r s)"

text \<open>
  A runtime to run the helpers on: values are numbers (0 is \<open>undefined\<close>, 1 is
  \<open>null\<close>, the others are truthy), decorator \<open>d\<close> called on a class \<open>x\<close> returns
  the class \<open>10 x + d\<close>, and value 7 is the closure \<open>__param(0, 3)\<close>.
\<close>

definition demo_rt :: "(nat, unit) js_rt" where
  "demo_rt =
     \<lparr>rt_truthy = (\<lambda>v. 2 \<le> v), rt_undef = 0, rt_null = 1, rt_num = (\<lambda>i. i + 100),
      rt_call = (\<lambda>d xs s. if d = 7 then Ok 0 s else Ok (case xs of [x] \<Rightarrow> 10 * x + d | _ \<Rightarrow> 0) s),
      rt_gopd = (\<lambda>t k s. Ok 0 s), rt_define = (\<lambda>t k r s. Ok 0 s),
      rt_reflect_decorate = None, rt_reflect_metadata = None\<rparr>"

lemma decorate_loop_rev:
  "i \<le> length ds \<Longrightarrow>
   decorate_loop rt c target key ds i r = apply_decorators rt c target key (rev (take i ds)) r"
proof (induction i arbitrary: r)
  case 0
  then show ?case by (simp add: fun_eq_iff)
next
  case (Suc i)
  have ih: "decorate_loop rt c target key ds i = apply_decorators rt c target key (rev (take i ds))"
    using Suc by (simp add: fun_eq_iff)
  have "take (Suc i) ds = take i ds @ [ds ! i]" using Suc.prems by (simp add: take_Suc_conv_app_nth)
  then show ?case using Suc.prems by (simp add: fun_eq_iff arg_def ih)
qed

lemma decorate_loop_all: "decorate_loop rt c target key ds (length ds) r = apply_decorators rt c target key (rev ds) r"
  by (simp add: decorate_loop_rev)

lemma apply_decorators_filter:
  "apply_decorators rt c target key (filter (rt_truthy rt) ds) = apply_decorators rt c target key ds"
  by (induction ds) (auto intro!: ext)

lemma apply_decorators_pure:
  assumes "\<forall>d\<in>set ds. rt_truthy rt d \<and> (\<forall>x s. call_decorator rt c target key d x s = Ok (f d x) s \<and> rt_truthy rt (f d x))"
  shows "apply_decorators rt c target key ds r s = Ok (fold f ds r) s"
  using assms by (induction ds arbitrary: r) simp_all


text \<open>
  C18: class decorators compose: \<open>@d1 @d2 class C\<close> gives \<open>d1(d2(C))\<close>, the last
  decorator applied first, when each returns a truthy value and Reflect.decorate is absent.
\<close>

theorem decorate_class_composes:
  assumes "rt_reflect_decorate rt = None"
    and "\<forall>d\<in>set ds. rt_truthy rt d \<and> (\<forall>x s. rt_call rt d [x] s = Ok (f d x) s \<and> rt_truthy rt (f d x))"
  shows "tslib_decorate rt ds [C] s = Ok (foldr f ds C) s"
proof -
  have "apply_decorators rt (Suc (Suc 0)) C (rt_undef rt) (rev ds) C s = Ok (fold f (rev ds) C) s"
    by (rule apply_decorators_pure) (use assms(2) in \<open>simp add: call_decorator_def\<close>)
  then show ?thesis
    using assms(1) by (simp add: tslib_decorate_def decorate_loop_all arg_def foldr_conv_fold)
qed

theorem decorate_class_composes_witness:
  "tslib_decorate demo_rt [2, 3] [5] () = Ok 532 ()"
  using decorate_class_composes [of demo_rt "[2, 3]" "\<lambda>d x. 10 * x + d" 5 "()"]
  by (simp add: demo_rt_def)

lemma decorate_skips_falsy:
  "rt_reflect_decorate rt = None \<Longrightarrow> tslib_decorate rt (filter (rt_truthy rt) ds) xs s = tslib_decorate rt ds xs s"
  by (simp add: tslib_decorate_def decorate_loop_all rev_filter apply_decorators_filter)

lemma metadata_without_reflect: "rt_reflect_metadata rt = None \<Longrightarrow> tslib_metadata rt k v s = Ok (rt_undef rt) s"
  by (simp add: tslib_metadata_def)




end
