(* ===== verification/Awaiter.thy ===== *)
theory Awaiter
  imports Generator
begin

text \<open>
  tslib's \<open>__awaiter\<close> (umd lines 78-96), the runtime of a downlevelled
  \<open>async\<close> function: the function's body is compiled to a \<open>__generator\<close> body
  whose \<open>yield\<close>s are its \<open>await\<close>s, and \<open>__awaiter\<close> drives that generator from
  promise reactions. The state \<open>aw\<close> holds the generator of theory \<open>Generator\<close>,
  the state of the promise \<open>__awaiter\<close> returned, the reaction jobs of this
  awaiter waiting in the microtask queue (\<open>Inl v\<close> runs \<open>fulfilled(v)\<close>,
  \<open>Inr e\<close> runs \<open>rejected(e)\<close>, in order), and the pending promise it waits on,
  if any. Which awaited values are promises (\<open>value instanceof P\<close>) is the
  parameter \<open>prom\<close>, and the states of those promises are \<open>aw_awaited\<close>, settled by the
  environment (\<open>aw_settle\<close>). \<open>P\<close> is the native \<open>Promise\<close>: the
  downlevelled code passes \<open>void 0\<close>.
\<close>

datatype 'v pstate = PPending | PFulfilled "'v gjs" | PRejected "'v gjs" | PResolvedTo nat

record ('v, 's) aw =
  aw_gen :: "('v, 's) gen"
  aw_promise :: "'v pstate"
  aw_jobs :: "('v gjs + 'v gjs) list"
  aw_waiting :: "nat option"
  aw_awaited :: "nat \<Rightarrow> 'v pstate"

text \<open>The \<open>resolve\<close> and \<open>reject\<close> functions of the returned promise: only the first call counts.\<close>

definition aw_resolve :: "('v gjs \<Rightarrow> nat option) \<Rightarrow> 'v gjs \<Rightarrow> ('v, 's) aw \<Rightarrow> ('v, 's) aw" where
  "aw_resolve prom x a =
     (if aw_promise a = PPending
      then a\<lparr>aw_promise := (case prom x of None \<Rightarrow> PFulfilled x | Some p \<Rightarrow> PResolvedTo p)\<rparr>
      else a)"

definition aw_reject :: "'v gjs \<Rightarrow> ('v, 's) aw \<Rightarrow> ('v, 's) aw" where
  "aw_reject e a = (if aw_promise a = PPending then a\<lparr>aw_promise := PRejected e\<rparr> else a)"

text \<open>
  \<open>adopt(value).then(fulfilled, rejected)\<close>: a plain value becomes a fulfilled promise,
  whose reaction is queued at once; so is the reaction on a settled promise; on a
  pending one it waits.
\<close>

definition aw_then :: "('v gjs \<Rightarrow> nat option) \<Rightarrow> 'v gjs \<Rightarrow> ('v, 's) aw \<Rightarrow> ('v, 's) aw" where
  "aw_then prom x a =
     (case prom x of
        None \<Rightarrow> a\<lparr>aw_jobs := aw_jobs a @ [Inl x]\<rparr>
      | Some p \<Rightarrow>
          (case aw_awaited a p of
             PFulfilled v \<Rightarrow> a\<lparr>aw_jobs := aw_jobs a @ [Inl v]\<rparr>
           | PRejected e \<Rightarrow> a\<lparr>aw_jobs := aw_jobs a @ [Inr e]\<rparr>
           | _ \<Rightarrow> a\<lparr>aw_waiting := Some p\<rparr>))"

text \<open>
  \<open>step(result)\<close> after \<open>generator.next(v)\<close> or \<open>generator["throw"](v)\<close>, with the
  \<open>try/catch\<close> of \<open>fulfilled\<close> and \<open>rejected\<close> (and of the promise executor, for
  the first call): a thrown exception rejects the promise.
\<close>

definition aw_resume :: "('v, 's) gbody \<Rightarrow> ('v gjs \<Rightarrow> nat option) \<Rightarrow> gmethod \<Rightarrow> 'v gjs \<Rightarrow> ('v, 's) aw \<Rightarrow> ('v, 's) aw option" where
  "aw_resume body prom m v a =
     map_option
       (\<lambda>(r, g'). let a' = a\<lparr>aw_gen := g'\<rparr> in
          (case r of
             GDone x \<Rightarrow> aw_resolve prom x a'
           | GYield x \<Rightarrow> aw_then prom x a'
           | GThrow e \<Rightarrow> aw_reject e a'))
       (gen_resume body m v (aw_gen a))"

text \<open>The call of the \<open>async\<close> function: the generator is created and runs to its first \<open>await\<close>.\<close>

definition aw_start :: "('v, 's) gbody \<Rightarrow> ('v gjs \<Rightarrow> nat option) \<Rightarrow> (nat \<Rightarrow> 'v pstate) \<Rightarrow> 's \<Rightarrow> ('v, 's) aw option" where
  "aw_start body prom ext env =
     aw_resume body prom GNext None
       \<lparr>aw_gen = gen_init env, aw_promise = PPending, aw_jobs = [], aw_waiting = None, aw_awaited = ext\<rparr>"

text \<open>One microtask of this awaiter: the first queued reaction runs.\<close>

definition aw_job :: "('v, 's) gbody \<Rightarrow> ('v gjs \<Rightarrow> nat option) \<Rightarrow> ('v, 's) aw \<Rightarrow> ('v, 's) aw option" where
  "aw_job body prom a =
     (case aw_jobs a of
        [] \<Rightarrow> Some a
      | Inl v # js \<Rightarrow> aw_resume body prom GNext v (a\<lparr>aw_jobs := js\<rparr>)
      | Inr e # js \<Rightarrow> aw_resume body prom GThrowM e (a\<lparr>aw_jobs := js\<rparr>))"

fun aw_drain :: "('v, 's) gbody \<Rightarrow> ('v gjs \<Rightarrow> nat option) \<Rightarrow> nat \<Rightarrow> ('v, 's) aw \<Rightarrow> ('v, 's) aw option" where
  "aw_drain body prom 0 a = Some a"
| "aw_drain body prom (Suc n) a =
     (if aw_jobs a = [] then Some a else Option.bind (aw_job body prom a) (aw_drain body prom n))"

text \<open>The environment settles the external promise \<open>p\<close>; a reaction waiting on it is queued.\<close>

definition aw_settle :: "nat \<Rightarrow> 'v pstate \<Rightarrow> ('v, 's) aw \<Rightarrow> ('v, 's) aw" where
  "aw_settle p st a =
     (let a' = a\<lparr>aw_awaited := (aw_awaited a)(p := st)\<rparr> in
      if aw_waiting a = Some p
      then (case st of
              PFulfilled v \<Rightarrow> a'\<lparr>aw_jobs := aw_jobs a @ [Inl v], aw_waiting := None\<rparr>
            | PRejected e \<Rightarrow> a'\<lparr>aw_jobs := aw_jobs a @ [Inr e], aw_waiting := None\<rparr>
            | _ \<Rightarrow> a')
      else a')"

text \<open>
  The reference: the generator run directly, each \<open>await\<close> answered at once with the
  awaited value, for at most \<open>n\<close> resumptions; \<open>PPending\<close> when they are not enough.
\<close>

fun await_direct :: "('v, 's) gbody \<Rightarrow> nat \<Rightarrow> 'v gjs \<Rightarrow> ('v, 's) gen \<Rightarrow> ('v pstate \<times> ('v, 's) gen) option" where
  "await_direct body 0 v g = Some (PPending, g)"
| "await_direct body (Suc n) v g =
     (case gen_resume body GNext v g of
        None \<Rightarrow> None
      | Some (GDone x, g') \<Rightarrow> Some (PFulfilled x, g')
      | Some (GThrow e, g') \<Rightarrow> Some (PRejected e, g')
      | Some (GYield x, g') \<Rightarrow> await_direct body n x g')"

text \<open>
  \<open>async function (x, y) { const a = await x; await y; return a; }\<close> as TypeScript
  compiles it: \<open>case 0: return [4, x]; case 1: a = _a.sent(); return [4, y];
  case 2: _a.sent(); return [2, a];\<close>, the local \<open>a\<close> being the body's state.
\<close>

definition await_body :: "'v gjs \<Rightarrow> 'v gjs \<Rightarrow> ('v, 'v gjs) gbody" where
  "await_body x y t c a =
     (case label c of
        0 \<Rightarrow> (Inr (Some (OYield x)), c, a)
      | Suc 0 \<Rightarrow> (case gen_sent t of Inl e \<Rightarrow> (Inl e, c, a) | Inr v \<Rightarrow> (Inr (Some (OYield y)), c, v))
      | Suc (Suc 0) \<Rightarrow> (case gen_sent t of Inl e \<Rightarrow> (Inl e, c, a) | Inr _ \<Rightarrow> (Inr (Some (OReturn a)), c, a))
      | _ \<Rightarrow> (Inr None, c, a))"

lemma aw_drain_idle: "aw_jobs a = [] \<Longrightarrow> aw_drain body prom n a = Some a"
  by (cases n) simp_all

lemma aw_resume_plain:
  assumes "\<forall>v. prom v = None" "aw_jobs a = []" "aw_promise a = PPending"
  shows "aw_resume body prom m x a =
           map_option (\<lambda>(r, g'). case r of
                GDone y \<Rightarrow> a\<lparr>aw_gen := g', aw_promise := PFulfilled y\<rparr>
              | GYield y \<Rightarrow> a\<lparr>aw_gen := g', aw_jobs := [Inl y]\<rparr>
              | GThrow e \<Rightarrow> a\<lparr>aw_gen := g', aw_promise := PRejected e\<rparr>)
             (gen_resume body m x (aw_gen a))"
  using assms
  by (auto simp: aw_resume_def aw_resolve_def aw_reject_def aw_then_def
           intro!: option.map_cong split: gres.split)

lemma aw_resume_drain:
  assumes "\<forall>v. prom v = None" "aw_jobs a = []" "aw_promise a = PPending"
  shows "map_option (\<lambda>a'. (aw_promise a', aw_gen a')) (Option.bind (aw_resume body prom GNext x a) (aw_drain body prom n)) =
         await_direct body (Suc n) x (aw_gen a)"
  using assms(2,3)
proof (induction n arbitrary: a x)
  case 0
  then show ?case
    by (auto simp: aw_resume_plain [OF assms(1)] split: option.split gres.split)
next
  case (Suc n)
  let ?a = "\<lambda>g' y. a\<lparr>aw_gen := g', aw_jobs := []\<rparr>"
  have step: "map_option (\<lambda>a'. (aw_promise a', aw_gen a'))
                (Option.bind (aw_resume body prom GNext y (?a g' y)) (aw_drain body prom n)) =
              await_direct body (Suc n) y g'" for g' y
    using Suc.IH [of "?a g' y" y] Suc.prems by simp
  show ?case
    using Suc.prems step
    by (auto simp: aw_resume_plain [OF assms(1)] aw_job_def aw_drain_idle split: option.split gres.split)
qed

text \<open>
  C20: an \<open>async\<close> function whose awaited values are not promises behaves, one microtask
  per \<open>await\<close>, as its generator run directly with each awaited value fed back:
  after its call and \<open>n\<close> microtasks, the promise it returned and its generator are
  those of the direct run with \<open>n + 1\<close> resumptions (fulfilled with the returned
  value, rejected with the thrown one, or still pending).
\<close>

theorem awaiter_refines_direct:
  assumes "\<forall>v. prom v = None"
  shows "map_option (\<lambda>a. (aw_promise a, aw_gen a)) (Option.bind (aw_start body prom ext env) (aw_drain body prom n)) =
         await_direct body (Suc n) None (gen_init env)"
  using aw_resume_drain [OF assms, of "\<lparr>aw_gen = gen_init env, aw_promise = PPending, aw_jobs = [],
    aw_waiting = None, aw_awaited = ext\<rparr>"] by (simp add: aw_start_def)

theorem awaiter_refines_direct_witness:
  "map_option (\<lambda>a. (aw_promise a, aw_gen a))
     (Option.bind (aw_start (await_body (Some (GV (7::nat))) (Some (GV 8))) (\<lambda>_. None) (\<lambda>_. PPending) None)
        (aw_drain (await_body (Some (GV 7)) (Some (GV 8))) (\<lambda>_. None) 2)) =
   Some (PFulfilled (Some (GV 7)), \<lparr>g_ctx = None, g_y = None, g_f = False, g_env = Some (GV 7)\<rparr>)"
proof -
  have "await_direct (await_body (Some (GV (7::nat))) (Some (GV 8))) (Suc 2) None (gen_init None) =
        Some (PFulfilled (Some (GV 7)), \<lparr>g_ctx = None, g_y = None, g_f = False, g_env = Some (GV 7)\<rparr>)"
    unfolding numeral_2_eq_2 by (simp add: gen_init_def await_body_def gen_step_simps)
  then show ?thesis
    using awaiter_refines_direct [of "\<lambda>_. None" "await_body (Some (GV (7::nat))) (Some (GV 8))" "\<lambda>_. PPending" None 2]
    by (simp del: await_direct.simps)
qed

text \<open>Awaiting a pending promise parks the function until the environment settles it.\<close>

lemma await_pending_promise:
  assumes "prom x = Some p" "aw_awaited a p = PPending"
  shows "aw_then prom x a = a\<lparr>aw_waiting := Some p\<rparr>"
    and "aw_settle p (PFulfilled v) (a\<lparr>aw_waiting := Some p\<rparr>) =
           a\<lparr>aw_awaited := (aw_awaited a)(p := PFulfilled v), aw_jobs := aw_jobs a @ [Inl v], aw_waiting := None\<rparr>"
  using assms by (simp_all add: aw_then_def aw_settle_def)

end
