(* ===== verification/Spec2Isabelle.thy ===== *)
theory Spec2Isabelle
  imports Gesture_Runs Event_Loop Heap_Invariants Generator Prototypes Interop Decorate Awaiter
begin

text \<open>
  \<^bold>\<open>A verification development of ngx-sortablejs.\<close>

  ngx-sortablejs is an Angular directive that keeps application data (plain arrays or
  Angular FormArrays) in step with the DOM order produced by the SortableJS drag-and-drop
  library. The repository ships it twice, as an ES2015 module
  (src/esm2015/lib/sortablejs.directive.js, sortablejs.module.js) and as a UMD bundle
  (src/bundles/ngx-sortablejs.umd.js, which also contains SortablejsBinding,
  SortablejsBindings and SortablejsService); both copies hold the same code.

  \<^bold>\<open>Parts and how they interact.\<close> Sortable fires \<open>onAdd\<close>, \<open>onRemove\<close> and
  \<open>onUpdate\<close> on the directive of the list concerned. Each directive resolves its
  bound collections (\<open>getBindings\<close>) into a \<open>SortablejsBindings\<close> group, whose
  \<open>SortablejsBinding\<close> members insert, read and remove at an index of one collection.
  Between two lists, the directives hand the moved data over through the single
  \<open>transfer\<close> slot of the shared \<open>SortablejsService\<close>: \<open>onAdd\<close> of the target
  stores a closure, \<open>onRemove\<close> of the source calls it with the extracted (or, in clone
  mode, read and cloned) items and clears it. Application callbacks are re-emitted
  through \<open>proxyEvent\<close>.

  \<^bold>\<open>Theories.\<close>
  \<^item> \<open>Prelude\<close>: JavaScript values (\<open>None\<close> is \<open>undefined\<close>), the error type,
    the result type \<open>('v, 's) res\<close> whose exceptions keep the state reached (JavaScript
    objects are shared, so a throw does not undo earlier mutations), list lemmas, and the
    abstract reorder \<open>move_item\<close>.
  \<^item> \<open>JsArray\<close>: \<open>Array.prototype.splice\<close> and \<open>a[i]\<close> from ECMA-262, indices as
    \<open>int\<close> (negative starts count from the end, reads out of range are \<open>undefined\<close>).
  \<^item> \<open>Binding\<close>: \<open>SortablejsBinding\<close> (umd 312-349); the \<open>isFormArray\<close> probe is
    the constructor of \<open>target\<close>; \<open>binding_insert/get/remove\<close>; the FormArray methods
    from @angular/forms; characteristic equations on every branch.
  \<^item> \<open>Bindings\<close>: \<open>SortablejsBindings\<close> (umd 351-372) over a heap
    \<open>addr \<Rightarrow> 'a target\<close>, so aliasing between bound collections is explicit;
    closed forms of \<open>injectIntoEvery\<close> and \<open>extractFromEvery\<close> for distinct groups.
  \<^item> \<open>Dom\<close>: \<open>Node.removeChild\<close>, \<open>Node.insertBefore\<close> and Renderer2's null-parent
    guard, a DOM being children lists plus parent links.
  \<^item> \<open>Events\<close>: the Sortable event and \<open>getIndexesFromEvent\<close> (esm 6-19).
  \<^item> \<open>Directive\<close>: the system state (\<open>sys\<close>: heap, DOM, directive instances, the
    service's transfer slot as a defunctionalised closure \<open>Pending d ev\<close>, the log of
    application callbacks) and \<open>on_add\<close>, \<open>on_remove\<close>, \<open>on_update\<close> (esm 97-139) with
    their helpers (esm 66-96). Option values are JavaScript values (functions and objects
    by identity, primitives by value) with ECMAScript truthiness.
  \<^item> \<open>Gesture\<close>: what SortableJS does around the handlers (from its documentation, not
    code of this repository): the DOM move of a drag, the raw and draggable indices it
    reports when a container has non-draggable filler children, and its dispatch order
    (\<open>add\<close> on the target, then \<open>remove\<close> on the source). The contract of the directive
    is the \<open>mirrors\<close> relation: a container's draggable children render its collection.
  \<^item> \<open>Gesture_Runs\<close>: sequences of gestures over several registered lists. A
    \<open>layout\<close> gives each directive instance its container and bound collection;
    \<open>run_gesture\<close>/\<open>run_gestures\<close> run reorders and moves between lists;
    \<open>abs_gesture\<close> is their effect on the map from list to contents, and
    \<open>mirrored_sys\<close> the invariant that every registered list mirrors its container.
  \<^item> \<open>Lifecycle\<close>: the constructor (esm 22-30), \<open>SortablejsModule.forRoot\<close> and the
    \<open>GLOBALS\<close> injection, the \<open>options\<close> getter with the intercepting handlers (esm
    77-79, 97-100), \<open>ngOnInit\<close>/\<open>create\<close> and the deferred \<open>setTimeout\<close> callback
    (\<open>fire_timer\<close>), \<open>ngOnChanges\<close> (\<open>forward_changed\<close> is its loop over
    \<open>Object.keys\<close>), \<open>ngOnDestroy\<close>, over a \<open>world\<close> holding the system, the
    pending timers and the Sortable instances; \<open>lc_reach\<close> is the step relation of
    lifecycle events.
  \<^item> \<open>Event_Loop\<close>: the browser's event loop over the callbacks \<open>create\<close> scheduled
    (\<open>run_timers\<close>), which goes on after a callback throws.
  \<^item> \<open>Heap_Invariants\<close>: the handlers dispatched by name (\<open>handle\<close>, the
    \<open>overridenOptions\<close> object), the states they reach (\<open>handler_reach\<close>), the
    well-formedness of the heap and the frame of a drag.
  \<^item> \<open>Bundle\<close>: the UMD bundle's downlevelled \<open>proxyEvent\<close> (rest-parameter loop,
    \<open>apply\<close> with tslib's \<open>__spread\<close> and \<open>__read\<close>, umd 194-222 and 474-486).
  \<^item> \<open>Tslib\<close>: the other tslib helpers of the bundle that can be stated over plain
    data: ECMAScript objects with own and inherited properties and the key order of
    \<open>[[OwnPropertyKeys]]\<close> and \<open>for-in\<close>; \<open>__assign\<close> (umd 37-48) against
    \<open>Object.assign\<close>; \<open>__rest\<close> (49-59); \<open>__values\<close> (180-193) with its
    iterator closure as state \<open>(o, i)\<close>; \<open>__spreadArrays\<close> (223-230);
    \<open>__classPrivateFieldGet/Set\<close> (296-307) over a \<open>WeakMap\<close> as a partial map.
  \<^item> \<open>Generator\<close>: tslib's \<open>__generator\<close> (umd 97-165), the runtime of downlevelled
    generator functions: the context \<open>_\<close> (label, stack of try regions, stack of
    suspended instructions), the delegate \<open>y\<close> of \<open>yield*\<close> and the flag
    \<open>f\<close> as a record \<open>gen\<close>; instructions as the datatype \<open>gop\<close>; the
    \<open>switch\<close> as \<open>gen_dispatch\<close>; the \<open>while\<close> loop of \<open>step\<close> as the
    \<open>partial_function\<close> \<open>gen_loop\<close>; \<open>next/throw/return\<close> as
    \<open>gen_resume\<close>. The compiled body is a parameter; three bodies that TypeScript
    emits (\<open>yield*\<close>, \<open>try/catch\<close>, \<open>try/finally\<close>) are fixtures.
  \<^item> \<open>Prototypes\<close>: tslib's \<open>extendStatics\<close> and \<open>__extends\<close> (umd 24-36) over a
    heap of objects with prototype links (\<open>pheap\<close>); \<open>[[Get]]\<close> along the chain
    (\<open>proto_get\<close>) and the cycle check of OrdinarySetPrototypeOf
    (\<open>proto_chain_has\<close>) are partial functions, a heap of the model may hold a
    cycle; the engine's choice among \<open>Object.setPrototypeOf\<close>, the \<open>__proto__\<close>
    setter and copying is \<open>statics_env\<close>.
  \<^item> \<open>Interop\<close>: tslib's module interop helpers \<open>__createBinding\<close>,
    \<open>__exportStar\<close> (umd 166-179), \<open>__makeTemplateObject\<close>,
    \<open>__setModuleDefault\<close>, \<open>__importStar\<close> and \<open>__importDefault\<close>
    (267-295). The imported module is an object of the \<open>Prototypes\<close> heap, read by a
    \<open>for-in\<close> along its chain (\<open>heap_for_in\<close>, a partial function); the objects
    the helpers build carry property attributes (\<open>iprop\<close>: data or getter,
    enumerable, writable, configurable), \<open>Object.defineProperty\<close> follows
    ValidateAndApplyPropertyDescriptor for the descriptors the helpers pass and
    \<open>o[k] = v\<close> is strict-mode assignment; the flag \<open>es5\<close> is whether the
    engine has \<open>Object.create\<close>. The same theory holds the UMD wrapper's choice of
    module system (umd 1-5, \<open>umd_select_host\<close>) and its default-import interop for
    \<open>sortablejs\<close> (umd 7, \<open>sortable_interop\<close>).
  \<^item> \<open>Decorate\<close>: \<open>__decorate\<close>, \<open>__param\<close> and \<open>__metadata\<close> (umd 61-77)
    over an abstract runtime \<open>js_rt\<close> (truthiness, calls that may throw or change
    an abstract state, property descriptors, \<open>Reflect\<close> when a polyfill is
    present); the right-to-left loop is \<open>decorate_loop\<close>, its reference the fold
    \<open>apply_decorators\<close>.
  \<^item> \<open>Awaiter\<close>: \<open>__awaiter\<close> (umd 78-96) driving a \<open>__generator\<close> body of
    theory \<open>Generator\<close> from promise reactions: the state \<open>aw\<close> holds the
    generator, the returned promise (\<open>pstate\<close>, resolve and reject effective once),
    the awaiter's reaction jobs in the microtask queue (run by \<open>aw_job\<close> and
    \<open>aw_drain\<close>) and the pending promise it waits on, settled by the environment
    (\<open>aw_settle\<close>).

  \<^bold>\<open>What is proved.\<close> One binding: insert/get/remove round trip; a negative index
  returns different things for arrays and FormArrays. The group: the inject/get/extract
  round trip for distinct collections; a collection bound twice gets its items back
  reversed, for any items and in-range index; too few items insert
  \<open>undefined\<close> or throw. The handlers: \<open>onUpdate\<close> performs \<open>move_item\<close> on every
  collection; in Sortable's dispatch order (add on the target, then remove on the source)
  a drag moves the element between the collections and empties the slot; run in the
  opposite order \<open>onRemove\<close> extracts the item and then throws, losing it; clone mode
  leaves the source unchanged, inserts the clone and repairs the DOM. The gestures: a drag
  inside one list keeps the mirror even with fillers (draggable indices); a drag between
  lists without fillers keeps both mirrors; whenever a filler precedes the dragged node
  the raw \<open>oldIndex\<close> of \<open>onRemove\<close> moves the item at that raw position, not the
  one the node renders; a drag from an unbound list
  leaves the target's data without the item and a stale closure in the slot. Over several
  lists without fillers or clone mode, every sequence of drags that is valid on the
  abstract lists runs without an exception and refines the abstract sequence (a lemma
  derives from it, by rule induction on \<open>gesture_reach\<close>, that every reached state
  keeps all lists mirrored). The lifecycle: every reachable
  world keeps the three events routed to the directive (rule induction on \<open>lc_reach\<close>);
  destroying before the timer leaks a live instance; an options change forwards exactly
  the changed keys (a removed option stays set) and throws before the timer has run; a
  lemma unfolds the options a \<open>forRoot\<close> module passes. The event loop terminates,
  emitting one \<open>sortablejsInit\<close> per creation whose container exists, and every such
  creation ends with a live instance (liveness); a container selector that matches nothing
  leaves the directive inert. A lemma shows by rule induction on \<open>handler_reach\<close> that
  handler calls keep every FormArray free of \<open>undefined\<close> controls (which Angular's
  own check guarantees whatever the handlers do); a
  drag between two lists changes no collection of a third list, even when it throws or a
  stale closure was pending. The bundle's \<open>proxyEvent\<close> is equivalent to the ES2015
  one, and \<open>__read\<close> is bounded by its count. The tslib helpers: the fallback
  \<open>__assign\<close> copies the own string-keyed properties, later sources winning, and is
  \<open>Object.assign\<close> on the sources without their symbol-keyed properties (which it
  drops, unlike \<open>Object.assign\<close>); \<open>__spreadArrays\<close> is concatenation;
  \<open>__rest\<close> keeps exactly the own non-excluded properties; the iterator of
  \<open>__values\<close> answers every sequence of \<open>next()\<close> calls as the engine's array
  iterator does, the helper returns one on every iterable or array-like argument and
  throws on the others; a private field reads back what was set. The generator runtime:
  a completed generator answers every later call as ES2015 prescribes and never runs its
  body again (a lemma); a compiled \<open>yield*\<close> over an array runs to completion in
  \<open>length xs + 2\<close> calls (liveness of the \<open>partial_function\<close> on this body);
  for every compiled body, \<open>throw(e)\<close> inside a try region enters the catch block with
  \<open>e\<close> as the sent value and \<open>return(v)\<close> runs the finally block before completing
  with \<open>v\<close>; and \<open>throw(e)\<close> on a generator that has not started runs its body as
  \<open>next()\<close> would, instead of throwing \<open>e\<close>. The class helpers: \<open>__extends\<close>
  links \<open>D.prototype\<close> to \<open>B.prototype\<close> with \<open>constructor = D\<close> and \<open>D\<close> to
  \<open>B\<close>; on every sound heap, statics added to \<open>B\<close> later are seen by \<open>D\<close> with
  \<open>setPrototypeOf\<close>, while the copying fallback leaves \<open>D\<close> with what \<open>B\<close> owned
  at the call. Lemmas show that \<open>__extends\<close> returns on every sound heap and keeps it
  sound; these hold for any code built from the heap's primitives. The interop helpers: \<open>__importStar\<close> of a CommonJS module that has its own
  \<open>default\<close> export throws \<open>Cannot redefine property\<close> on every ES5 engine (the
  loop binds \<open>default\<close> as a non-configurable getter before
  \<open>__setModuleDefault\<close> redefines it) and succeeds without \<open>Object.create\<close>;
  \<open>__exportStar\<close> returns and re-exports every key but \<open>default\<close> and those
  already exported, as live bindings. The decorator helpers: the loop is the
  fold over the reversed list, falsy entries (such as \<open>__metadata\<close> without
  reflect-metadata) are skipped, class decorators compose as \<open>d1(d2(C))\<close>, and
  \<open>__param\<close> closures leave a method's descriptor as it was. \<open>__awaiter\<close>:
  when no awaited value is a promise, the call and \<open>n\<close> microtasks leave
  the returned promise and the generator as the direct run of the generator with each
  awaited value fed back, \<open>n + 1\<close> resumptions (a refinement, computed on a
  two-\<open>await\<close> body); awaiting a pending promise parks the function until it is
  settled. Lemmas not among the listed properties also cover
  \<open>__values\<close>' error cases and the iterator it returns, the private-field helpers,
  the fallback \<open>__assign\<close> and \<open>__rest\<close> read property by property, and the
  agreement of \<open>__importStar\<close> with \<open>__importDefault\<close> on the \<open>default\<close> of a
  CommonJS module that has none of its own.

  \<^bold>\<open>Loops, fuel and bounds.\<close> The step loop of \<open>__generator\<close> runs as long as the
  compiled body keeps jumping, possibly forever, so it is a \<open>partial_function\<close> in the
  option monad; that it returns is proved for the bodies considered, by unfolding.
  Every other loop of the code is a \<open>forEach\<close> or \<open>map\<close> over a
  finite list, modelled by structural recursion, or an indexed \<open>for\<close> loop of the
  bundle (\<open>__spread\<close>, the rest-parameter copy), modelled by \<open>function\<close> with the
  measure \<open>length - i\<close>; the event loop terminates by the measure "number of pending
  callbacks", since a callback schedules nothing. The walks along prototype chains
  (\<open>proto_get\<close>, \<open>proto_chain_has\<close>, \<open>heap_for_in\<close>) are partial functions
  that return on every heap whose chains end (\<open>chains_finite\<close>), which is how their
  termination is stated. The decorator loop counts down from \<open>decorators.length\<close>
  (structural on the counter). The microtask queue of \<open>__awaiter\<close> is drained
  with fuel \<open>n\<close>, one job per unit, and the reference run \<open>await_direct\<close> with
  \<open>n + 1\<close> resumptions; the refinement holds for every \<open>n\<close>, so fuel that
  runs out leaves both sides pending alike. Every model function is total and
  executable; indices are unbounded JavaScript integers (\<open>int\<close>).

  \<^bold>\<open>Not modelled.\<close> tslib's \<open>__await\<close>, \<open>__asyncGenerator\<close>,
  \<open>__asyncDelegator\<close> and \<open>__asyncValues\<close> (umd 231-266): their request queue
  holds several outstanding promises, each with its own resolve functions, so they need a
  heap of promises where \<open>Awaiter\<close> has the one promise of an \<open>async\<close> call; the
  library calls none of them, nor \<open>__awaiter\<close> or the decorator and interop
  helpers. In \<open>__extends\<close> and the interop helpers, setters, non-extensible objects
  and exotic objects (heap objects are ordinary, with enumerable data properties; a module
  that is a primitive has no enumerable properties and is never an ES module). In
  \<open>__awaiter\<close>, a custom promise constructor \<open>P\<close> (the compiled code passes
  \<open>void 0\<close>) and the interleaving of its jobs with other microtasks. In
  \<open>__generator\<close>, a body that calls its own generator again while it runs (the
  compiled body is a function of its inputs, so the flag \<open>f\<close> is modelled but never
  set at the entry of a step) and the \<open>g[Symbol.iterator]\<close> method. The UMD
  factory call itself, which binds \<open>require('@angular/core')\<close> and the exports
  object (module loading), and the export assignments at its end; the UMD copies of the
  directive's methods other than \<open>proxyEvent\<close>, which are the ES2015 code unchanged
  and are modelled once; the import lines and the Angular decorator metadata
  (\<open>decorators\<close>, \<open>ctorParameters\<close>, \<open>propDecorators\<close>), which are data for
  Angular's compiler; Angular's zones and change detection (\<open>zone.run\<close> and
  \<open>runOutsideAngular\<close> only choose the zone, so both branches of \<open>ngOnInit\<close> are
  the same step); the application's callbacks and clone function beyond their results;
  the SortableJS drag mechanics beyond the gestures above.

  \<^bold>\<open>Open properties.\<close> Drags between lists in clone mode and with group
  collections as gestures, the cross-list mirror with fillers stated in general, and what
  a stale closure does to later gestures are modelled by the definitions above but not
  stated as theorems.
\<close>

end
